(* ===== verification/Fs3_Prelude.thy ===== *)
theory Fs3_Prelude
  imports Main "HOL-Library.Sublist"
begin

text \<open>
  Shared vocabulary of the development: the string and array operations of the
  JavaScript standard library that the browser code calls (\<open>indexOf\<close>, \<open>slice\<close>,
  \<open>substring\<close>, \<open>splice\<close>, \<open>split\<close>, \<open>join\<close>, \<open>replace\<close>, decimal printing), with the
  generic lemmas the components share, and the collections of hints.

  A JavaScript string is modelled as a \<open>string\<close> (a list of characters); the code under
  \<open>browser/src\<close> indexes and cuts strings by position, as list operations do. Array and
  string methods that exist on both sides (\<open>slice\<close>, \<open>indexOf\<close>) are polymorphic lists.
\<close>

named_theorems js_defs \<open>definitions of the JavaScript library operations\<close>
named_theorems handler_defs \<open>definitions of event handlers, unfolded by the component proofs\<close>
named_theorems frame_simps \<open>what a handler leaves unchanged\<close>

type_synonym js_string = string

section \<open>Searching\<close>

definition starts_with :: "'a list \<Rightarrow> 'a list \<Rightarrow> bool" where
  "starts_with pat s \<longleftrightarrow> take (length pat) s = pat"

text \<open>Position of the first occurrence of a pattern, if there is one.\<close>

fun find_sub :: "'a list \<Rightarrow> 'a list \<Rightarrow> nat option" where
  "find_sub pat [] = (if pat = [] then Some 0 else None)"
| "find_sub pat (x # xs) =
     (if starts_with pat (x # xs) then Some 0 else map_option Suc (find_sub pat xs))"

text \<open>\<open>s.indexOf(pat)\<close>: the position, or \<open>-1\<close>.\<close>

definition js_indexOf :: "'a list \<Rightarrow> 'a list \<Rightarrow> int" where
  "js_indexOf s pat = (case find_sub pat s of None \<Rightarrow> -1 | Some i \<Rightarrow> int i)"

text \<open>\<open>arr.indexOf(x)\<close> on an array: the index of the first equal element, or \<open>-1\<close>.\<close>

fun array_indexOf :: "'a list \<Rightarrow> 'a \<Rightarrow> int" where
  "array_indexOf [] x = -1"
| "array_indexOf (y # ys) x =
     (if y = x then 0 else let i = array_indexOf ys x in if i < 0 then -1 else i + 1)"

lemma starts_with_iff [simp]: "starts_with pat s \<longleftrightarrow> (\<exists>t. s = pat @ t)"
  by (auto simp: starts_with_def) (metis append_take_drop_id)

lemma find_sub_Some:
  "find_sub pat s = Some i \<Longrightarrow> i + length pat \<le> length s \<and> s = take i s @ pat @ drop (i + length pat) s"
proof (induction s arbitrary: i)
  case Nil
  then show ?case by (auto split: if_splits)
next
  case (Cons x xs)
  show ?case
  proof (cases "starts_with pat (x # xs)")
    case True
    with Cons.prems have "i = 0" by simp
    from True obtain t where "x # xs = pat @ t" by auto
    with \<open>i = 0\<close> show ?thesis by simp
  next
    case False
    with Cons.prems obtain j where j: "i = Suc j" "find_sub pat xs = Some j"
      by (auto simp del: starts_with_iff)
    with Cons.IH show ?thesis by fastforce
  qed
qed

lemma find_sub_None: "find_sub pat s = None \<longleftrightarrow> (\<forall>a b. s \<noteq> a @ pat @ b)"
proof (induction s)
  case Nil
  show ?case by auto
next
  case (Cons x xs)
  show ?case
  proof (cases "starts_with pat (x # xs)")
    case True
    then obtain t where "x # xs = [] @ pat @ t" by auto
    moreover from True have "find_sub pat (x # xs) \<noteq> None" by (simp del: starts_with_iff)
    ultimately show ?thesis by metis
  next
    case False
    then have "x # xs \<noteq> a @ pat @ b \<longleftrightarrow> (\<forall>a'. a = x # a' \<longrightarrow> xs \<noteq> a' @ pat @ b)" for a b
      by (cases a) auto
    moreover from False have "find_sub pat (x # xs) = None \<longleftrightarrow> find_sub pat xs = None"
      by (simp del: starts_with_iff)
    ultimately show ?thesis using Cons.IH by metis
  qed
qed

lemma js_indexOf_nonneg: "0 \<le> js_indexOf s pat \<longleftrightarrow> (\<exists>a b. s = a @ pat @ b)"
proof (cases "find_sub pat s")
  case None
  then have "\<not> (\<exists>a b. s = a @ pat @ b)" using find_sub_None [of pat s] by blast
  with None show ?thesis by (simp add: js_indexOf_def)
next
  case (Some i)
  then have "s = take i s @ pat @ drop (i + length pat) s" using find_sub_Some by blast
  then have "\<exists>a b. s = a @ pat @ b" by blast
  with Some show ?thesis by (simp add: js_indexOf_def)
qed

lemma js_indexOf_neg: "js_indexOf s pat < 0 \<longleftrightarrow> \<not> (\<exists>a b. s = a @ pat @ b)"
  unfolding js_indexOf_nonneg [symmetric] by linarith

lemma js_indexOf_ge_minus_one: "-1 \<le> js_indexOf s pat"
  by (simp add: js_indexOf_def split: option.split)

lemma js_indexOf_gt: "js_indexOf s pat > -1 \<longleftrightarrow> (\<exists>a b. s = a @ pat @ b)"
  unfolding js_indexOf_nonneg [symmetric] by linarith

lemma js_indexOf_char: "0 \<le> js_indexOf s [c] \<longleftrightarrow> c \<in> set s"
  by (auto simp: js_indexOf_nonneg in_set_conv_decomp)

lemma array_indexOf_neg: "array_indexOf xs x < 0 \<longleftrightarrow> x \<notin> set xs"
  by (induction xs) (auto simp: Let_def)

lemma array_indexOf_ge: "-1 \<le> array_indexOf xs x"
  by (induction xs) (auto simp: Let_def)

lemma array_indexOf_neq_minus_one: "array_indexOf xs x \<noteq> -1 \<longleftrightarrow> x \<in> set xs"
  using array_indexOf_ge [of xs x] array_indexOf_neg [of xs x] by linarith

lemma array_indexOf_nth:
  "x \<in> set xs \<Longrightarrow> nat (array_indexOf xs x) < length xs \<and> xs ! nat (array_indexOf xs x) = x"
proof (induction xs)
  case Nil
  then show ?case by simp
next
  case (Cons y ys)
  show ?case
  proof (cases "y = x")
    case True
    then show ?thesis by simp
  next
    case False
    with Cons have IH: "nat (array_indexOf ys x) < length ys" "ys ! nat (array_indexOf ys x) = x"
      by auto
    from False Cons.prems have "\<not> array_indexOf ys x < 0" by (simp add: array_indexOf_neg)
    then have "nat (array_indexOf ys x + 1) = Suc (nat (array_indexOf ys x))" by simp
    with False IH \<open>\<not> array_indexOf ys x < 0\<close> show ?thesis by (simp add: Let_def)
  qed
qed

section \<open>Cutting\<close>

text \<open>
  A relative index of \<open>slice\<close> and \<open>splice\<close>: a negative one counts from the end, and
  the result is clamped to the length.
\<close>

definition rel_index :: "nat \<Rightarrow> int \<Rightarrow> nat" where
  "rel_index n i = (if i < 0 then nat (max (int n + i) 0) else min (nat i) n)"

definition js_slice :: "'a list \<Rightarrow> int \<Rightarrow> int \<Rightarrow> 'a list" where
  "js_slice s from_i to_i =
     (let a = rel_index (length s) from_i; b = rel_index (length s) to_i
      in take (b - a) (drop a s))"

definition js_slice_from :: "'a list \<Rightarrow> int \<Rightarrow> 'a list" where
  "js_slice_from s from_i = drop (rel_index (length s) from_i) s"

text \<open>\<open>s.substring(a, b)\<close>: both ends clamped to \<open>0..length\<close>, swapped when out of order.\<close>

definition js_substring :: "'a list \<Rightarrow> int \<Rightarrow> int \<Rightarrow> 'a list" where
  "js_substring s a b =
     (let x = min (nat a) (length s); y = min (nat b) (length s)
      in take (max x y - min x y) (drop (min x y) s))"

text \<open>\<open>s.substr(a)\<close>: from a relative start to the end.\<close>

definition js_substr :: "'a list \<Rightarrow> int \<Rightarrow> 'a list" where
  "js_substr s a = drop (rel_index (length s) a) s"

text \<open>\<open>arr.splice(start, k)\<close>: the array after removing \<open>k\<close> elements at a relative start.\<close>

definition js_splice :: "'a list \<Rightarrow> int \<Rightarrow> nat \<Rightarrow> 'a list" where
  "js_splice xs start k =
     (let a = rel_index (length xs) start in take a xs @ drop (a + k) xs)"

text \<open>\<open>arr.splice(start, 0, x)\<close>: the array after inserting \<open>x\<close> at a relative start.\<close>

definition js_splice_insert :: "'a list \<Rightarrow> int \<Rightarrow> 'a \<Rightarrow> 'a list" where
  "js_splice_insert xs start x =
     (let a = rel_index (length xs) start in take a xs @ x # drop a xs)"

lemma rel_index_le: "rel_index n i \<le> n"
  by (auto simp: rel_index_def)

lemma rel_index_nat [simp]: "rel_index n (int k) = min k n"
  by (simp add: rel_index_def)

lemma rel_index_0 [simp]: "rel_index n 0 = 0"
  by (simp add: rel_index_def)

lemma rel_index_1 [simp]: "rel_index n 1 = min 1 n"
  by (simp add: rel_index_def)

lemma js_slice_prefix: "js_slice s 0 (int k) = take k s"
  by (simp add: js_slice_def Let_def min_def)

lemma js_slice_drop_last: "js_slice s 0 (int (length s) - 1) = butlast s"
proof (cases s)
  case Nil
  then show ?thesis by (simp add: js_slice_def)
next
  case (Cons x xs)
  then have "int (length s) - 1 = int (length xs)" by simp
  with Cons show ?thesis by (simp only: js_slice_prefix) (simp add: butlast_conv_take)
qed

lemma js_slice_minus_one: "js_slice s 0 (- 1) = butlast s"
  by (cases "s = []") (simp_all add: js_slice_def Let_def rel_index_def butlast_conv_take nat_minus_as_int)

lemma js_slice_tail: "js_slice s 1 (int k + 1) = take k (tl s)"
  by (cases s) (auto simp: js_slice_def rel_index_def Let_def nat_add_distrib min_def)

lemma js_slice_from_1: "js_slice_from s 1 = tl s"
  by (cases s) (auto simp: js_slice_from_def)

lemma length_js_splice_le: "length (js_splice xs i k) \<le> length xs"
  by (simp add: js_splice_def Let_def)

lemma set_js_splice: "set (js_splice xs i k) \<subseteq> set xs"
  by (auto simp: js_splice_def Let_def dest: in_set_takeD in_set_dropD)

lemma distinct_js_splice: "distinct xs \<Longrightarrow> distinct (js_splice xs i k)"
  unfolding js_splice_def Let_def
  by (auto simp: set_take_disj_set_drop_if_distinct)

section \<open>Splitting and joining\<close>

text \<open>\<open>s.split(c)\<close> for a one-character separator.\<close>

fun split_on :: "'a \<Rightarrow> 'a list \<Rightarrow> 'a list list" where
  "split_on c [] = [[]]"
| "split_on c (x # xs) =
     (if x = c then [] # split_on c xs
      else (case split_on c xs of [] \<Rightarrow> [[x]] | w # ws \<Rightarrow> (x # w) # ws))"

text \<open>\<open>arr.join(sep)\<close>.\<close>

fun join :: "'a list \<Rightarrow> 'a list list \<Rightarrow> 'a list" where
  "join sep [] = []"
| "join sep [x] = x"
| "join sep (x # y # zs) = x @ sep @ join sep (y # zs)"

lemma split_on_nonempty [simp]: "split_on c s \<noteq> []"
  by (induction s) (auto split: list.split)

lemma join_split_on: "join [c] (split_on c s) = s"
proof (induction s)
  case Nil
  show ?case by simp
next
  case (Cons x xs)
  obtain w ws where w: "split_on c xs = w # ws" by (cases "split_on c xs") auto
  with Cons.IH show ?case by (cases ws) auto
qed

lemma split_on_no_sep: "c \<notin> set s \<Longrightarrow> split_on c s = [s]"
  by (induction s) auto

lemma split_on_append_sep: "c \<notin> set s \<Longrightarrow> split_on c (s @ c # t) = s # split_on c t"
  by (induction s) auto

lemma split_on_join:
  "xs \<noteq> [] \<Longrightarrow> (\<And>x. x \<in> set xs \<Longrightarrow> c \<notin> set x) \<Longrightarrow> split_on c (join [c] xs) = xs"
  by (induction "[c]" xs rule: join.induct) (auto simp: split_on_no_sep split_on_append_sep)

lemma split_on_pieces: "w \<in> set (split_on c s) \<Longrightarrow> c \<notin> set w"
proof (induction s arbitrary: w)
  case Nil
  then show ?case by simp
next
  case (Cons x xs)
  obtain v vs where v: "split_on c xs = v # vs" by (cases "split_on c xs") auto
  with Cons show ?case by (auto split: if_splits)
qed

lemma join_snoc: "xs \<noteq> [] \<Longrightarrow> join sep (xs @ [x]) = join sep xs @ sep @ x"
  by (induction sep xs rule: join.induct) auto

lemma join_snoc_if: "join sep (xs @ [x]) = (if xs = [] then x else join sep xs @ sep @ x)"
  by (simp add: join_snoc)

lemma join_Cons: "xs \<noteq> [] \<Longrightarrow> join sep (x # xs) = x @ sep @ join sep xs"
  by (cases xs) auto

section \<open>Replacing\<close>

text \<open>\<open>s.replace(pat, rep)\<close> with a string pattern: the first occurrence only.\<close>

definition js_replace_first :: "'a list \<Rightarrow> 'a list \<Rightarrow> 'a list \<Rightarrow> 'a list" where
  "js_replace_first s pat rep =
     (case find_sub pat s of None \<Rightarrow> s
      | Some i \<Rightarrow> take i s @ rep @ drop (i + length pat) s)"

text \<open>\<open>s.replace(/c/g, r)\<close> for one character.\<close>

definition replace_char :: "'a \<Rightarrow> 'a \<Rightarrow> 'a list \<Rightarrow> 'a list" where
  "replace_char c r s = map (\<lambda>x. if x = c then r else x) s"

lemma js_replace_first_prefix: "js_replace_first (pat @ t) pat rep = rep @ t"
proof (cases "pat @ t")
  case Nil
  then show ?thesis by (simp add: js_replace_first_def)
next
  case (Cons x xs)
  then have "find_sub pat (x # xs) = Some 0" by (auto simp: eq_commute)
  with Cons show ?thesis by (simp add: js_replace_first_def) (metis append_eq_conv_conj)
qed

lemma find_sub_char: "c \<notin> set a \<Longrightarrow> find_sub [c] (a @ c # b) = Some (length a)"
  by (induction a) auto

lemma js_indexOf_char_at: "c \<notin> set a \<Longrightarrow> js_indexOf (a @ c # b) [c] = int (length a)"
  by (simp add: js_indexOf_def find_sub_char)

lemma js_replace_first_char: "c \<notin> set a \<Longrightarrow> js_replace_first (a @ c # b) [c] r = a @ r @ b"
  by (simp add: js_replace_first_def find_sub_char)

lemma js_replace_first_absent:
  "\<not> (\<exists>a b. s = a @ pat @ b) \<Longrightarrow> js_replace_first s pat rep = s"
  using find_sub_None [of pat s] by (auto simp: js_replace_first_def split: option.split)

lemma replace_char_gone: "c \<noteq> r \<Longrightarrow> c \<notin> set (replace_char c r s)"
  by (auto simp: replace_char_def)

lemma length_replace_char [simp]: "length (replace_char c r s) = length s"
  by (simp add: replace_char_def)

lemma set_replace_char: "set (replace_char c r s) \<subseteq> insert r (set s - {c})"
  by (auto simp: replace_char_def)

section \<open>Decimal digits\<close>

definition is_digit :: "char \<Rightarrow> bool" where
  "is_digit c \<longleftrightarrow> c \<in> set ''0123456789''"

definition digit_char :: "int \<Rightarrow> char" where
  "digit_char d = ''0123456789'' ! nat d"

definition digit_val :: "char \<Rightarrow> int" where
  "digit_val c = of_char c - 48"

text \<open>
  Decimal text of a non-negative integer, as \<open>String(n)\<close> prints one below \<open>2^53\<close>. The
  functions of this section work on \<open>int\<close>, whose numerals evaluate quickly.
\<close>

function dec_str :: "int \<Rightarrow> string" where
  "dec_str n = (if n < 10 then [digit_char n] else dec_str (n div 10) @ [digit_char (n mod 10)])"
  by pat_completeness auto
termination
  by (relation "measure nat") auto

declare dec_str.simps [simp del]

definition int_str :: "int \<Rightarrow> string" where
  "int_str i = (if i < 0 then ''-'' @ dec_str (- i) else dec_str i)"

text \<open>The number a run of decimal digits denotes.\<close>

definition digits_val :: "string \<Rightarrow> int" where
  "digits_val s = foldl (\<lambda>acc c. 10 * acc + digit_val c) 0 s"

definition all_digits :: "string \<Rightarrow> bool" where
  "all_digits s \<longleftrightarrow> (\<forall>c \<in> set s. is_digit c)"

lemma less_10_cases:
  fixes d :: int
  assumes "0 \<le> d" "d < 10"
  shows "d = 0 \<or> d = 1 \<or> d = 2 \<or> d = 3 \<or> d = 4 \<or> d = 5 \<or> d = 6 \<or> d = 7 \<or> d = 8 \<or> d = 9"
  using assms by arith

lemma digit_char_val [simp]: "0 \<le> d \<Longrightarrow> d < 10 \<Longrightarrow> digit_val (digit_char d) = d"
  by (drule (1) less_10_cases) (auto simp: digit_char_def digit_val_def)

lemma digit_char_digit [simp]: "0 \<le> d \<Longrightarrow> d < 10 \<Longrightarrow> is_digit (digit_char d)"
  by (drule (1) less_10_cases) (auto simp: digit_char_def is_digit_def)

lemma digit_val_char: "is_digit c \<Longrightarrow> digit_char (digit_val c) = c \<and> 0 \<le> digit_val c \<and> digit_val c < 10"
  by (auto simp: is_digit_def digit_char_def digit_val_def)

lemma digits_val_Nil [simp]: "digits_val [] = 0"
  by (simp add: digits_val_def)

lemma digits_val_snoc [simp]: "digits_val (s @ [c]) = 10 * digits_val s + digit_val c"
  by (simp add: digits_val_def)

lemma digits_val_append: "digits_val (s @ t) = digits_val s * 10 ^ length t + digits_val t"
proof (induction t rule: rev_induct)
  case Nil
  show ?case by simp
next
  case (snoc c t)
  have "digits_val (s @ t @ [c]) = 10 * digits_val (s @ t) + digit_val c"
    by (metis append_assoc digits_val_snoc)
  with snoc show ?case by (simp add: algebra_simps)
qed

lemma digits_val_zeros [simp]: "digits_val (replicate n CHR ''0'') = 0"
proof (induction n)
  case 0
  show ?case by simp
next
  case (Suc n)
  have "replicate (Suc n) CHR ''0'' = replicate n CHR ''0'' @ [CHR ''0'']"
    by (simp add: replicate_append_same)
  with Suc show ?case by (simp only: digits_val_snoc) (simp add: digit_val_def)
qed

lemma digits_val_bounds: "all_digits s \<Longrightarrow> 0 \<le> digits_val s \<and> digits_val s < 10 ^ length s"
proof (induction s rule: rev_induct)
  case Nil
  show ?case by simp
next
  case (snoc c s)
  then have "0 \<le> digits_val s" "digits_val s < 10 ^ length s" "0 \<le> digit_val c" "digit_val c < 10"
    by (auto simp: all_digits_def digit_val_char)
  then show ?case by simp
qed

lemma dec_str_digits: "0 \<le> n \<Longrightarrow> all_digits (dec_str n)"
proof (induction n rule: dec_str.induct)
  case (1 n)
  then show ?case by (cases "n < 10") (auto simp: dec_str.simps [of n] all_digits_def)
qed

lemma dec_str_nonempty [simp]: "dec_str n \<noteq> []"
  by (subst dec_str.simps) simp

lemma digits_val_dec_str [simp]: "0 \<le> n \<Longrightarrow> digits_val (dec_str n) = n"
proof (induction n rule: dec_str.induct)
  case (1 n)
  show ?case
  proof (cases "n < 10")
    case True
    with "1.prems" show ?thesis by (simp add: dec_str.simps [of n] digits_val_def)
  next
    case False
    with 1 show ?thesis by (simp add: dec_str.simps [of n])
  qed
qed

lemma dec_str_inject: "0 \<le> m \<Longrightarrow> 0 \<le> n \<Longrightarrow> dec_str m = dec_str n \<longleftrightarrow> m = n"
  by (metis digits_val_dec_str)

lemma all_digits_simps [simp]:
  "all_digits []"
  "all_digits (c # s) \<longleftrightarrow> is_digit c \<and> all_digits s"
  "all_digits (s @ t) \<longleftrightarrow> all_digits s \<and> all_digits t"
  by (auto simp: all_digits_def)

lemma all_digits_zeros [simp]: "all_digits (replicate n CHR ''0'')"
  by (auto simp: all_digits_def is_digit_def)

lemma all_digits_take_drop [simp]: "all_digits s \<Longrightarrow> all_digits (take n s)" "all_digits s \<Longrightarrow> all_digits (drop n s)"
  by (auto simp: all_digits_def dest: in_set_takeD in_set_dropD)

lemma dec_str_append_digit: "1 \<le> k \<Longrightarrow> 0 \<le> d \<Longrightarrow> d < 10 \<Longrightarrow> dec_str (10 * k + d) = dec_str k @ [digit_char d]"
  by (subst dec_str.simps) simp

section \<open>Arrays\<close>

text \<open>\<open>arr.indexOf\<close>-based removal, first occurrence.\<close>

lemma js_splice_indexOf:
  "x \<in> set xs \<Longrightarrow> js_splice xs (array_indexOf xs x) 1 = remove1 x xs"
proof (induction xs)
  case Nil
  then show ?case by simp
next
  case (Cons y ys)
  show ?case
  proof (cases "y = x")
    case True
    then show ?thesis by (simp add: js_splice_def)
  next
    case False
    with Cons.prems have "x \<in> set ys" by simp
    then have nn: "0 \<le> array_indexOf ys x" using array_indexOf_neg [of ys x] by linarith
    have "nat (array_indexOf ys x) < length ys"
      using array_indexOf_nth [OF \<open>x \<in> set ys\<close>] by blast
    then have "rel_index (Suc (length ys)) (array_indexOf ys x + 1)
        = Suc (rel_index (length ys) (array_indexOf ys x))"
      using nn by (auto simp: rel_index_def nat_add_distrib)
    with False nn Cons.IH [OF \<open>x \<in> set ys\<close>] show ?thesis
      by (simp add: js_splice_def Let_def)
  qed
qed

lemma filter_eq_remove1: "distinct xs \<Longrightarrow> filter (\<lambda>y. y \<noteq> x) xs = remove1 x xs"
  by (simp add: distinct_remove1_removeAll removeAll_filter_not_eq eq_commute)

lemma filter_no_sep: "x \<notin> set s \<Longrightarrow> filter (\<lambda>c. c \<noteq> x) s = s"
  by (rule filter_True) auto

lemma filter_at_most_one:
  assumes "distinct (map f xs)" "\<And>x y. x \<in> set xs \<Longrightarrow> y \<in> set xs \<Longrightarrow> P x \<Longrightarrow> P y \<Longrightarrow> f x = f y"
  shows "length (filter P xs) \<le> 1"
  using assms
proof (induction xs)
  case Nil
  then show ?case by simp
next
  case (Cons x xs)
  show ?case
  proof (cases "P x")
    case True
    have "\<not> P y" if "y \<in> set xs" for y
    proof
      assume "P y"
      with Cons.prems(2) [of x y] True that have "f x = f y" by simp
      with Cons.prems(1) that show False by (auto simp: image_iff)
    qed
    then have "filter P xs = []" by (simp add: filter_empty_conv)
    with True show ?thesis by simp
  next
    case False
    with Cons show ?thesis by simp
  qed
qed

text \<open>A letter of \<open>toLowerCase()\<close>, for ASCII.\<close>

definition lower :: "char \<Rightarrow> char" where
  "lower c = (let n = of_char c :: nat in if 65 \<le> n \<and> n \<le> 90 then char_of (n + 32) else c)"

end
