(* ===== verification/Js_Number.thy ===== *)
theory Js_Number
  imports Fs3_Prelude Complex_Main "HOL-Library.Log_Nat"
begin

text \<open>
  JavaScript numbers. A finite double is the rational it denotes; every arithmetic
  operation computes the exact rational result and rounds it to the nearest double,
  ties to even (\<open>rnd64\<close>: 53 bits of significand, exponents \<open>-1074..971\<close>), which is
  IEEE 754 binary64 arithmetic. The two zeros are one value here: no code modelled in this
  development tells them apart (it never divides by a negative zero).

  The conversions follow ECMA-262: \<open>num_str\<close> is \<open>Number::toString\<close> (shortest digits that
  round back), \<open>js_Number\<close> is \<open>StringToNumber\<close> on decimal literals, \<open>js_parseInt\<close> is
  \<open>parseInt\<close> with the default radix, \<open>to_fixed\<close> and \<open>to_precision\<close> are the two methods.
\<close>

section \<open>Doubles and rounding\<close>

datatype jsnum = Fin rat | PInf | NInf | NaN

definition pow2 :: "int \<Rightarrow> rat" where
  "pow2 e = (if 0 \<le> e then 2 ^ nat e else 1 / 2 ^ nat (- e))"

definition pow10 :: "int \<Rightarrow> rat" where
  "pow10 e = (if 0 \<le> e then 10 ^ nat e else 1 / 10 ^ nat (- e))"

definition round_half_even :: "rat \<Rightarrow> int" where
  "round_half_even x =
     (let f = \<lfloor>x\<rfloor>; d = x - of_int f
      in if d < 1 / 2 then f else if 1 / 2 < d then f + 1 else if even f then f else f + 1)"

text \<open>The exponent \<open>e\<close> with \<open>2^52 \<le> a / 2^e < 2^53\<close>, for a positive rational.\<close>

definition dbl_exp :: "rat \<Rightarrow> int" where
  "dbl_exp a =
     (let (n, d) = quotient_of a; e = bitlen n - bitlen d - 53
      in if a / pow2 e < 2 ^ 53 then e else e + 1)"

text \<open>The least power of two that overflows to infinity, \<open>2^1024\<close>.\<close>

definition dbl_overflow :: rat where
  "dbl_overflow = pow2 1024"

definition rnd64 :: "rat \<Rightarrow> jsnum" where
  "rnd64 x =
     (if x = 0 then Fin 0
      else let e = max (dbl_exp \<bar>x\<bar>) (- 1074);
               r = of_int (round_half_even (\<bar>x\<bar> / pow2 e)) * pow2 e
           in if dbl_overflow \<le> r then (if x < 0 then NInf else PInf)
              else Fin (if x < 0 then - r else r))"

lemma pow2_pos [simp]: "0 < pow2 e"
  by (simp add: pow2_def)

lemma pow2_nonzero [simp]: "pow2 e \<noteq> 0"
  using pow2_pos [of e] by linarith

lemma pow2_Suc: "pow2 (e + 1) = 2 * pow2 e"
proof (cases "0 \<le> e")
  case True
  then show ?thesis by (simp add: pow2_def nat_add_distrib)
next
  case False
  then have "nat (- e) = Suc (nat (- (e + 1)))" by simp
  with False show ?thesis by (auto simp: pow2_def)
qed

lemma pow2_add_nat: "pow2 (e + int k) = pow2 e * 2 ^ k"
proof (induction k)
  case (Suc k)
  have "e + int (Suc k) = (e + int k) + 1" by simp
  with Suc show ?case by (metis mult.left_commute pow2_Suc power_Suc)
qed simp

lemma pow2_add: "pow2 (a + b) = pow2 a * pow2 b"
proof (cases "0 \<le> b")
  case True
  then show ?thesis using pow2_add_nat [of a "nat b"] by (simp add: pow2_def)
next
  case False
  have "pow2 a = pow2 (a + b) * 2 ^ nat (- b)"
    using pow2_add_nat [of "a + b" "nat (- b)"] False by simp
  with False show ?thesis by (simp add: pow2_def)
qed

lemma round_half_even_of_int [simp]: "round_half_even (of_int i) = i"
  by (simp add: round_half_even_def)

lemma round_half_even_error: "\<bar>of_int (round_half_even x) - x\<bar> \<le> 1 / 2"
proof -
  have "of_int \<lfloor>x\<rfloor> \<le> x" "x < of_int \<lfloor>x\<rfloor> + 1" by linarith+
  then show ?thesis by (auto simp: round_half_even_def Let_def)
qed

lemma bitlen_of_rat_bounds:
  assumes "0 < n"
  shows "pow2 (bitlen n - 1) \<le> of_int n" "(of_int n :: rat) < pow2 (bitlen n)"
proof -
  from bitlen_bounds [OF assms] have b: "2 ^ nat (bitlen n - 1) \<le> n" "n < 2 ^ nat (bitlen n)"
    by auto
  from assms have "1 \<le> bitlen n" by (metis bitlen_nonneg bitlen_eq_zero_iff int_one_le_iff_zero_less linorder_not_less order_le_less)
  then have p: "pow2 (bitlen n - 1) = of_int (2 ^ nat (bitlen n - 1))"
    "pow2 (bitlen n) = of_int (2 ^ nat (bitlen n))" by (simp_all add: pow2_def)
  show "pow2 (bitlen n - 1) \<le> of_int n" unfolding p(1) using b(1) by (simp only: of_int_le_iff)
  show "(of_int n :: rat) < pow2 (bitlen n)" unfolding p(2) using b(2) by (simp only: of_int_less_iff)
qed

text \<open>The exponent found puts the significand in \<open>[2^52, 2^53)\<close>.\<close>

lemma dbl_exp_bounds:
  assumes "0 < a"
  shows "2 ^ 52 \<le> a / pow2 (dbl_exp a) \<and> a / pow2 (dbl_exp a) < 2 ^ 53"
proof -
  obtain n d where q: "quotient_of a = (n, d)" by fastforce
  then have d: "0 < d" and a: "a = of_int n / of_int d"
    by (auto simp: quotient_of_denom_pos quotient_of_div)
  with assms have n: "0 < n" by (simp add: zero_less_divide_iff)
  define e where "e = bitlen n - bitlen d - 53"
  have lo: "pow2 (bitlen n - 1) / pow2 (bitlen d) \<le> a"
    unfolding a using bitlen_of_rat_bounds [OF n] bitlen_of_rat_bounds [OF d] d
    using n by (intro frac_le) (auto simp: less_imp_le)
  have hi: "a < pow2 (bitlen n) / pow2 (bitlen d - 1)"
  proof -
    have "a < pow2 (bitlen n) / of_int d"
      unfolding a using bitlen_of_rat_bounds(2) [OF n] d by (simp add: divide_strict_right_mono)
    also have "\<dots> \<le> pow2 (bitlen n) / pow2 (bitlen d - 1)"
      using bitlen_of_rat_bounds(1) [OF d] by (intro frac_le) (auto simp: less_imp_le)
    finally show ?thesis .
  qed
  have s1: "pow2 (bitlen n - 1) = 2 ^ 52 * pow2 e * pow2 (bitlen d)"
    using pow2_add [of "52 + e" "bitlen d"] pow2_add [of 52 e] by (simp add: e_def pow2_def [of 52] algebra_simps)
  have s2: "pow2 (bitlen n) = 2 ^ 54 * pow2 e * pow2 (bitlen d - 1)"
    using pow2_add [of "54 + e" "bitlen d - 1"] pow2_add [of 54 e] by (simp add: e_def pow2_def [of 54] algebra_simps)
  from lo s1 have lo': "2 ^ 52 \<le> a / pow2 e" by (simp add: field_simps)
  from hi s2 have hi': "a / pow2 e < 2 ^ 54" by (simp add: field_simps)
  have "dbl_exp a = (if a / pow2 e < 2 ^ 53 then e else e + 1)"
    by (simp add: dbl_exp_def q e_def)
  then show ?thesis using lo' hi' pow2_Suc [of e]
    by (cases "a / pow2 e < 2 ^ 53") (simp_all add: field_simps)
qed

text \<open>Integers up to \<open>2^53\<close> in absolute value are doubles.\<close>

lemma rnd64_grid:
  assumes "x \<noteq> 0" and "e = max (dbl_exp \<bar>x\<bar>) (- 1074)" and "\<bar>x\<bar> = of_int k * pow2 e"
    and "\<bar>x\<bar> < dbl_overflow"
  shows "rnd64 x = Fin x"
proof -
  from assms(3) have "\<bar>x\<bar> / pow2 e = of_int k" by (simp add: field_simps)
  then have "of_int (round_half_even (\<bar>x\<bar> / pow2 e)) * pow2 e = \<bar>x\<bar>"
    using assms(3) by simp
  then show ?thesis using assms(1,2,4) unfolding rnd64_def Let_def
    by (cases "x < 0") (simp_all del: abs_of_neg abs_of_nonneg abs_of_pos, simp_all)
qed

lemma dbl_overflow_gt: "(2::rat) ^ 53 < dbl_overflow"
proof -
  have "dbl_overflow = 2 ^ 53 * pow2 971"
    using pow2_add [of 53 971] by (simp add: dbl_overflow_def pow2_def [of 53])
  moreover have "1 < pow2 971" using pow2_add [of 1 970] pow2_add_nat [of 0 970]
    by (simp add: pow2_def one_less_power)
  ultimately show ?thesis by simp
qed

lemma rnd64_of_int:
  assumes "\<bar>i\<bar> < 2 ^ 53"
  shows "rnd64 (of_int i) = Fin (of_int i)"
proof (cases "i = 0")
  case True
  then show ?thesis by (simp add: rnd64_def)
next
  case False
  let ?a = "\<bar>of_int i :: rat\<bar>"
  have pos: "0 < ?a" using False by simp
  have lt: "?a < 2 ^ 53" using assms by (metis of_int_abs of_int_less_iff of_int_numeral of_int_power)
  define e where "e = max (dbl_exp ?a) (- 1074)"
  have "dbl_exp ?a \<le> 0"
  proof (rule ccontr)
    assume "\<not> dbl_exp ?a \<le> 0"
    then have "2 \<le> pow2 (dbl_exp ?a)"
      using pow2_add_nat [of 1 "nat (dbl_exp ?a - 1)"] by (simp add: pow2_def [of 1])
    moreover have "2 ^ 52 * pow2 (dbl_exp ?a) \<le> ?a"
      using dbl_exp_bounds [OF pos] by (simp add: field_simps)
    ultimately show False using lt by simp
  qed
  then have "e \<le> 0" by (simp add: e_def)
  then have "?a = of_int (\<bar>i\<bar> * 2 ^ nat (- e)) * pow2 e" by (simp add: pow2_def)
  moreover have "?a < dbl_overflow" using lt dbl_overflow_gt by (rule less_trans)
  moreover have "(of_int i :: rat) \<noteq> 0" using False by simp
  ultimately show ?thesis using e_def by (intro rnd64_grid)
qed

lemma rnd64_of_nat: "n < 2 ^ 53 \<Longrightarrow> rnd64 (of_nat n) = Fin (of_nat n)"
  using rnd64_of_int [of "int n"]
  by (metis abs_of_nat of_int_of_nat_eq of_nat_less_iff of_nat_numeral of_nat_power)

lemma rnd64_0 [simp]: "rnd64 0 = Fin 0"
  by (simp add: rnd64_def)

lemma rnd64_numeral [simp]: "numeral k < (2 ^ 53 :: int) \<Longrightarrow> rnd64 (numeral k) = Fin (numeral k)"
  by (metis abs_numeral of_int_numeral rnd64_of_int)

lemma rnd64_1 [simp]: "rnd64 1 = Fin 1"
proof -
  have "\<bar>1 :: int\<bar> < 2 ^ 53" by simp
  from rnd64_of_int [OF this] show ?thesis by (simp only: of_int_1)
qed

text \<open>Rounding is within half a unit in the last place (away from the subnormal range).\<close>

lemma rnd64_error:
  assumes "rnd64 x = Fin r" and "- 1074 \<le> dbl_exp \<bar>x\<bar>" and "x \<noteq> 0"
  shows "\<bar>r - x\<bar> \<le> \<bar>x\<bar> / 2 ^ 53"
proof -
  let ?a = "\<bar>x\<bar>" and ?p = "pow2 (dbl_exp \<bar>x\<bar>)"
  have pos: "0 < ?a" using assms(3) by simp
  have r: "r = (if x < 0 then - 1 else 1) * (of_int (round_half_even (?a / ?p)) * ?p)"
    using assms by (auto simp: rnd64_def Let_def max_def split: if_splits)
  have "of_int (round_half_even (?a / ?p)) * ?p - ?a
      = (of_int (round_half_even (?a / ?p)) - ?a / ?p) * ?p"
    by (simp add: left_diff_distrib)
  then have "\<bar>of_int (round_half_even (?a / ?p)) * ?p - ?a\<bar>
      = \<bar>of_int (round_half_even (?a / ?p)) - ?a / ?p\<bar> * ?p"
    by (simp only: abs_mult abs_of_pos [OF pow2_pos])
  also have "\<dots> \<le> 1 / 2 * ?p" by (intro mult_right_mono round_half_even_error) (simp add: less_imp_le)
  finally have "\<bar>of_int (round_half_even (?a / ?p)) * ?p - ?a\<bar> \<le> ?p / 2" by simp
  moreover have "?p / 2 \<le> ?a / 2 ^ 53" using dbl_exp_bounds [OF pos] by (simp add: field_simps)
  moreover have "\<bar>r - x\<bar> = \<bar>of_int (round_half_even (?a / ?p)) * ?p - ?a\<bar>"
    unfolding r by (cases "x < 0") auto
  ultimately show ?thesis by linarith
qed

section \<open>Arithmetic and comparison\<close>

definition num_of_int :: "int \<Rightarrow> jsnum" where
  "num_of_int i = rnd64 (of_int i)"

abbreviation num_of_nat :: "nat \<Rightarrow> jsnum" where
  "num_of_nat n \<equiv> num_of_int (int n)"

fun num_neg :: "jsnum \<Rightarrow> jsnum" where
  "num_neg (Fin a) = Fin (- a)"
| "num_neg PInf = NInf"
| "num_neg NInf = PInf"
| "num_neg NaN = NaN"

fun num_add :: "jsnum \<Rightarrow> jsnum \<Rightarrow> jsnum" where
  "num_add (Fin a) (Fin b) = rnd64 (a + b)"
| "num_add NaN _ = NaN"
| "num_add _ NaN = NaN"
| "num_add PInf NInf = NaN"
| "num_add NInf PInf = NaN"
| "num_add PInf _ = PInf"
| "num_add NInf _ = NInf"
| "num_add _ PInf = PInf"
| "num_add _ NInf = NInf"

definition num_sub :: "jsnum \<Rightarrow> jsnum \<Rightarrow> jsnum" where
  "num_sub a b = num_add a (num_neg b)"

definition inf_of_sign :: "bool \<Rightarrow> jsnum" where
  "inf_of_sign neg = (if neg then NInf else PInf)"

fun num_mul :: "jsnum \<Rightarrow> jsnum \<Rightarrow> jsnum" where
  "num_mul (Fin a) (Fin b) = rnd64 (a * b)"
| "num_mul NaN _ = NaN"
| "num_mul _ NaN = NaN"
| "num_mul (Fin a) PInf = (if a = 0 then NaN else inf_of_sign (a < 0))"
| "num_mul (Fin a) NInf = (if a = 0 then NaN else inf_of_sign (0 < a))"
| "num_mul PInf (Fin b) = (if b = 0 then NaN else inf_of_sign (b < 0))"
| "num_mul NInf (Fin b) = (if b = 0 then NaN else inf_of_sign (0 < b))"
| "num_mul PInf PInf = PInf"
| "num_mul NInf NInf = PInf"
| "num_mul PInf NInf = NInf"
| "num_mul NInf PInf = NInf"

text \<open>Division; a zero divisor is a positive zero.\<close>

fun num_div :: "jsnum \<Rightarrow> jsnum \<Rightarrow> jsnum" where
  "num_div (Fin a) (Fin b) =
     (if b = 0 then (if a = 0 then NaN else inf_of_sign (a < 0)) else rnd64 (a / b))"
| "num_div NaN _ = NaN"
| "num_div _ NaN = NaN"
| "num_div (Fin a) PInf = Fin 0"
| "num_div (Fin a) NInf = Fin 0"
| "num_div PInf (Fin b) = inf_of_sign (b < 0)"
| "num_div NInf (Fin b) = inf_of_sign (0 \<le> b)"
| "num_div PInf _ = NaN"
| "num_div NInf _ = NaN"

text \<open>The relational operators: false whenever an operand is \<open>NaN\<close>.\<close>

fun num_less :: "jsnum \<Rightarrow> jsnum \<Rightarrow> bool" where
  "num_less (Fin a) (Fin b) = (a < b)"
| "num_less NaN _ = False"
| "num_less _ NaN = False"
| "num_less _ NInf = False"
| "num_less NInf _ = True"
| "num_less PInf _ = False"
| "num_less _ PInf = True"

fun num_eq :: "jsnum \<Rightarrow> jsnum \<Rightarrow> bool" where
  "num_eq NaN _ = False"
| "num_eq _ NaN = False"
| "num_eq a b = (a = b)"

definition num_le :: "jsnum \<Rightarrow> jsnum \<Rightarrow> bool" where
  "num_le a b \<longleftrightarrow> num_less a b \<or> num_eq a b"

text \<open>A number in a boolean context: zero and \<open>NaN\<close> are falsy.\<close>

definition num_truthy :: "jsnum \<Rightarrow> bool" where
  "num_truthy x \<longleftrightarrow> x \<noteq> NaN \<and> x \<noteq> Fin 0"

fun math_floor :: "jsnum \<Rightarrow> jsnum" where
  "math_floor (Fin a) = Fin (of_int \<lfloor>a\<rfloor>)"
| "math_floor x = x"

fun math_ceil :: "jsnum \<Rightarrow> jsnum" where
  "math_ceil (Fin a) = Fin (of_int \<lceil>a\<rceil>)"
| "math_ceil x = x"

text \<open>\<open>Math.round\<close>: nearest integer, ties towards plus infinity.\<close>

fun math_round :: "jsnum \<Rightarrow> jsnum" where
  "math_round (Fin a) = Fin (of_int \<lfloor>a + 1 / 2\<rfloor>)"
| "math_round x = x"

text \<open>\<open>~~x\<close>: truncation to a signed 32-bit integer (\<open>NaN\<close> and the infinities give 0).\<close>

definition to_int32 :: "jsnum \<Rightarrow> int" where
  "to_int32 x =
     (case x of
        Fin a \<Rightarrow> (let t = (if a < 0 then - \<lfloor>- a\<rfloor> else \<lfloor>a\<rfloor>); m = t mod 2 ^ 32
                  in if 2 ^ 31 \<le> m then m - 2 ^ 32 else m)
      | _ \<Rightarrow> 0)"

section \<open>Printing\<close>

text \<open>The \<open>n\<close> with \<open>10^(n-1) \<le> x < 10^n\<close>, for a positive rational.\<close>

definition dec_exp :: "rat \<Rightarrow> int" where
  "dec_exp x =
     (if 1 \<le> x then int (length (dec_str \<lfloor>x\<rfloor>))
      else let l = int (length (dec_str \<lfloor>1 / x\<rfloor>))
           in if x = pow10 (1 - l) then 2 - l else 1 - l)"

text \<open>
  The shortest decimal digits that round back to the double \<open>x\<close>: for \<open>k\<close> digits the two
  integers around \<open>x / 10^(n-k)\<close> are tried, the nearer one first; 17 digits always suffice.
  The result \<open>(s, k, n)\<close> denotes \<open>s * 10^(n-k)\<close> with \<open>10^(k-1) \<le> s < 10^k\<close>.
\<close>

definition digits_candidate :: "rat \<Rightarrow> int \<Rightarrow> nat \<Rightarrow> int option" where
  "digits_candidate x n k =
     (let u = pow10 (n - int k); f = \<lfloor>x / u\<rfloor>;
          near = (if x / u - of_int f \<le> 1 / 2 then f else f + 1);
          far = (if near = f then f + 1 else f)
      in if rnd64 (of_int near * u) = Fin x then Some near
         else if rnd64 (of_int far * u) = Fin x then Some far else None)"

fun shortest_digits :: "rat \<Rightarrow> int \<Rightarrow> nat list \<Rightarrow> int \<times> nat \<times> int" where
  "shortest_digits x n [] = (\<lfloor>x / pow10 (n - 17)\<rfloor>, 17, n)"
| "shortest_digits x n (k # ks) =
     (case digits_candidate x n k of
        Some s \<Rightarrow> (if s = 10 ^ k then (10 ^ (k - 1), k, n + 1) else (s, k, n))
      | None \<Rightarrow> shortest_digits x n ks)"

definition exp_suffix :: "int \<Rightarrow> string" where
  "exp_suffix e = ''e'' @ (if e < 0 then ''-'' else ''+'') @ dec_str \<bar>e\<bar>"

definition pos_str :: "rat \<Rightarrow> string" where
  "pos_str x =
     (if x < 2 ^ 53 \<and> of_int \<lfloor>x\<rfloor> = x then dec_str \<lfloor>x\<rfloor>
      else let (s, k, n) = shortest_digits x (dec_exp x) [1..<18]; ds = dec_str s
           in if int k \<le> n \<and> n \<le> 21 then ds @ replicate (nat (n - int k)) CHR ''0''
              else if 0 < n \<and> n \<le> 21 then take (nat n) ds @ ''.'' @ drop (nat n) ds
              else if - 6 < n \<and> n \<le> 0 then ''0.'' @ replicate (nat (- n)) CHR ''0'' @ ds
              else if k = 1 then ds @ exp_suffix (n - 1)
              else take 1 ds @ ''.'' @ drop 1 ds @ exp_suffix (n - 1))"

fun num_str :: "jsnum \<Rightarrow> string" where
  "num_str NaN = ''NaN''"
| "num_str PInf = ''Infinity''"
| "num_str NInf = ''-Infinity''"
| "num_str (Fin x) = (if x < 0 then ''-'' @ pos_str (- x) else pos_str x)"

text \<open>\<open>x.toFixed(f)\<close>: the nearest multiple of \<open>10^-f\<close>, the larger one on a tie.\<close>

definition fixed_digits :: "nat \<Rightarrow> int \<Rightarrow> string" where
  "fixed_digits f n =
     (let ds = dec_str n
      in if f = 0 then ds
         else let k = length ds;
                  zs = (if k \<le> f then replicate (f + 1 - k) CHR ''0'' @ ds else ds);
                  j = length zs - f
              in take j zs @ ''.'' @ drop j zs)"

fun to_fixed :: "jsnum \<Rightarrow> nat \<Rightarrow> string" where
  "to_fixed (Fin x) f =
     (if 10 ^ 21 \<le> \<bar>x\<bar> then num_str (Fin x)
      else if x < 0 then ''-'' @ fixed_digits f \<lfloor>- x * 10 ^ f + 1 / 2\<rfloor>
      else fixed_digits f \<lfloor>x * 10 ^ f + 1 / 2\<rfloor>)"
| "to_fixed x f = num_str x"

text \<open>\<open>x.toPrecision(p)\<close> for \<open>p \<ge> 1\<close>.\<close>

definition pos_precision :: "rat \<Rightarrow> nat \<Rightarrow> string" where
  "pos_precision x p =
     (let e0 = dec_exp x - 1;
          n0 = \<lfloor>x / pow10 (e0 - int p + 1) + 1 / 2\<rfloor>;
          (e, n) = (if n0 = 10 ^ p then (e0 + 1, 10 ^ (p - 1)) else (e0, n0));
          ds = dec_str n
      in if e < - 6 \<or> int p \<le> e
         then (if p = 1 then ds else take 1 ds @ ''.'' @ drop 1 ds) @ exp_suffix e
         else if e = int p - 1 then ds
         else if 0 \<le> e then take (nat (e + 1)) ds @ ''.'' @ drop (nat (e + 1)) ds
         else ''0.'' @ replicate (nat (- (e + 1))) CHR ''0'' @ ds)"

fun to_precision :: "jsnum \<Rightarrow> nat \<Rightarrow> string" where
  "to_precision (Fin x) p =
     (if x = 0 then (if p = 1 then ''0'' else ''0.'' @ replicate (p - 1) CHR ''0'')
      else if x < 0 then ''-'' @ pos_precision (- x) p
      else pos_precision x p)"
| "to_precision x p = num_str x"

section \<open>Parsing\<close>

definition is_space :: "char \<Rightarrow> bool" where
  "is_space c \<longleftrightarrow> c \<in> {CHR '' '', CHR 0x09, CHR 0x0A, CHR 0x0B, CHR 0x0C, CHR 0x0D, CHR 0xA0}"

definition js_trim :: "string \<Rightarrow> string" where
  "js_trim s = rev (dropWhile is_space (rev (dropWhile is_space s)))"

text \<open>An unsigned decimal literal \<open>digits [. digits] [e [sign] digits]\<close> as its exact value.\<close>

definition parse_exponent :: "string \<Rightarrow> int option" where
  "parse_exponent s =
     (case s of
        [] \<Rightarrow> Some 0
      | c # t \<Rightarrow>
          if c \<noteq> CHR ''e'' \<and> c \<noteq> CHR ''E'' then None
          else (case t of
                  [] \<Rightarrow> None
                | d # u \<Rightarrow>
                    let neg = (d = CHR ''-'');
                        ds = (if d = CHR ''-'' \<or> d = CHR ''+'' then u else t)
                    in if ds \<noteq> [] \<and> all_digits ds
                       then Some (if neg then - digits_val ds else digits_val ds)
                       else None))"

definition parse_decimal :: "string \<Rightarrow> rat option" where
  "parse_decimal s =
     (let ip = takeWhile is_digit s; r = dropWhile is_digit s;
          dot = (r \<noteq> [] \<and> hd r = CHR ''.'');
          fp = (if dot then takeWhile is_digit (tl r) else []);
          rest = (if dot then dropWhile is_digit (tl r) else r)
      in if ip = [] \<and> fp = [] then None
         else map_option (\<lambda>e. of_int (digits_val (ip @ fp)) * pow10 (e - int (length fp)))
                (parse_exponent rest))"

definition hex_digits :: string where
  "hex_digits = ''0123456789abcdef''"

definition hex_val :: "char \<Rightarrow> int option" where
  "hex_val c =
     (let i = array_indexOf hex_digits c; j = array_indexOf ''0123456789ABCDEF'' c
      in if 0 \<le> i then Some i else if 0 \<le> j then Some j else None)"

fun radix_val :: "int \<Rightarrow> int \<Rightarrow> string \<Rightarrow> int option" where
  "radix_val b acc [] = Some acc"
| "radix_val b acc (c # cs) =
     (case hex_val c of None \<Rightarrow> None
      | Some d \<Rightarrow> if d < b then radix_val b (b * acc + d) cs else None)"

definition parse_radix :: "string \<Rightarrow> int option" where
  "parse_radix s =
     (case s of
        z # x # d # ds \<Rightarrow>
          if z \<noteq> CHR ''0'' then None
          else if x = CHR ''x'' \<or> x = CHR ''X'' then radix_val 16 0 (d # ds)
          else if x = CHR ''o'' \<or> x = CHR ''O'' then radix_val 8 0 (d # ds)
          else if x = CHR ''b'' \<or> x = CHR ''B'' then radix_val 2 0 (d # ds)
          else None
      | _ \<Rightarrow> None)"

definition js_Number :: "string \<Rightarrow> jsnum" where
  "js_Number str =
     (let s = js_trim str
      in case s of
           [] \<Rightarrow> Fin 0
         | c # t \<Rightarrow>
             (case parse_radix s of
                Some n \<Rightarrow> rnd64 (of_int n)
              | None \<Rightarrow>
                  (let neg = (c = CHR ''-'');
                       body = (if c = CHR ''-'' \<or> c = CHR ''+'' then t else s)
                   in if body = ''Infinity'' then inf_of_sign neg
                      else (case parse_decimal body of
                              None \<Rightarrow> NaN
                            | Some v \<Rightarrow> rnd64 (if neg then - v else v)))))"

text \<open>\<open>parseInt(s)\<close>: an optional sign, then the longest run of digits (hex after \<open>0x\<close>).\<close>

definition js_parseInt :: "string \<Rightarrow> jsnum" where
  "js_parseInt str =
     (let s = dropWhile is_space str;
          neg = (s \<noteq> [] \<and> hd s = CHR ''-'');
          t = (if s \<noteq> [] \<and> (hd s = CHR ''-'' \<or> hd s = CHR ''+'') then tl s else s);
          hex = (take 2 t = ''0x'' \<or> take 2 t = ''0X'');
          ds = (if hex then takeWhile (\<lambda>c. hex_val c \<noteq> None) (drop 2 t) else takeWhile is_digit t);
          v = (if hex then radix_val 16 0 ds else Some (digits_val ds))
      in if ds = [] then NaN
         else case v of None \<Rightarrow> NaN
              | Some n \<Rightarrow> rnd64 (of_int (if neg then - n else n)))"

text \<open>\<open>parseInt(x)\<close> on a number goes through its decimal text.\<close>

definition js_parseInt_num :: "jsnum \<Rightarrow> jsnum" where
  "js_parseInt_num x = js_parseInt (num_str x)"

section \<open>Facts about integers\<close>

lemma num_of_int_small: "\<bar>i\<bar> < 2 ^ 53 \<Longrightarrow> num_of_int i = Fin (of_int i)"
  by (simp only: num_of_int_def rnd64_of_int)

lemma num_of_int_numeral [simp]: "numeral k < (2 ^ 53 :: int) \<Longrightarrow> num_of_int (numeral k) = Fin (numeral k)"
  by (simp only: num_of_int_def of_int_numeral rnd64_numeral)

lemma num_of_int_0 [simp]: "num_of_int 0 = Fin 0"
  by (simp add: num_of_int_def)

lemma num_of_int_1 [simp]: "num_of_int 1 = Fin 1"
  by (simp only: num_of_int_def of_int_1 rnd64_1)

lemma num_sub_ints:
  "\<bar>i - j\<bar> < 2 ^ 53 \<Longrightarrow> num_sub (Fin (of_int i)) (Fin (of_int j)) = Fin (of_int (i - j))"
  using rnd64_of_int [of "i - j"] by (simp add: num_sub_def)

lemma num_mul_ints:
  "\<bar>i * j\<bar> < 2 ^ 53 \<Longrightarrow> num_mul (Fin (of_int i)) (Fin (of_int j)) = Fin (of_int (i * j))"
  by (simp only: num_mul.simps rnd64_of_int flip: of_int_mult)

lemma num_div_exact:
  assumes "b \<noteq> 0" "\<bar>i\<bar> < 2 ^ 53"
  shows "num_div (Fin (of_int (i * b))) (Fin (of_int b)) = Fin (of_int i)"
proof -
  have "(of_int (i * b) :: rat) / of_int b = of_int i" using assms(1) by simp
  with assms show ?thesis by (simp only: num_div.simps rnd64_of_int of_int_eq_0_iff if_False)
qed

text \<open>Rounding a quotient of integers never crosses an integer.\<close>

lemma dbl_exp_of_ratio:
  assumes "1 / 2 ^ 53 \<le> x"
  shows "- 1074 \<le> dbl_exp x"
proof (rule ccontr)
  assume neg: "\<not> - 1074 \<le> dbl_exp x"
  have pos: "0 < x" using assms by (rule less_le_trans [rotated]) simp
  have "x < 2 ^ 53 * pow2 (dbl_exp x)" using dbl_exp_bounds [OF pos] by (simp add: field_simps)
  also have "pow2 (dbl_exp x) \<le> 1 / 2 ^ 106"
  proof -
    have "dbl_exp x + int (nat (- dbl_exp x - 106)) = - 106" using neg by simp
    then have "pow2 (dbl_exp x) * 2 ^ nat (- dbl_exp x - 106) = pow2 (- 106)"
      using pow2_add_nat [of "dbl_exp x" "nat (- dbl_exp x - 106)"] by simp
    moreover have "(1 :: rat) \<le> 2 ^ nat (- dbl_exp x - 106)" by simp
    ultimately have "pow2 (dbl_exp x) \<le> pow2 (- 106)"
      using mult_left_mono [of 1 "2 ^ nat (- dbl_exp x - 106)" "pow2 (dbl_exp x)"] by (simp add: less_imp_le)
    then show ?thesis by (simp add: pow2_def)
  qed
  finally have "x < 2 ^ 53 * (1 / 2 ^ 106)" by simp
  then show False using assms by simp
qed

lemma rnd64_small_finite:
  assumes "0 < x" "x < 2 ^ 53"
  shows "\<exists>r. rnd64 x = Fin r"
proof -
  define e where "e = max (dbl_exp x) (- 1074)"
  let ?r = "of_int (round_half_even (x / pow2 e)) * pow2 e"
  have "pow2 e \<le> 1 \<or> pow2 e = pow2 (dbl_exp x)" by (auto simp: e_def max_def pow2_def)
  moreover have "2 ^ 52 * pow2 (dbl_exp x) \<le> x" using dbl_exp_bounds [OF assms(1)] by (simp add: field_simps)
  ultimately have e1: "pow2 e \<le> 2" using assms by auto
  have "?r \<le> (x / pow2 e + 1 / 2) * pow2 e"
  proof (rule mult_right_mono)
    show "of_int (round_half_even (x / pow2 e)) \<le> x / pow2 e + 1 / 2"
      using round_half_even_error [of "x / pow2 e"] by linarith
  qed (simp add: less_imp_le)
  also have "\<dots> = x + pow2 e / 2" by (simp add: distrib_right)
  finally have "?r \<le> 2 ^ 53 + 1" using assms e1 by simp
  moreover have "(2 :: rat) ^ 53 + 1 < dbl_overflow"
  proof -
    have "dbl_overflow = 2 ^ 54 * pow2 970"
      using pow2_add [of 54 970] by (simp add: dbl_overflow_def pow2_def [of 54])
    moreover have "1 < pow2 970" by (simp add: pow2_def one_less_power)
    ultimately show ?thesis by simp
  qed
  ultimately have "\<not> dbl_overflow \<le> ?r" by simp
  with assms show ?thesis by (simp add: rnd64_def Let_def e_def)
qed

lemma rnd64_div_inexact:
  fixes k m :: int
  assumes "0 \<le> k" "k < 2 ^ 53" "0 < m" "m < 2 ^ 53" "k mod m \<noteq> 0"
  shows "\<exists>r. rnd64 (of_int k / of_int m) = Fin r \<and> of_int (k div m) < r \<and> r < of_int (k div m) + 1"
proof -
  define x :: rat where "x = of_int k / of_int m"
  define q where "q = k div m"
  have kq: "k = q * m + k mod m" "1 \<le> k mod m" "k mod m \<le> m - 1"
    using assms pos_mod_bound [of m k] pos_mod_sign [of m k]
    by (simp_all add: q_def int_one_le_iff_zero_less order_less_le)
  have m0: "(0 :: rat) < of_int m" using assms by simp
  have lo: "of_int q + 1 / of_int m \<le> x"
  proof -
    have "q * m + 1 \<le> k" using kq by linarith
    then have "(of_int q * of_int m + 1 :: rat) \<le> of_int k" by (metis of_int_1 of_int_add of_int_le_iff of_int_mult)
    then have "(of_int q * of_int m + 1) / of_int m \<le> x"
      unfolding x_def using m0 by (intro divide_right_mono) auto
    then show ?thesis using m0 by (simp add: add_divide_distrib)
  qed
  have hi: "x + 1 / of_int m \<le> of_int q + 1"
  proof -
    have "k + 1 \<le> q * m + m" using kq by linarith
    then have "(of_int k + 1 :: rat) \<le> of_int q * of_int m + of_int m" by (metis of_int_1 of_int_add of_int_le_iff of_int_mult)
    then have "(of_int k + 1) / of_int m \<le> (of_int q * of_int m + of_int m) / (of_int m :: rat)"
      using m0 by (intro divide_right_mono) auto
    then show ?thesis using m0 by (simp add: x_def add_divide_distrib)
  qed
  have q0: "0 \<le> q" using assms by (simp add: q_def pos_imp_zdiv_nonneg_iff)
  have inv_m: "1 / 2 ^ 53 \<le> 1 / (of_int m :: rat)"
    using assms m0 by (simp add: frac_le)
  have xpos: "1 / 2 ^ 53 \<le> x" "0 < x"
  proof -
    have q1: "(0 :: rat) \<le> of_int q" using q0 by simp
    show x1: "1 / 2 ^ 53 \<le> x" using lo q1 inv_m by linarith
    have "(0 :: rat) < 1 / 2 ^ 53" by simp
    then show "0 < x" using x1 by (rule less_le_trans)
  qed
  have xk: "x * of_int m = of_int k" using m0 by (simp add: x_def)
  have xlt: "x < 2 ^ 53"
  proof -
    have "x \<le> of_int k" using m0 assms(1,3) by (simp add: x_def divide_le_eq mult_le_cancel_left1)
    also have "\<dots> < 2 ^ 53" using assms(2) by (metis of_int_less_iff of_int_numeral of_int_power)
    finally show ?thesis .
  qed
  obtain r where r: "rnd64 x = Fin r" using rnd64_small_finite [OF xpos(2) xlt] by blast
  have "\<bar>r - x\<bar> \<le> x / 2 ^ 53"
    using rnd64_error [OF r] dbl_exp_of_ratio [OF xpos(1)] xpos(2) by simp
  also have "x / 2 ^ 53 < 1 / of_int m"
  proof -
    have "(of_int k :: rat) < 2 ^ 53" using assms(2) by (metis of_int_less_iff of_int_numeral of_int_power)
    with xk m0 show ?thesis by (simp add: field_simps)
  qed
  finally have "\<bar>r - x\<bar> < 1 / of_int m" .
  then have "of_int q < r" "r < of_int q + 1" using lo hi by linarith+
  with r show ?thesis by (auto simp: x_def q_def)
qed

lemma rnd64_div_exact:
  fixes k m :: int
  assumes "0 \<le> k" "k < 2 ^ 53" "0 < m" "k mod m = 0"
  shows "rnd64 (of_int k / of_int m) = Fin (of_int (k div m))"
proof -
  have "of_int k / (of_int m :: rat) = of_int (k div m)"
    using assms by (metis mod_0_imp_dvd of_int_div)
  moreover have "\<bar>k div m\<bar> < 2 ^ 53"
  proof -
    have "0 \<le> k div m" using assms by (simp add: pos_imp_zdiv_nonneg_iff)
    moreover have "k div m \<le> k" using zdiv_mono2 [of k 1 m] assms by simp
    ultimately show ?thesis using assms(2) by linarith
  qed
  ultimately show ?thesis by (simp only: rnd64_of_int)
qed

lemma floor_rnd64_div:
  fixes k m :: int
  assumes "0 \<le> k" "k < 2 ^ 53" "0 < m" "m < 2 ^ 53"
  shows "\<exists>r. rnd64 (of_int k / of_int m) = Fin r \<and> \<lfloor>r\<rfloor> = k div m"
proof (cases "k mod m = 0")
  case True
  then show ?thesis using assms by (simp add: rnd64_div_exact)
next
  case False
  with rnd64_div_inexact [OF assms] show ?thesis by (auto simp: floor_eq_iff)
qed

text \<open>Comparing an integer with a rounded quotient is comparing without rounding.\<close>

lemma rnd64_div_le_iff:
  fixes k m p :: int
  assumes "0 \<le> k" "k < 2 ^ 53" "0 < m" "m < 2 ^ 53"
  shows "\<exists>r. rnd64 (of_int k / of_int m) = Fin r \<and> (r \<le> of_int p \<longleftrightarrow> k \<le> p * m)"
proof (cases "k mod m = 0")
  case True
  then have "k = k div m * m" using div_mult_mod_eq [of k m] by simp
  then have "k div m \<le> p \<longleftrightarrow> k \<le> p * m"
    using assms(3) mult_le_cancel_right [of "k div m" m p] by simp
  with True show ?thesis using assms by (simp add: rnd64_div_exact)
next
  case False
  then obtain r where r: "rnd64 (of_int k / of_int m) = Fin r" "of_int (k div m) < r" "r < of_int (k div m) + 1"
    using rnd64_div_inexact [OF assms] by blast
  have "r \<le> of_int p \<longleftrightarrow> k div m < p"
  proof
    assume "r \<le> of_int p"
    with r(2) have "(of_int (k div m) :: rat) < of_int p" by (rule less_le_trans)
    then show "k div m < p" by (simp only: of_int_less_iff)
  next
    assume "k div m < p"
    then have "k div m + 1 \<le> p" by simp
    then have "(of_int (k div m + 1) :: rat) \<le> of_int p" by (simp only: of_int_le_iff)
    with r(3) show "r \<le> of_int p" by simp
  qed
  moreover have "k div m < p \<longleftrightarrow> k \<le> p * m"
  proof
    assume "k div m < p"
    then have "(k div m + 1) * m \<le> p * m" using assms(3) by (intro mult_right_mono) simp_all
    moreover have "k = k div m * m + k mod m" "k mod m < m" using assms(3) by simp_all
    ultimately show "k \<le> p * m" unfolding distrib_right by linarith
  next
    assume "k \<le> p * m"
    moreover have "k = k div m * m + k mod m" "0 \<le> k mod m" using assms(3) by simp_all
    ultimately have "k div m * m < p * m" using False by linarith
    then show "k div m < p" using assms(3) by simp
  qed
  ultimately show ?thesis using r(1) by blast
qed

lemma pow2_less_double: "e < f \<Longrightarrow> 2 * pow2 e \<le> pow2 f"
proof -
  assume "e < f"
  then have "pow2 f = 2 * pow2 e * 2 ^ nat (f - e - 1)"
    using pow2_add_nat [of "e + 1" "nat (f - e - 1)"] pow2_Suc [of e] by simp
  then show ?thesis using mult_left_mono [of 1 "2 ^ nat (f - e - 1)" "2 * pow2 e"] by (simp add: less_imp_le)
qed

lemma dbl_exp_unique:
  assumes "2 ^ 52 * pow2 e \<le> a" "a < 2 ^ 53 * pow2 e"
  shows "dbl_exp a = e"
proof -
  have "(0 :: rat) < 2 ^ 52 * pow2 e" by simp
  then have "0 < a" using assms(1) by (rule less_le_trans)
  then have b: "2 ^ 52 * pow2 (dbl_exp a) \<le> a" "a < 2 ^ 53 * pow2 (dbl_exp a)"
    using dbl_exp_bounds [of a] by (simp_all add: field_simps)
  show ?thesis
    using pow2_less_double [of e "dbl_exp a"] pow2_less_double [of "dbl_exp a" e] assms b
    by (cases e "dbl_exp a" rule: linorder_cases) simp_all
qed

lemma rnd64_near:
  assumes "1 / 2 ^ 53 \<le> x" "x < 2 ^ 53"
  obtains r where "rnd64 x = Fin r" "\<bar>r - x\<bar> \<le> x / 2 ^ 53"
proof -
  have "(0 :: rat) < 1 / 2 ^ 53" by simp
  then have x: "0 < x" using assms(1) by (rule less_le_trans)
  obtain r where r: "rnd64 x = Fin r" using rnd64_small_finite [OF x assms(2)] by blast
  from x assms(1) have "- 1074 \<le> dbl_exp \<bar>x\<bar>" by (simp add: dbl_exp_of_ratio)
  with rnd64_error [OF r] x have "\<bar>r - x\<bar> \<le> x / 2 ^ 53" by simp
  with r that show ?thesis by blast
qed

lemma scale_back:
  assumes "0 < k" "k < 2 ^ 51" "0 < m" "m < 2 ^ 53"
  obtains r p where "rnd64 (of_int k / of_int m) = Fin r" "rnd64 (r * of_int m) = Fin p" "\<lfloor>p + 1 / 2\<rfloor> = k"
proof -
  have k: "(1 :: rat) \<le> of_int k" "(of_int k :: rat) < 2 ^ 51"
    using assms(1,2) by (simp, metis of_int_less_iff of_int_numeral of_int_power)
  have m: "(1 :: rat) \<le> of_int m" "(of_int m :: rat) < 2 ^ 53"
    using assms(3,4) by (simp, metis of_int_less_iff of_int_numeral of_int_power)
  have "1 / 2 ^ 53 \<le> of_int k / (of_int m :: rat)" using k m by (intro frac_le) simp_all
  moreover have "of_int k / (of_int m :: rat) \<le> of_int k / 1" using k m by (intro frac_le) simp_all
  ultimately obtain r where r: "rnd64 (of_int k / of_int m) = Fin r"
    "\<bar>r - of_int k / of_int m\<bar> \<le> of_int k / of_int m / 2 ^ 53"
    using k by (elim rnd64_near [of "of_int k / of_int m"]) simp_all
  have mp: "(0 :: rat) < of_int m" using m(1) by linarith
  have "r * of_int m - of_int k = (r - of_int k / of_int m) * of_int m" using mp by (simp add: left_diff_distrib)
  then have "\<bar>r * of_int m - of_int k\<bar> = \<bar>r - of_int k / of_int m\<bar> * of_int m"
    by (simp only: abs_mult abs_of_pos [OF mp])
  also have "\<dots> \<le> of_int k / of_int m / 2 ^ 53 * of_int m" using r(2) m(1) by (intro mult_right_mono) simp_all
  also have "\<dots> = of_int k / 2 ^ 53" using m(1) by simp
  finally have d: "\<bar>r * of_int m - of_int k\<bar> \<le> of_int k / 2 ^ 53" .
  have "(of_int k :: rat) / 2 ^ 53 < 1 / 4" using k(2) by simp
  with d have rm: "\<bar>r * of_int m - of_int k\<bar> < 1 / 4" by linarith
  have "1 / 2 ^ 53 \<le> r * of_int m"
  proof -
    have "1 / 2 ^ 53 \<le> (3 / 4 :: rat)" by simp
    then show ?thesis using rm k(1) by linarith
  qed
  moreover have "r * of_int m < 2 ^ 53"
  proof -
    have "(2 :: rat) ^ 51 + 1 < 2 ^ 53" by simp
    then show ?thesis using rm k(2) by linarith
  qed
  ultimately obtain p where p: "rnd64 (r * of_int m) = Fin p" "\<bar>p - r * of_int m\<bar> \<le> r * of_int m / 2 ^ 53"
    by (elim rnd64_near)
  have "k + 1 \<le> 2 ^ 51" using assms(2) by simp
  then have "of_int (k + 1) \<le> (of_int (2 ^ 51) :: rat)" by (simp only: of_int_le_iff)
  then have "(of_int k :: rat) + 1 \<le> 2 ^ 51" by simp
  then have "r * of_int m < 2 ^ 51" using rm by linarith
  then have "r * of_int m / 2 ^ 53 < 1 / 4" by simp
  then have "\<bar>p - of_int k\<bar> < 1 / 2" using p(2) rm by linarith
  then have "\<lfloor>p + 1 / 2\<rfloor> = k" by (simp add: floor_eq_iff abs_if split: if_splits)
  with r(1) p(1) that show ?thesis by blast
qed

lemma num_le_Fin [simp]: "num_le (Fin a) (Fin b) \<longleftrightarrow> a \<le> b"
  by (auto simp: num_le_def)

section \<open>Facts about decimal text\<close>

lemma digit_not_special:
  assumes "is_digit c"
  shows "\<not> is_space c" "c \<noteq> CHR ''-''" "c \<noteq> CHR ''+''" "c \<noteq> CHR ''.''" "c \<noteq> CHR ''I''"
    "c \<noteq> CHR ''x''" "c \<noteq> CHR ''X''" "c \<noteq> CHR ''o''" "c \<noteq> CHR ''O''" "c \<noteq> CHR ''b''" "c \<noteq> CHR ''B''"
    "c \<noteq> CHR ''e''" "c \<noteq> CHR ''E''" "c \<noteq> CHR '',''" "c \<noteq> CHR ''/''"
  using assms by (auto simp: is_digit_def is_space_def)

lemma dropWhile_none: "(\<And>x. x \<in> set xs \<Longrightarrow> \<not> P x) \<Longrightarrow> dropWhile P xs = xs"
  by (cases xs) auto

lemma js_trim_digits: "all_digits s \<Longrightarrow> js_trim s = s"
  using dropWhile_none [of s is_space] dropWhile_none [of "rev s" is_space]
  by (simp add: js_trim_def all_digits_def digit_not_special)

lemma takeWhile_digits: "all_digits s \<Longrightarrow> takeWhile is_digit s = s \<and> dropWhile is_digit s = []"
  by (simp add: all_digits_def)

lemma parse_decimal_digits:
  "all_digits s \<Longrightarrow> s \<noteq> [] \<Longrightarrow> parse_decimal s = Some (of_int (digits_val s))"
  by (simp add: parse_decimal_def takeWhile_digits parse_exponent_def pow10_def)

lemma parse_radix_digits:
  assumes "all_digits s"
  shows "parse_radix s = None"
proof (cases s)
  case (Cons z t)
  then show ?thesis
  proof (cases t)
    case (Cons x u)
    with \<open>s = z # t\<close> assms have "is_digit x" by simp
    then show ?thesis
      using Cons \<open>s = z # t\<close> by (cases u) (simp_all add: parse_radix_def digit_not_special)
  qed (simp add: parse_radix_def)
qed (simp add: parse_radix_def)

lemma js_Number_digits:
  assumes "all_digits s" "s \<noteq> []"
  shows "js_Number s = rnd64 (of_int (digits_val s))"
proof -
  obtain c t where s: "s = c # t" using assms(2) by (cases s) auto
  with assms(1) have "is_digit c" by simp
  with s have "s \<noteq> ''Infinity''" using digit_not_special(5) by auto
  with s assms \<open>is_digit c\<close> show ?thesis
    by (simp add: js_Number_def js_trim_digits parse_radix_digits digit_not_special
        parse_decimal_digits Let_def del: all_digits_simps)
qed

lemma js_Number_Nil [simp]: "js_Number [] = Fin 0"
  by (simp add: js_Number_def js_trim_def)

lemma js_Number_dec_str: "0 \<le> n \<Longrightarrow> js_Number (dec_str n) = num_of_int n"
  by (simp add: js_Number_digits dec_str_digits num_of_int_def)

lemma js_parseInt_digits:
  assumes "all_digits s" "s \<noteq> []"
  shows "js_parseInt s = rnd64 (of_int (digits_val s))"
proof -
  have nohex: "take 2 s \<noteq> ''0x''" "take 2 s \<noteq> ''0X''"
  proof -
    have "all_digits (take 2 s)" using assms(1) by (auto simp: all_digits_def dest: in_set_takeD)
    then show "take 2 s \<noteq> ''0x''" "take 2 s \<noteq> ''0X''" by (auto simp: is_digit_def)
  qed
  have "dropWhile is_space s = s" using assms(1) by (intro dropWhile_none) (auto simp: all_digits_def digit_not_special)
  moreover have "is_digit (hd s)" using assms by (auto simp: all_digits_def)
  ultimately show ?thesis
    using assms nohex by (simp add: js_parseInt_def digit_not_special takeWhile_digits Let_def)
qed

lemma num_str_int:
  assumes "0 \<le> n" "n < 2 ^ 53"
  shows "num_str (Fin (of_int n)) = dec_str n"
proof -
  have "(of_int n :: rat) < 2 ^ 53" using assms(2) by (metis of_int_less_iff of_int_numeral of_int_power)
  then show ?thesis using assms by (simp add: pos_str_def)
qed

lemma num_str_num_of_int: "0 \<le> n \<Longrightarrow> n < 2 ^ 53 \<Longrightarrow> num_str (num_of_int n) = dec_str n"
  by (simp only: num_of_int_small abs_of_nonneg num_str_int)

lemma digits_stop:
  assumes "all_digits a" "\<not> is_digit c"
  shows "takeWhile is_digit (a @ c # s) = a \<and> dropWhile is_digit (a @ c # s) = c # s"
  using assms by (simp add: all_digits_def takeWhile_append dropWhile_append)

lemma not_digits [simp]: "\<not> is_digit CHR ''.''" "\<not> is_digit CHR ''e''" "\<not> is_digit CHR ''-''"
  by (simp_all add: is_digit_def)

lemma parse_decimal_point:
  assumes "all_digits a" "all_digits b" "a \<noteq> []"
  shows "parse_decimal (a @ CHR ''.'' # b) = Some (of_int (digits_val (a @ b)) * pow10 (- int (length b)))"
  using assms digits_stop [OF assms(1), of "CHR ''.''" b] takeWhile_digits [OF assms(2)]
  by (simp add: parse_decimal_def Let_def parse_exponent_def del: takeWhile_eq_all_conv dropWhile_eq_Nil_conv)

lemma parse_exponent_e:
  assumes "all_digits p" "p \<noteq> []"
  shows "parse_exponent (CHR ''e'' # p) = Some (digits_val p)"
    "parse_exponent (CHR ''e'' # CHR ''-'' # p) = Some (- digits_val p)"
  using assms by (cases p; simp add: parse_exponent_def Let_def digit_not_special)+

lemma parse_decimal_scientific:
  assumes "all_digits a" "all_digits b" "a \<noteq> []" "parse_exponent (CHR ''e'' # x) = Some e"
  shows "parse_decimal (a @ CHR ''.'' # b @ CHR ''e'' # x)
    = Some (of_int (digits_val (a @ b)) * pow10 (e - int (length b)))"
  using assms(3,4) digits_stop [OF assms(1), of "CHR ''.''" "b @ CHR ''e'' # x"] digits_stop [OF assms(2), of "CHR ''e''" x]
  by (simp add: parse_decimal_def Let_def)

lemma pow10_add_nat: "pow10 (e + int k) = pow10 e * 10 ^ k"
proof (induction k)
  case (Suc k)
  have "pow10 (i + 1) = 10 * pow10 i" for i
  proof (cases "0 \<le> i")
    case True
    then show ?thesis by (simp add: pow10_def nat_add_distrib)
  next
    case False
    then have "nat (- i) = Suc (nat (- (i + 1)))" by simp
    with False show ?thesis by (auto simp: pow10_def)
  qed
  from this [of "e + int k"] Suc show ?case by (simp add: ac_simps)
qed simp

end
