(* ===== verification/Js_Effects.thy ===== *)
theory Js_Effects
  imports Js_Number
begin

text \<open>
  How the event handlers of the browser application are modelled. A handler is a function
  from the component's state to its new state and the list of commands it issues, in order:
  HTTP requests, toasts (\<open>this.$message\<close>), events emitted to the parent, router and store
  calls, timers. The continuation of a request is named by a tag of the component's own
  datatype, which carries the variables the callback captures; the callback itself is a
  separate function applied when the reply is delivered. Console output is not modelled.

  \<open>outcome\<close> adds the case of an exception: the state and commands up to the throw.
  \<open>settle\<close> is the promise chain \<open>.then(f).catch(g)\<close>, in which \<open>g\<close> also runs when \<open>f\<close> throws.
\<close>

section \<open>Values exchanged with the server and with the parent component\<close>

datatype json =
    JUndef | JNull | JBool bool | JNum jsnum | JStr string
  | JArr "json list" | JObj "(string \<times> json) list"

text \<open>Truthiness of a value in a condition.\<close>

fun json_truthy :: "json \<Rightarrow> bool" where
  "json_truthy JUndef = False"
| "json_truthy JNull = False"
| "json_truthy (JBool b) = b"
| "json_truthy (JNum x) = num_truthy x"
| "json_truthy (JStr s) = (s \<noteq> [])"
| "json_truthy _ = True"

abbreviation JInt :: "int \<Rightarrow> json" where
  "JInt i \<equiv> JNum (num_of_int i)"

text \<open>Looking up a member of an object literal.\<close>

fun json_get :: "json \<Rightarrow> string \<Rightarrow> json" where
  "json_get (JObj kvs) k = (case map_of kvs k of Some v \<Rightarrow> v | None \<Rightarrow> JUndef)"
| "json_get _ k = JUndef"

record http_request =
  req_method :: string
  req_url :: string
  req_body :: json
  req_auth :: "string option"

text \<open>The body of a JSON-RPC call as every component writes it.\<close>

definition rpc_body :: "string \<Rightarrow> (string \<times> json) list \<Rightarrow> json" where
  "rpc_body meth params =
     JObj [(''id'', JInt 1), (''jsonrpc'', JStr ''2.0''), (''method'', JStr meth),
           (''params'', JObj params)]"

definition bearer :: "string \<Rightarrow> string" where
  "bearer token = ''Bearer '' @ token"

definition axios_post :: "string \<Rightarrow> json \<Rightarrow> string \<Rightarrow> http_request" where
  "axios_post url body token =
     \<lparr>req_method = ''POST'', req_url = url, req_body = body, req_auth = Some (bearer token)\<rparr>"

definition axios_get :: "string \<Rightarrow> string option \<Rightarrow> http_request" where
  "axios_get url token =
     \<lparr>req_method = ''GET'', req_url = url, req_body = JUndef, req_auth = map_option bearer token\<rparr>"

text \<open>
  Replies. A JSON-RPC endpoint answers with an error object or a result; the REST
  endpoints answer with a status, data and a message. A request may also fail, with the
  HTTP status when the server answered at all.
\<close>

datatype 'a rpc_reply = RpcError string | RpcResult 'a | RpcFailure "int option"

datatype 'a rest_reply = RestSuccess 'a | RestRefused string | RestFailure "int option"

section \<open>Commands\<close>

datatype toast = ToastError | ToastSuccess | ToastWarning | ToastDanger

datatype route_target = ByPath string | ByName string | ByNameParams string "(string \<times> string) list"

datatype 'r cmd =
    Request 'r http_request
  | Toast toast string
  | Emit string "json list"
  | RouterPush route_target
  | RouterReplace route_target
  | DispatchFedLogOut
  | Timer nat 'r
  | NextTick 'r
  | Navigate string string \<comment> \<open>a clicked anchor: its \<open>href\<close> and \<open>download\<close> attributes\<close>
  | Alert string
  | DomCall string

text \<open>The requests among the commands, with their tags.\<close>

fun requests :: "'r cmd list \<Rightarrow> ('r \<times> http_request) list" where
  "requests [] = []"
| "requests (Request t q # cs) = (t, q) # requests cs"
| "requests (_ # cs) = requests cs"

lemma requests_append [simp]: "requests (xs @ ys) = requests xs @ requests ys"
  by (induction xs rule: requests.induct) auto

section \<open>Exceptions and promise chains\<close>

datatype js_error = TypeError | ReferenceError | SyntaxError

datatype ('s, 'c) outcome = Done 's "'c list" | Throws js_error 's "'c list"

fun out_state :: "('s, 'c) outcome \<Rightarrow> 's" where
  "out_state (Done s cs) = s"
| "out_state (Throws e s cs) = s"

fun out_cmds :: "('s, 'c) outcome \<Rightarrow> 'c list" where
  "out_cmds (Done s cs) = cs"
| "out_cmds (Throws e s cs) = cs"

fun threw :: "('s, 'c) outcome \<Rightarrow> bool" where
  "threw (Done s cs) = False"
| "threw (Throws e s cs) = True"

text \<open>Statement sequencing: the commands accumulate and a throw skips the rest.\<close>

fun andthen :: "('s, 'c) outcome \<Rightarrow> ('s \<Rightarrow> ('s, 'c) outcome) \<Rightarrow> ('s, 'c) outcome" where
  "andthen (Done s cs) f =
     (case f s of Done s' ds \<Rightarrow> Done s' (cs @ ds) | Throws e s' ds \<Rightarrow> Throws e s' (cs @ ds))"
| "andthen (Throws e s cs) f = Throws e s cs"

lemma andthen_state_Done: "andthen (Done s []) f = f s"
  by (simp split: outcome.split)

lemma andthen_assoc: "andthen (andthen m f) g = andthen m (\<lambda>s. andthen (f s) g)"
  by (cases m) (auto split: outcome.splits)

text \<open>What a \<open>catch\<close> callback is given: a failed request or a thrown error.\<close>

datatype rejection = Rejected "int option" | Threw js_error

text \<open>
  \<open>p.then(f).catch(g)\<close>: \<open>f\<close> on the answer, \<open>g\<close> when the request failed or \<open>f\<close> threw.
\<close>

fun settle :: "('a \<Rightarrow> 's \<Rightarrow> ('s, 'c) outcome) \<Rightarrow> (rejection \<Rightarrow> 's \<Rightarrow> ('s, 'c) outcome)
    \<Rightarrow> (int option + 'a) \<Rightarrow> 's \<Rightarrow> ('s, 'c) outcome" where
  "settle f g (Inl status) s = g (Rejected status) s"
| "settle f g (Inr a) s =
     (case f a s of
        Done s' cs \<Rightarrow> Done s' cs
      | Throws e s' cs \<Rightarrow> andthen (Done s' cs) (g (Threw e)))"

lemma settle_total:
  assumes "\<And>r s. \<not> threw (g r s)"
  shows "\<not> threw (settle f g p s)"
proof (cases p)
  case (Inl a)
  with assms show ?thesis by simp
next
  case (Inr a)
  with assms show ?thesis by (auto split: outcome.splits) (metis threw.simps(2))+
qed

section \<open>The contract of a JSON-RPC call\<close>

text \<open>
  The JSON-RPC callbacks of the application that do nothing but report an error: an error
  reply shows its message and changes nothing, a failed request changes nothing and is
  silent. Every component whose callback meets the contract gets the lemmas below.
\<close>

fun deliver :: "('a rpc_reply \<Rightarrow> 's \<Rightarrow> 's \<times> 'r cmd list) \<Rightarrow> 'a rpc_reply list \<Rightarrow> 's \<Rightarrow> 's \<times> 'r cmd list" where
  "deliver h [] s = (s, [])"
| "deliver h (r # rs) s =
     (let (s', cs) = h r s; (s'', ds) = deliver h rs s' in (s'', cs @ ds))"

fun rpc_errors :: "'a rpc_reply list \<Rightarrow> string list" where
  "rpc_errors [] = []"
| "rpc_errors (RpcError m # rs) = m # rpc_errors rs"
| "rpc_errors (_ # rs) = rpc_errors rs"

fun rpc_ok :: "'a rpc_reply \<Rightarrow> bool" where
  "rpc_ok (RpcResult _) = True"
| "rpc_ok _ = False"

locale rpc_callback =
  fixes on_reply :: "'a rpc_reply \<Rightarrow> 's \<Rightarrow> 's \<times> 'r cmd list"
  assumes error_reported: "on_reply (RpcError m) s = (s, [Toast ToastError m])"
    and failure_silent: "on_reply (RpcFailure c) s = (s, [])"
begin

lemma unsuccessful_keeps_state: "\<not> rpc_ok r \<Longrightarrow> fst (on_reply r s) = s"
  by (cases r) (simp_all add: error_reported failure_silent)

lemma unsuccessful_issues_no_request: "\<not> rpc_ok r \<Longrightarrow> requests (snd (on_reply r s)) = []"
  by (cases r) (simp_all add: error_reported failure_silent)

lemma deliver_unsuccessful:
  "(\<And>r. r \<in> set rs \<Longrightarrow> \<not> rpc_ok r) \<Longrightarrow>
     deliver on_reply rs s = (s, map (Toast ToastError) (rpc_errors rs))"
proof (induction rs arbitrary: s)
  case Nil
  show ?case by simp
next
  case (Cons r rs)
  from Cons.prems have "\<not> rpc_ok r" by simp
  with Cons show ?case
    by (cases r) (simp_all add: error_reported failure_silent Let_def)
qed

end

section \<open>The contract of a view with a loading flag\<close>

text \<open>
  A view that exchanges data shows a spinner from the moment the request is issued, which a view that
  is \<open>ready\<close> does, and a refused or failed request ends it at once.
\<close>

locale spinner =
  fixes ready :: "'s \<Rightarrow> bool"
    and start :: "'s \<Rightarrow> 's"
    and on_reply :: "'a rest_reply \<Rightarrow> 's \<Rightarrow> 's"
    and loading :: "'s \<Rightarrow> bool"
  assumes start_loads: "ready s \<Longrightarrow> loading (start s)"
    and refused_ends: "\<not> loading (on_reply (RestRefused m) s)"
    and failure_ends: "\<not> loading (on_reply (RestFailure c) s)"

text \<open>An accepted answer leaves the spinner to a timer (\<open>setTimeout\<close>) whose callback ends it.\<close>

locale loading_view = spinner ready start on_reply loading
  for ready :: "'s \<Rightarrow> bool" and start :: "'s \<Rightarrow> 's" and on_reply :: "'a rest_reply \<Rightarrow> 's \<Rightarrow> 's" and loading :: "'s \<Rightarrow> bool" +
  fixes on_timer :: "'s \<Rightarrow> 's"
  assumes timer_ends: "\<not> loading (on_timer s)"
begin

text \<open>One exchange: start, the reply, and the timer when the reply was accepted.\<close>

lemma exchange_ends_loading:
  "\<not> loading (case r of RestSuccess _ \<Rightarrow> on_timer (on_reply r (start s))
                      | _ \<Rightarrow> on_reply r (start s))"
  by (cases r) (simp_all add: refused_ends failure_ends timer_ends)

end

text \<open>An accepted answer ends the spinner itself.\<close>

locale immediate_view = spinner ready start on_reply loading
  for ready :: "'s \<Rightarrow> bool" and start :: "'s \<Rightarrow> 's" and on_reply :: "'a rest_reply \<Rightarrow> 's \<Rightarrow> 's" and loading :: "'s \<Rightarrow> bool" +
  assumes success_ends: "\<not> loading (on_reply (RestSuccess a) s)"
begin

lemma exchange_ends_loading: "\<not> loading (on_reply r (start s))"
  by (cases r) (simp_all add: refused_ends failure_ends success_ends)

end

end
