(* ===== verification/Store.thy ===== *)
theory Store
  imports Js_Effects
begin

text \<open>
  The Vuex store (\<open>browser/src/store\<close>) and the two browser storages it mirrors. A storage
  is a map from keys to strings; \<open>user\<close> and \<open>app\<close> are the two store modules with their
  initial values, mutations and actions, and \<open>getters\<close> is the root getter object.
\<close>

section \<open>Browser storage\<close>

type_synonym web_storage = "string \<rightharpoonup> string"

definition getItem :: "web_storage \<Rightarrow> string \<Rightarrow> string option" where
  "getItem st k = st k"

definition setItem :: "string \<Rightarrow> string \<Rightarrow> web_storage \<Rightarrow> web_storage" where
  "setItem k v st = st(k \<mapsto> v)"

definition removeItem :: "string \<Rightarrow> web_storage \<Rightarrow> web_storage" where
  "removeItem k st = st(k := None)"

text \<open>What the application relies on of a storage, and what follows for key lists.\<close>

locale storage =
  fixes get :: "'st \<Rightarrow> 'k \<Rightarrow> 'v option"
    and put :: "'k \<Rightarrow> 'v \<Rightarrow> 'st \<Rightarrow> 'st"
    and del :: "'k \<Rightarrow> 'st \<Rightarrow> 'st"
  assumes get_put: "get (put k v s) k' = (if k' = k then Some v else get s k')"
    and get_del: "get (del k s) k' = (if k' = k then None else get s k')"
begin

lemma get_del_all: "get (fold del ks s) k = (if k \<in> set ks then None else get s k)"
  by (induction ks arbitrary: s) (auto simp: get_del)

lemma get_put_all:
  "get (fold (\<lambda>(k, v). put k v) kvs s) k =
     (case map_of (rev kvs) k of Some v \<Rightarrow> Some v | None \<Rightarrow> get s k)"
  by (induction kvs arbitrary: s) (auto simp: get_put map_add_def split: option.split)

lemma put_then_del: "get (del k (put k v s)) = get (del k s)"
  by (rule ext) (simp add: get_put get_del)

end

interpretation web: storage getItem setItem removeItem
  by unfold_locales (auto simp: getItem_def setItem_def removeItem_def)

text \<open>\<open>storage.key || d\<close>: the stored text, or the default when absent or empty.\<close>

definition stored_or :: "web_storage \<Rightarrow> string \<Rightarrow> 'a \<Rightarrow> (string \<Rightarrow> 'a) \<Rightarrow> 'a" where
  "stored_or st k d f =
     (case getItem st k of None \<Rightarrow> d | Some v \<Rightarrow> if v = [] then d else f v)"

text \<open>The state of the page outside the components: both storages and the store.\<close>

record user_module =
  user_name :: string
  user_userId :: string
  user_accessToken :: string

record app_module =
  app_language :: string
  app_routerMenu :: json

record page =
  session :: web_storage
  local :: web_storage
  user :: user_module
  app :: app_module

section \<open>The user module\<close>

definition user_init :: "web_storage \<Rightarrow> user_module" where
  "user_init ss =
     \<lparr>user_name = stored_or ss ''oaxLoginName'' [] id,
      user_userId = stored_or ss ''oaxLoginUserId'' [] id,
      user_accessToken = stored_or ss ''fs3MinioLoginAccessToken'' [] id\<rparr>"

definition SET_NAME :: "string \<Rightarrow> user_module \<Rightarrow> user_module" where
  "SET_NAME name state = state\<lparr>user_name := name\<rparr>"

definition SET_USERID :: "string \<Rightarrow> user_module \<Rightarrow> user_module" where
  "SET_USERID userId state = state\<lparr>user_userId := userId\<rparr>"

definition SET_ACCESSTOKEN :: "string \<Rightarrow> user_module \<Rightarrow> user_module" where
  "SET_ACCESSTOKEN accessToken state = state\<lparr>user_accessToken := accessToken\<rparr>"

text \<open>The mutations the two modules register; a commit of another type changes nothing.\<close>

definition user_mutations :: "string list" where
  "user_mutations = [''SET_NAME'', ''SET_USERID'', ''SET_ACCESSTOKEN'']"

definition commit_user :: "string \<Rightarrow> string \<Rightarrow> user_module \<Rightarrow> user_module" where
  "commit_user type payload state =
     (if type = ''SET_NAME'' then SET_NAME payload state
      else if type = ''SET_USERID'' then SET_USERID payload state
      else if type = ''SET_ACCESSTOKEN'' then SET_ACCESSTOKEN payload state
      else state)"

text \<open>How the promise an action returns ends up.\<close>

datatype promise = Pending | Fulfilled | RejectedWith js_error | RejectedHttp "int option"

text \<open>
  \<open>FedLogOut\<close>: the four session keys are removed and the token is cleared in the store.
\<close>

definition fed_logout_keys :: "string list" where
  "fed_logout_keys =
     [''oaxLoginUserId'', ''fs3MinioLoginAccessToken'', ''oaxLoginName'', ''oaxLoginEmail'']"

definition FedLogOut :: "page \<Rightarrow> page \<times> promise" where
  "FedLogOut p =
     (p\<lparr>session := fold removeItem fed_logout_keys (session p),
        user := commit_user ''SET_ACCESSTOKEN'' [] (user p)\<rparr>, Fulfilled)"

text \<open>\<open>SetTime\<close> commits a mutation no module registers, and settles nothing.\<close>

definition SetTime :: "string \<Rightarrow> page \<Rightarrow> page \<times> promise" where
  "SetTime time p = (p\<lparr>user := commit_user ''SET_LINKTIME'' time (user p)\<rparr>, Pending)"

text \<open>The body of a login answer.\<close>

record login_data =
  ld_userId :: string
  ld_accessToken :: string
  ld_name :: string
  ld_email :: string

record login_response =
  lr_code :: string
  lr_success :: bool
  lr_msg :: string
  lr_data :: login_data

text \<open>
  The \<open>then\<close> callback of the \<open>Login\<close> action. \<open>this\<close> is the store, which has no
  \<open>$router\<close>: the branch for code 10020 records the mail address and then throws. The
  callback also sets a property \<open>loginLoad\<close> of the store object that nothing reads; it is
  left out.
\<close>

definition login_then :: "string \<Rightarrow> login_response \<Rightarrow> page \<times> promise \<Rightarrow> (page \<times> promise, unit cmd) outcome" where
  "login_then username r st =
     (let p = fst st in
      if lr_code r = ''10020'' then
        Throws TypeError (p\<lparr>session := setItem ''oaxRegisterMail'' username (session p)\<rparr>, snd st)
          [Toast ToastError (lr_msg r)]
      else if lr_success r then
        (let d = lr_data r in
         Done
          (p\<lparr>session := fold (\<lambda>(k, v). setItem k v)
               [(''oaxLoginUserId'', ld_userId d), (''fs3MinioLoginAccessToken'', ld_accessToken d),
                (''oaxLoginName'', ld_name d), (''oaxLoginEmail'', ld_email d)] (session p),
             user := commit_user ''SET_ACCESSTOKEN'' (ld_accessToken d)
                       (commit_user ''SET_USERID'' (ld_userId d)
                         (commit_user ''SET_NAME'' (ld_name d) (user p)))\<rparr>, Fulfilled)
          [])
      else Done st [Toast ToastError (lr_msg r)])"

definition login_catch :: "rejection \<Rightarrow> page \<times> promise \<Rightarrow> (page \<times> promise, unit cmd) outcome" where
  "login_catch r st =
     Done (fst st, (case r of Threw e \<Rightarrow> RejectedWith e | Rejected c \<Rightarrow> RejectedHttp c))
       [Toast ToastError ''Login failed'']"

text \<open>
  The \<open>Login\<close> action calls \<open>login\<close> imported from \<open>@/api/login\<close>. Without such an
  export the call throws inside the promise executor, which rejects the promise.
\<close>

definition Login :: "string list \<Rightarrow> string \<Rightarrow> (int option + login_response) \<Rightarrow> page
    \<Rightarrow> (page \<times> promise, unit cmd) outcome" where
  "Login api_exports username reply p =
     (if ''login'' \<notin> set api_exports then Done (p, RejectedWith TypeError) []
      else settle (login_then username) login_catch reply (p, Pending))"

section \<open>The app module and the getters\<close>

definition app_init :: "web_storage \<Rightarrow> app_module" where
  "app_init ls =
     \<lparr>app_language = stored_or ls ''language'' ''en'' id,
      app_routerMenu = stored_or ls ''routerMenu'' (JInt 0) JStr\<rparr>"

definition SET_LANGUAGE :: "string \<Rightarrow> page \<Rightarrow> page" where
  "SET_LANGUAGE language p =
     p\<lparr>app := (app p)\<lparr>app_language := language\<rparr>, local := setItem ''language'' language (local p)\<rparr>"

definition SET_ROUTERMENU :: "string \<Rightarrow> page \<Rightarrow> page" where
  "SET_ROUTERMENU routerMenu p =
     p\<lparr>app := (app p)\<lparr>app_routerMenu := JStr routerMenu\<rparr>,
       local := setItem ''routerMenu'' routerMenu (local p)\<rparr>"

definition setLanguage :: "string \<Rightarrow> page \<Rightarrow> page" where
  "setLanguage language p = SET_LANGUAGE language p"

definition setRouterMenu :: "string \<Rightarrow> page \<Rightarrow> page" where
  "setRouterMenu routerMenu p = SET_ROUTERMENU routerMenu p"

text \<open>The root getters; any other name reads \<open>undefined\<close>.\<close>

definition getters :: "page \<Rightarrow> string \<Rightarrow> json" where
  "getters p name =
     (if name = ''accessToken'' then JStr (user_accessToken (user p))
      else if name = ''name'' then JStr (user_name (user p))
      else JUndef)"

text \<open>The store as it is created when the page loads.\<close>

definition store_init :: "web_storage \<Rightarrow> web_storage \<Rightarrow> page" where
  "store_init ss ls = \<lparr>session = ss, local = ls, user = user_init ss, app = app_init ls\<rparr>"

section \<open>Properties of the store\<close>

lemmas user_mutation_defs = SET_NAME_def SET_USERID_def SET_ACCESSTOKEN_def commit_user_def

lemma fed_logout_session:
  "getItem (session (fst (FedLogOut p))) k =
     (if k \<in> set fed_logout_keys then None else getItem (session p) k)"
  by (simp add: FedLogOut_def web.get_del_all)

lemma fed_logout_token: "user_accessToken (user (fst (FedLogOut p))) = []"
  by (simp add: FedLogOut_def user_mutation_defs)

lemma fed_logout_frame:
  "local (fst (FedLogOut p)) = local p"
  "app (fst (FedLogOut p)) = app p"
  "user_name (user (fst (FedLogOut p))) = user_name (user p)"
  "user_userId (user (fst (FedLogOut p))) = user_userId (user p)"
  by (simp_all add: FedLogOut_def user_mutation_defs)

lemma commit_user_unknown: "type \<notin> set user_mutations \<Longrightarrow> commit_user type x u = u"
  by (simp add: commit_user_def user_mutations_def)

text \<open>The store and the session storage agree on who is logged in.\<close>

definition user_synced :: "page \<Rightarrow> bool" where
  "user_synced p \<longleftrightarrow>
     user_accessToken (user p) = stored_or (session p) ''fs3MinioLoginAccessToken'' [] id"

lemma stored_or_id: "stored_or st k [] id = (case getItem st k of None \<Rightarrow> [] | Some v \<Rightarrow> v)"
  by (auto simp: stored_or_def split: option.split)

lemma store_init_synced: "user_synced (store_init ss ls)"
  by (simp add: user_synced_def store_init_def user_init_def)

lemma fed_logout_synced: "user_synced (fst (FedLogOut p))"
  by (simp add: user_synced_def fed_logout_token stored_or_id fed_logout_session fed_logout_keys_def)

lemma login_synced:
  assumes "lr_code r \<noteq> ''10020''" "lr_success r"
    and "Login exports u (Inr r) p = Done (p', res) cs" "''login'' \<in> set exports"
  shows "user_synced p' \<and> res = Fulfilled \<and> cs = []"
  using assms
  by (auto simp: Login_def login_then_def Let_def user_synced_def stored_or_id user_mutation_defs
      setItem_def getItem_def)

end
