(* ===== verification/Http_Service.thy ===== *)
theory Http_Service
  imports Store
begin

text \<open>
  The shared axios instance (\<open>browser/src/utils/request.js\<close>) with its two interceptors,
  the endpoint wrappers of \<open>browser/src/api/login.js\<close>, the translation helper of
  \<open>browser/src/utils/i18n.js\<close> with the message tables of \<open>browser/src/lang\<close>, and the wallet
  connection of \<open>browser/src/utils/web3.js\<close>. The form encoder (\<open>QS.stringify\<close>), the
  translation lookups of vue-i18n and the wallet provider are parameters.
\<close>

section \<open>The axios instance\<close>

record service_config =
  baseURL :: string
  timeout :: int

definition service :: "bool \<Rightarrow> string \<Rightarrow> service_config" where
  "service production BASE_API =
     \<lparr>baseURL = (if production then BASE_API else ''/api''), timeout = 15000\<rparr>"

text \<open>A request configuration as the interceptor sees it.\<close>

record request_config =
  cfg_url :: string
  cfg_method :: string
  cfg_data :: json
  cfg_headers :: "string \<rightharpoonup> string"
  cfg_baseURL :: string

text \<open>
  The request interceptor: the comparison with \<open>BASE_API\<close> has no effect; the token header
  is set whatever the token is, and the session timer is reset.
\<close>

definition request_interceptor :: "request_config \<Rightarrow> page \<Rightarrow> request_config \<times> page" where
  "request_interceptor config p =
     (config\<lparr>cfg_headers := (cfg_headers config)
               (''Authorization'' \<mapsto> bearer (user_accessToken (user p)))\<rparr>,
      p\<lparr>session := setItem ''time'' ''70'' (session p)\<rparr>)"

text \<open>The part of an answer the response interceptor looks at, and the answer itself.\<close>

record service_answer =
  ans_success :: bool
  ans_code :: string
  ans_body :: json

text \<open>
  The response interceptor. It always hands the body on; an unsuccessful answer with code
  \<open>-1\<close> (not logged in) also logs the user out and goes to the login page. A failed request
  shows \<open>Error\<close> and stays rejected.
\<close>

definition response_interceptor :: "service_answer \<Rightarrow> page \<Rightarrow> json \<times> page \<times> unit cmd list" where
  "response_interceptor a p =
     (if \<not> ans_success a then
        if ans_code a = ''-1''
        then (ans_body a, fst (FedLogOut p), [RouterPush (ByPath ''/fs3/login'')])
        else (ans_body a, p, [])
      else (ans_body a, p, []))"

definition response_error :: "int option \<Rightarrow> promise \<times> unit cmd list" where
  "response_error status = (RejectedHttp status, [Toast ToastError ''Error''])"

section \<open>Endpoint wrappers\<close>

definition api_logout :: "(json \<Rightarrow> string) \<Rightarrow> json \<Rightarrow> request_config" where
  "api_logout QS_stringify data =
     \<lparr>cfg_url = ''/auth/logout'', cfg_method = ''POST'', cfg_data = JStr (QS_stringify data),
      cfg_headers = Map.empty, cfg_baseURL = []\<rparr>"

definition api_webrpc :: "json \<Rightarrow> request_config" where
  "api_webrpc data =
     \<lparr>cfg_url = ''/minio/webrpc'', cfg_method = ''POST'', cfg_data = data,
      cfg_headers = Map.empty, cfg_baseURL = []\<rparr>"

text \<open>What \<open>api/login.js\<close> exports.\<close>

definition api_exports :: "string list" where
  "api_exports = [''logout'', ''webrpc'']"

section \<open>Translation\<close>

definition generateTitle :: "(string \<Rightarrow> bool) \<Rightarrow> (string \<Rightarrow> string) \<Rightarrow> string \<Rightarrow> string" where
  "generateTitle te t title =
     (let hasKey = te (''route.'' @ title); translatedTitle = t (''route.'' @ title)
      in if hasKey then translatedTitle else title)"

text \<open>
  The message tables: each locale of the application holds an empty \<open>route\<close> group, spread
  before the table of the component library, whose entries therefore win.
\<close>

definition enLocale :: "(string \<times> json) list" where
  "enLocale = [(''route'', JObj [])]"

definition zhCNLocale :: "(string \<times> json) list" where
  "zhCNLocale = [(''route'', JObj [])]"

definition zhTWLocale :: "(string \<times> json) list" where
  "zhTWLocale = [(''route'', JObj [])]"

definition spread2 :: "(string \<times> json) list \<Rightarrow> (string \<times> json) list \<Rightarrow> string \<rightharpoonup> json" where
  "spread2 a b = map_of a ++ map_of b"

definition messages ::
  "(string \<times> json) list \<Rightarrow> (string \<times> json) list \<Rightarrow> (string \<times> json) list \<Rightarrow> string \<Rightarrow> (string \<rightharpoonup> json) option" where
  "messages elementEnLocale elementZhCNLocale elementZhTWLocale loc =
     (if loc = ''en'' then Some (spread2 enLocale elementEnLocale)
      else if loc = ''cn'' then Some (spread2 zhCNLocale elementZhCNLocale)
      else if loc = ''zh_TW'' then Some (spread2 zhTWLocale elementZhTWLocale)
      else None)"

definition i18n_locale :: string where
  "i18n_locale = ''en''"

section \<open>Wallet connection\<close>

text \<open>
  How \<open>ethereum.enable()\<close> ends: with the unlocked accounts or with a reason.
\<close>

datatype enable_result = Accounts "string list" | EnableRejected string

text \<open>
  \<open>Init(callback)\<close>. The \<open>catch\<close> yields \<open>undefined\<close> or \<open>false\<close>, both of which the
  following \<open>then\<close> treats as no accounts; an empty account list is truthy and stores the
  text of \<open>undefined\<close>. The result is the address handed to the callback, if it is called.
\<close>

definition web3_Init :: "bool \<Rightarrow> enable_result \<Rightarrow> page \<Rightarrow> page \<times> unit cmd list \<times> json option" where
  "web3_Init has_ethereum r p =
     (if \<not> has_ethereum then (p, [Alert ''Consider installing MetaMask!''], None)
      else (case r of
              EnableRejected reason \<Rightarrow>
                (p, (if reason = ''User rejected provider access'' then []
                     else [Alert ''There was an issue signing you in.'']), None)
            | Accounts accounts \<Rightarrow>
                (let addr = (case accounts of [] \<Rightarrow> ''undefined'' | a # _ \<Rightarrow> a);
                     arg = (case accounts of [] \<Rightarrow> JUndef | a # _ \<Rightarrow> JStr a)
                 in (p\<lparr>session := setItem ''addrWeb'' addr (removeItem ''addrWeb'' (session p))\<rparr>,
                     [], Some arg))))"

section \<open>Properties\<close>

text \<open>
  Every request of the shared instance carries the token the store holds, and nothing
  else of the configuration is touched.
\<close>

lemma request_interceptor_header:
  "cfg_headers (fst (request_interceptor c p)) ''Authorization''
     = Some (''Bearer '' @ user_accessToken (user p))"
  by (simp add: request_interceptor_def bearer_def)

lemma request_interceptor_frame:
  "cfg_url (fst (request_interceptor c p)) = cfg_url c"
  "cfg_baseURL (fst (request_interceptor c p)) = cfg_baseURL c"
  "cfg_data (fst (request_interceptor c p)) = cfg_data c"
  "user (snd (request_interceptor c p)) = user p"
  "k \<noteq> ''Authorization'' \<Longrightarrow> cfg_headers (fst (request_interceptor c p)) k = cfg_headers c k"
  by (simp_all add: request_interceptor_def)

lemma response_interceptor_body: "fst (response_interceptor a p) = ans_body a"
  by (simp add: response_interceptor_def)

lemma response_interceptor_session:
  "\<not> (\<not> ans_success a \<and> ans_code a = ''-1'') \<Longrightarrow> response_interceptor a p = (ans_body a, p, [])"
  by (auto simp: response_interceptor_def)

text \<open>
  The next request after a "not logged in" answer goes out with an empty bearer token.
\<close>

lemma expired_session_clears_token:
  assumes "\<not> ans_success a" "ans_code a = ''-1''"
  shows "cfg_headers (fst (request_interceptor c (fst (snd (response_interceptor a p))))) ''Authorization''
    = Some ''Bearer ''"
  using assms by (simp add: response_interceptor_def request_interceptor_def fed_logout_token bearer_def)

lemma login_action_rejects:
  "Login api_exports u reply p = Done (p, RejectedWith TypeError) []"
  by (simp add: Login_def api_exports_def)

lemma generateTitle_cases: "generateTitle te t title \<in> {title, t (''route.'' @ title)}"
  by (simp add: generateTitle_def Let_def)

lemma messages_element_wins:
  "map_of el k = Some v \<Longrightarrow> messages el b c ''en'' = Some m \<Longrightarrow> m k = Some v"
  by (auto simp: messages_def spread2_def)

lemma web3_Init_connected:
  "web3_Init True (Accounts (a # as)) p = (p', cs, r) \<Longrightarrow>
     getItem (session p') ''addrWeb'' = Some a \<and> r = Some (JStr a) \<and> cs = []"
  by (auto simp: web3_Init_def setItem_def getItem_def)

lemma web3_Init_not_connected:
  "r = EnableRejected reason \<or> \<not> has \<Longrightarrow> fst (web3_Init has r p) = p \<and> snd (snd (web3_Init has r p)) = None"
  by (auto simp: web3_Init_def)

end
