(* ===== verification/Routing.thy ===== *)
theory Routing
  imports Http_Service
begin

text \<open>
  The route table (\<open>browser/src/router/index.js\<close>) and the navigation guards: the global
  guard of \<open>browser/src/permission.js\<close>, the global guard of \<open>browser/src/main.js\<close> and the
  \<open>beforeEnter\<close> guard of the file browser. Matching a location against the table is
  vue-router's work and a parameter \<open>resolve\<close> of \<open>navigate\<close>; \<open>documented_matching\<close> states
  the little the application relies on: which record the few addresses have that the application itself goes to,
  and that a match is a record of the table. How other addresses are written - in capitals, with a slash at the
  end, or unknown - and which records they match is left open. \<open>table_resolve\<close> is a matching that has these properties,
  after the rules of vue-router.
\<close>

section \<open>The route table\<close>

datatype route = Route
  (rt_path: string) (rt_name: "string option") (rt_redirect: "string option")
  (rt_component: "string option") (rt_beforeEnter: bool) (rt_meta: "(string \<times> json) list")
  (rt_children: "route list")

definition routes :: "route list" where
  "routes =
   [Route ''/'' None (Some ''/fs3'') None False [] [],
    Route ''/'' None None (Some ''home'') False []
      [Route ''/fs3'' (Some ''fs3'') None (Some ''minio'') True [] [],
       Route ''/backup'' (Some ''backup'') None (Some ''fs3_backup'') False [] [],
       Route ''/my_account'' None None (Some ''my_account'') False []
         [Route ''/'' None (Some ''/my_account/dashboard'') None False [] [],
          Route ''/my_account/dashboard'' (Some ''my_account_dashboard'') None
            (Some ''my_account_dashboard'') False [] [],
          Route ''/my_account/dashboard_detail/:type'' (Some ''my_account_dashboard_detail'') None
            (Some ''my_account_dashboard_detail'') False [] [],
          Route ''/my_account/backupPlans'' (Some ''my_account_backupPlans'') None
            (Some ''backupPlans'') False [] [],
          Route ''/my_account/myPlans'' (Some ''my_account_myPlans'') None (Some ''myPlans'') False [] [],
          Route ''/my_account/jobs'' (Some ''my_account_jobs'') None (Some ''myJobs'') False [] []]],
    Route ''/fs3/login'' (Some ''login'') None (Some ''login'') False [] [],
    Route ''*'' None (Some ''/'') None False [] []]"

text \<open>All records, children before their parent; every path of the table is absolute.\<close>

fun flat_route :: "route \<Rightarrow> route list" where
  "flat_route (Route p n rd c g m rs) = concat (map flat_route rs) @ [Route p n rd c g m rs]"

definition flat_routes :: "route list" where
  "flat_routes = concat (map flat_route routes)"

definition detail_prefix :: string where
  "detail_prefix = ''/my_account/dashboard_detail/''"

definition is_detail :: "string \<Rightarrow> bool" where
  "is_detail p \<longleftrightarrow>
     take (length detail_prefix) p = detail_prefix \<and> drop (length detail_prefix) p \<noteq> [] \<and>
     CHR ''/'' \<notin> set (drop (length detail_prefix) p)"

text \<open>The records of the addresses the application goes to, and what is shown when nothing matches.\<close>

definition fs3_record :: route where
  "fs3_record = Route ''/fs3'' (Some ''fs3'') None (Some ''minio'') True [] []"

definition login_record :: route where
  "login_record = Route ''/fs3/login'' (Some ''login'') None (Some ''login'') False [] []"

definition root_record :: route where
  "root_record = Route ''/'' None (Some ''/fs3'') None False [] []"

definition dashboard_record :: route where
  "dashboard_record = Route ''/my_account/dashboard'' (Some ''my_account_dashboard'') None (Some ''my_account_dashboard'') False [] []"

definition detail_record :: route where
  "detail_record = Route ''/my_account/dashboard_detail/:type''
     (Some ''my_account_dashboard_detail'') None (Some ''my_account_dashboard_detail'') False [] []"

definition blank_route :: route where
  "blank_route = Route [] None None None False [] []"

lemmas record_defs = fs3_record_def login_record_def root_record_def dashboard_record_def detail_record_def blank_route_def

definition documented_matching :: "(string \<Rightarrow> route option) \<Rightarrow> bool" where
  "documented_matching resolve \<longleftrightarrow>
     (\<forall>p r. resolve p = Some r \<longrightarrow> r \<in> set flat_routes) \<and>
     resolve ''/'' = Some root_record \<and> resolve ''/fs3'' = Some fs3_record \<and>
     resolve ''/fs3/login'' = Some login_record \<and> resolve ''/my_account/dashboard'' = Some dashboard_record \<and>
     resolve (detail_prefix @ ''backup_job'') = Some detail_record \<and>
     resolve (detail_prefix @ ''rebuild_job'') = Some detail_record"

definition matched_route :: "(string \<Rightarrow> route option) \<Rightarrow> string \<Rightarrow> route" where
  "matched_route resolve path = (case resolve path of None \<Rightarrow> blank_route | Some r \<Rightarrow> r)"

section \<open>Guards\<close>

datatype decision = Proceed | Redirect string "(string \<times> string) list"

record nav =
  nav_linkPageName :: "string option"
  nav_progress :: bool
  nav_scrolled :: bool

definition whiteList :: "string list" where
  "whiteList = [''/fs3/login'']"

definition truthy_item :: "web_storage \<Rightarrow> string \<Rightarrow> bool" where
  "truthy_item st k \<longleftrightarrow> (case getItem st k of None \<Rightarrow> False | Some v \<Rightarrow> v \<noteq> [])"

text \<open>The global guard of \<open>permission.js\<close>.\<close>

definition permission_guard :: "page \<Rightarrow> string \<Rightarrow> string option \<Rightarrow> nav \<Rightarrow> decision \<times> nav" where
  "permission_guard p to_path to_name n =
     (let n1 = n\<lparr>nav_progress := True, nav_linkPageName := to_name\<rparr> in
      if truthy_item (session p) ''oaxLoginUserId'' then
        (if to_path = ''/fs3/login'' then (Redirect ''/'' [], n1\<lparr>nav_progress := False\<rparr>)
         else (Proceed, n1\<lparr>nav_progress := False\<rparr>))
      else if array_indexOf whiteList to_path \<noteq> -1 then (Proceed, n1)
      else (Proceed, n1\<lparr>nav_progress := False\<rparr>))"

text \<open>The \<open>afterEach\<close> hook of \<open>permission.js\<close>.\<close>

definition after_each :: "nav \<Rightarrow> nav" where
  "after_each n = n\<lparr>nav_progress := False\<rparr>"

text \<open>The global guard of \<open>main.js\<close>: only records marked \<open>requiresAuth\<close> are protected.\<close>

definition requiresAuth :: "route \<Rightarrow> bool" where
  "requiresAuth r \<longleftrightarrow> json_truthy (json_get (JObj (rt_meta r)) ''requiresAuth'')"

definition main_guard :: "page \<Rightarrow> route list \<Rightarrow> string \<Rightarrow> nav \<Rightarrow> decision \<times> nav" where
  "main_guard p matched to_fullPath n =
     ((if list_ex requiresAuth matched then
         (if \<not> truthy_item (local p) ''token''
          then Redirect ''/fs3/login'' [(''redirect'', to_fullPath)] else Proceed)
       else Proceed),
      n\<lparr>nav_scrolled := True\<rparr>)"

text \<open>The \<open>beforeEnter\<close> guard of the file browser.\<close>

definition enter_fs3 :: "page \<Rightarrow> string \<Rightarrow> decision" where
  "enter_fs3 p to_fullPath =
     (if \<not> truthy_item (session p) ''fs3MinioLoginAccessToken''
      then Redirect ''/fs3/login'' [(''redirect'', to_fullPath)] else Proceed)"

text \<open>
  The guards of one navigation in the order they are registered: \<open>permission.js\<close> is
  imported by \<open>main.js\<close>, so its guard comes first, and \<open>beforeEnter\<close> comes last. No
  ancestor of a record of the table has a guard or meta fields of its own; when nothing matches, no record is
  marked either.
\<close>

definition run_guards :: "page \<Rightarrow> route \<Rightarrow> string \<Rightarrow> nav \<Rightarrow> decision \<times> nav" where
  "run_guards p r path n =
     (case permission_guard p path (rt_name r) n of
        (Redirect q qs, n1) \<Rightarrow> (Redirect q qs, n1)
      | (Proceed, n1) \<Rightarrow>
          (case main_guard p [r] path n1 of
             (Redirect q qs, n2) \<Rightarrow> (Redirect q qs, n2)
           | (Proceed, n2) \<Rightarrow>
               (if rt_beforeEnter r then (enter_fs3 p path, n2) else (Proceed, n2))))"

text \<open>
  A navigation to a path, as vue-router makes it: a redirecting record is replaced by its target, a guard's redirect
  starts over. Each of the two spends one unit of fuel; \<open>None\<close> is a navigation still
  redirecting. The result is the record shown, the query it is shown with and the navigation state
  after \<open>afterEach\<close>.
\<close>

fun navigate :: "(string \<Rightarrow> route option) \<Rightarrow> page \<Rightarrow> nat \<Rightarrow> string \<Rightarrow> (string \<times> string) list \<Rightarrow> nav
    \<Rightarrow> (route \<times> (string \<times> string) list \<times> nav) option" where
  "navigate resolve p 0 path qs n = None"
| "navigate resolve p (Suc fuel) path qs n =
     (let r = matched_route resolve path
      in case rt_redirect r of
           Some q \<Rightarrow> navigate resolve p fuel q qs n
         | None \<Rightarrow>
             (case run_guards p r path n of
                (Redirect q qs', n') \<Rightarrow> navigate resolve p fuel q qs' n'
              | (Proceed, n') \<Rightarrow> Some (r, qs, after_each n')))"

text \<open>The patched \<open>push\<close>: a rejected navigation is swallowed, its reason returned as a value.\<close>

definition patched_push :: "('e + 'r) \<Rightarrow> ('e + 'r)" where
  "patched_push res = (case res of Inl err \<Rightarrow> Inl err | Inr r \<Rightarrow> Inr r)"

section \<open>Matching facts\<close>

lemma no_requiresAuth: "r \<in> set (blank_route # flat_routes) \<Longrightarrow> \<not> requiresAuth r"
  by (auto simp: flat_routes_def routes_def requiresAuth_def blank_route_def)

lemma in_table:
  "root_record \<in> set flat_routes" "fs3_record \<in> set flat_routes" "login_record \<in> set flat_routes"
  "dashboard_record \<in> set flat_routes" "detail_record \<in> set flat_routes"
  by (simp_all add: flat_routes_def routes_def record_defs)

lemma matching_in_table:
  assumes "documented_matching resolve"
  shows "matched_route resolve p \<in> set (blank_route # flat_routes)"
  using assms by (auto simp: documented_matching_def matched_route_def split: option.split)

lemma resolve_root: "documented_matching resolve \<Longrightarrow> matched_route resolve ''/'' = root_record"
  by (simp add: documented_matching_def matched_route_def)

lemma resolve_fs3: "documented_matching resolve \<Longrightarrow> matched_route resolve ''/fs3'' = fs3_record"
  by (simp add: documented_matching_def matched_route_def)

lemma resolve_login: "documented_matching resolve \<Longrightarrow> matched_route resolve ''/fs3/login'' = login_record"
  by (simp add: documented_matching_def matched_route_def)

lemma resolve_dashboard: "documented_matching resolve \<Longrightarrow> matched_route resolve ''/my_account/dashboard'' = dashboard_record"
  by (simp add: documented_matching_def matched_route_def)

lemma resolve_detail:
  "documented_matching resolve \<Longrightarrow> t \<in> {''backup_job'', ''rebuild_job''} \<Longrightarrow> matched_route resolve (detail_prefix @ t) = detail_record"
  by (auto simp: documented_matching_def matched_route_def)

lemma route_facts:
  "rt_redirect root_record = Some ''/fs3''"
  "rt_redirect fs3_record = None"
  "rt_beforeEnter fs3_record"
  "rt_name fs3_record = Some ''fs3''"
  "rt_redirect login_record = None"
  "\<not> rt_beforeEnter login_record"
  "rt_name login_record = Some ''login''"
  by (simp_all add: record_defs)

lemma table_redirects:
  "list_all (\<lambda>r. rt_redirect r \<in> {None, Some ''/fs3'', Some ''/'', Some ''/my_account/dashboard''}) (blank_route # flat_routes)"
  by (simp add: flat_routes_def routes_def blank_route_def)

lemma table_beforeEnter: "filter rt_beforeEnter (blank_route # flat_routes) = [fs3_record]"
  by (simp add: flat_routes_def routes_def record_defs)

lemma redirect_cases:
  "r \<in> set (blank_route # flat_routes) \<Longrightarrow>
     rt_redirect r \<in> {None, Some ''/fs3'', Some ''/'', Some ''/my_account/dashboard''}"
  using table_redirects by (simp only: list_all_iff)

lemma beforeEnter_iff: "r \<in> set (blank_route # flat_routes) \<Longrightarrow> rt_beforeEnter r \<longleftrightarrow> r = fs3_record"
proof -
  assume "r \<in> set (blank_route # flat_routes)"
  then have "rt_beforeEnter r \<longleftrightarrow> r \<in> set (filter rt_beforeEnter (blank_route # flat_routes))" unfolding set_filter by blast
  then show ?thesis by (simp only: table_beforeEnter) simp
qed

section \<open>Guard facts\<close>

lemma main_guard_open:
  "r \<in> set (blank_route # flat_routes) \<Longrightarrow> main_guard p [r] path n = (Proceed, n\<lparr>nav_scrolled := True\<rparr>)"
  by (simp add: main_guard_def no_requiresAuth)

lemma run_guards_cases:
  assumes "r \<in> set (blank_route # flat_routes)"
  shows "fst (run_guards p r path n) =
    (if truthy_item (session p) ''oaxLoginUserId'' \<and> path = ''/fs3/login'' then Redirect ''/'' []
     else if rt_beforeEnter r \<and> \<not> truthy_item (session p) ''fs3MinioLoginAccessToken''
       then Redirect ''/fs3/login'' [(''redirect'', path)]
     else Proceed)"
  using main_guard_open [OF assms]
  by (simp add: run_guards_def permission_guard_def enter_fs3_def Let_def)

lemma navigate_redirect:
  "matched_route resolve path = r \<Longrightarrow> rt_redirect r = Some q \<Longrightarrow>
     navigate resolve p (Suc f) path qs n = navigate resolve p f q qs n"
  by simp

lemma navigate_guard_redirect:
  assumes "matched_route resolve path = r" "rt_redirect r = None"
    and "fst (run_guards p r path n) = Redirect q qs'"
  shows "\<exists>n'. navigate resolve p (Suc f) path qs n = navigate resolve p f q qs' n'"
  using assms by (cases "run_guards p r path n") auto

lemma navigate_proceed:
  assumes "matched_route resolve path = r" "rt_redirect r = None"
    and "fst (run_guards p r path n) = Proceed"
  shows "\<exists>n'. navigate resolve p (Suc f) path qs n = Some (r, qs, n') \<and> \<not> nav_progress n'"
  using assms by (cases "run_guards p r path n") (auto simp: after_each_def)

text \<open>A consistent session: whoever has a user id also has a token.\<close>

definition session_consistent :: "page \<Rightarrow> bool" where
  "session_consistent p \<longleftrightarrow>
     (truthy_item (session p) ''oaxLoginUserId'' \<longrightarrow>
      truthy_item (session p) ''fs3MinioLoginAccessToken'')"

lemma navigate_login:
  assumes "documented_matching resolve" "\<not> truthy_item (session p) ''oaxLoginUserId''"
  shows "\<exists>n'. navigate resolve p (Suc f) ''/fs3/login'' qs n = Some (login_record, qs, n') \<and> \<not> nav_progress n'"
proof -
  have "login_record \<in> set (blank_route # flat_routes)" using in_table by simp
  from run_guards_cases [OF this, of p "''/fs3/login''" n] assms(2)
  have "fst (run_guards p login_record ''/fs3/login'' n) = Proceed" by (simp add: route_facts)
  with resolve_login [OF assms(1)] show ?thesis
    by (intro navigate_proceed) (simp_all add: route_facts)
qed

lemma navigate_fs3:
  assumes "documented_matching resolve" "session_consistent p"
  shows "\<exists>r qs' n'. navigate resolve p (Suc (Suc f)) ''/fs3'' qs n = Some (r, qs', n') \<and>
     (if truthy_item (session p) ''fs3MinioLoginAccessToken''
      then r = fs3_record \<and> qs' = qs
      else r = login_record \<and> qs' = [(''redirect'', ''/fs3'')])"
proof -
  let ?r = fs3_record
  have "?r \<in> set (blank_route # flat_routes)" using in_table by simp
  note g = run_guards_cases [OF this, of p "''/fs3''" n]
  note res = resolve_fs3 [OF assms(1)]
  show ?thesis
  proof (cases "truthy_item (session p) ''fs3MinioLoginAccessToken''")
    case True
    with g have "fst (run_guards p ?r ''/fs3'' n) = Proceed" by simp
    with res True show ?thesis
      using navigate_proceed [of resolve "''/fs3''" ?r p n "Suc f" qs] by (auto simp: route_facts)
  next
    case False
    with g have "fst (run_guards p ?r ''/fs3'' n) = Redirect ''/fs3/login'' [(''redirect'', ''/fs3'')]"
      by (simp add: route_facts)
    then obtain n' where "navigate resolve p (Suc (Suc f)) ''/fs3'' qs n
        = navigate resolve p (Suc f) ''/fs3/login'' [(''redirect'', ''/fs3'')] n'"
      using navigate_guard_redirect [of resolve "''/fs3''", OF res] route_facts(2) by blast
    moreover have "\<not> truthy_item (session p) ''oaxLoginUserId''"
      using False assms(2) by (simp add: session_consistent_def)
    ultimately show ?thesis using navigate_login [OF assms(1)] False by metis
  qed
qed

section \<open>Properties of navigation\<close>

text \<open>
  A matching after the rules of vue-router: paths are compared without a slash at the end and without regard to
  case, the children of a record come before it, a path that a record has already is not taken again, and the
  catch-all record comes last. The default child of the account section has the path \<open>/\<close>, which
  is that of its parent once its slash is dropped.
\<close>

definition plain_path :: "string \<Rightarrow> string" where
  "plain_path p =
     map lower (if p \<noteq> [] \<and> last p = CHR ''/'' then butlast p else p)"

fun listed_paths :: "string \<Rightarrow> route \<Rightarrow> (string \<times> route) list" where
  "listed_paths parent (Route p n rd c g m rs) =
     (let q = (if p = ''/'' then parent else p) in concat (map (listed_paths q) rs) @ [(q, Route p n rd c g m rs)])"

definition path_matches :: "string \<Rightarrow> string \<Rightarrow> bool" where
  "path_matches pattern p \<longleftrightarrow>
     pattern = ''*'' \<or> plain_path pattern = plain_path p \<or> pattern = detail_prefix @ '':type'' \<and> is_detail (plain_path p)"

definition table_resolve :: "string \<Rightarrow> route option" where
  "table_resolve p = map_option snd (List.find (\<lambda>(pattern, r). path_matches pattern p) (concat (map (listed_paths []) routes)))"

lemma table_resolve_addresses:
  "table_resolve ''/'' = Some root_record" "table_resolve ''/fs3'' = Some fs3_record"
  "table_resolve ''/fs3/login'' = Some login_record" "table_resolve ''/my_account/dashboard'' = Some dashboard_record"
  by code_simp+

lemma table_resolve_details:
  "table_resolve (detail_prefix @ ''backup_job'') = Some detail_record"
  "table_resolve (detail_prefix @ ''rebuild_job'') = Some detail_record"
  by code_simp+

lemma table_resolve_documented: "documented_matching table_resolve"
proof -
  have "snd ` set (concat (map (listed_paths []) routes)) \<subseteq> set flat_routes"
    by (simp add: routes_def flat_routes_def Let_def)
  moreover have "\<exists>q. (q, r) \<in> set xs" if "map_option snd (List.find P xs) = Some r" for P and xs :: "(string \<times> route) list" and r
    using that by (auto simp: find_Some_iff) (metis nth_mem)
  ultimately have "r \<in> set flat_routes" if "table_resolve p = Some r" for p r
    using that unfolding table_resolve_def by (metis image_subset_iff snd_conv)
  moreover note table_resolve_addresses table_resolve_details
  ultimately show ?thesis by (simp add: documented_matching_def)
qed

text \<open>Other ways to write an address, an unknown one, and the account section, which goes to its dashboard.\<close>

lemma table_resolve_examples:
  "table_resolve ''/FS3'' = Some fs3_record" "table_resolve ''/fs3/'' = Some fs3_record"
  "map_option rt_redirect (table_resolve ''/no/such/page'') = Some (Some ''/'')"
  "map_option rt_redirect (table_resolve ''/my_account'') = Some (Some ''/my_account/dashboard'')"
  by code_simp+

definition anonymous :: page where
  "anonymous = store_init Map.empty Map.empty"

definition stale_session :: page where
  "stale_session = store_init [''oaxLoginUserId'' \<mapsto> ''7''] Map.empty"

definition idle_nav :: nav where
  "idle_nav = \<lparr>nav_linkPageName = None, nav_progress = False, nav_scrolled = False\<rparr>"

lemma truthy_item_eq [simp]:
  "truthy_item st k \<longleftrightarrow> (\<exists>v. st k = Some v \<and> v \<noteq> [])"
  by (auto simp: truthy_item_def getItem_def split: option.split)

lemma anonymous_consistent: "session_consistent anonymous"
  by (simp add: session_consistent_def anonymous_def store_init_def)

lemma navigate_root:
  assumes "documented_matching resolve"
  shows "navigate resolve p (Suc f) ''/'' qs n = navigate resolve p f ''/fs3'' qs n"
  using resolve_root [OF assms] by (simp add: route_facts Let_def)

lemma resolves_after_redirect:
  assumes "documented_matching resolve" "session_consistent p"
    and "q \<in> {''/fs3'', ''/'', ''/my_account/dashboard''}"
  shows "\<exists>r qs' n'. navigate resolve p (Suc (Suc (Suc f))) q qs n = Some (r, qs', n')"
proof -
  have dash: "dashboard_record \<in> set (blank_route # flat_routes)" "rt_redirect dashboard_record = None" "\<not> rt_beforeEnter dashboard_record"
    using in_table by (simp_all add: dashboard_record_def)
  have "\<exists>r qs' n'. navigate resolve p (Suc (Suc (Suc f))) ''/my_account/dashboard'' qs n = Some (r, qs', n')"
    using run_guards_cases [OF dash(1), of p "''/my_account/dashboard''" n] dash(3)
      navigate_proceed [of resolve "''/my_account/dashboard''", OF resolve_dashboard [OF assms(1)] dash(2), of p n "Suc (Suc f)" qs] by auto
  moreover have "\<exists>r qs' n'. navigate resolve p (Suc (Suc (Suc f))) ''/fs3'' qs n = Some (r, qs', n')"
    using navigate_fs3 [OF assms(1,2)] by blast
  moreover have "\<exists>r qs' n'. navigate resolve p (Suc (Suc (Suc f))) ''/'' qs n = Some (r, qs', n')"
    unfolding navigate_root [OF assms(1)] using navigate_fs3 [OF assms(1,2)] by blast
  ultimately show ?thesis using assms(3) by blast
qed

lemma navigate_settles:
  assumes "documented_matching resolve" "session_consistent p"
  shows "\<exists>r qs' n'. navigate resolve p (Suc (Suc (Suc (Suc f)))) path qs n = Some (r, qs', n')"
proof -
  obtain r where r: "matched_route resolve path = r" "r \<in> set (blank_route # flat_routes)"
    using matching_in_table [OF assms(1)] by blast
  show ?thesis
  proof (cases "rt_redirect r")
    case (Some q)
    with redirect_cases [OF r(2)] have "q \<in> {''/fs3'', ''/'', ''/my_account/dashboard''}" by auto
    from resolves_after_redirect [OF assms this] show ?thesis
      using navigate_redirect [of resolve path, OF r(1) Some] by (simp del: navigate.simps)
  next
    case None
    show ?thesis
    proof (cases "fst (run_guards p r path n)")
      case Proceed
      from navigate_proceed [of resolve path, OF r(1) None this] show ?thesis by blast
    next
      case (Redirect q qs')
      obtain n' where nav: "navigate resolve p (Suc (Suc (Suc (Suc f)))) path qs n
          = navigate resolve p (Suc (Suc (Suc f))) q qs' n'"
        using navigate_guard_redirect [of resolve path, OF r(1) None Redirect] by blast
      from run_guards_cases [OF r(2), of p path n] Redirect
      have "q = ''/'' \<or> (q = ''/fs3/login'' \<and> \<not> truthy_item (session p) ''fs3MinioLoginAccessToken'')"
        by (auto simp del: truthy_item_eq split: if_splits)
      then show ?thesis
      proof
        assume "q = ''/''"
        then show ?thesis using nav resolves_after_redirect [OF assms, of "''/''"] by auto
      next
        assume q: "q = ''/fs3/login'' \<and> \<not> truthy_item (session p) ''fs3MinioLoginAccessToken''"
        then have "\<not> truthy_item (session p) ''oaxLoginUserId''"
          using assms(2) by (auto simp: session_consistent_def simp del: truthy_item_eq)
        from navigate_login [OF assms(1) this] show ?thesis using nav q by metis
      qed
    qed
  qed
qed

text \<open>C3: every navigation of a consistent session arrives at a page: from any location, at
  most three redirects (catch-all, root, login) happen before the guards let a record
  through.\<close>

theorem navigation_resolves:
  assumes "documented_matching resolve" "session_consistent p"
  shows "\<exists>r qs' n'. navigate resolve p (Suc (Suc (Suc (Suc f)))) path qs n = Some (r, qs', n')"
  by (rule navigate_settles [OF assms])

theorem navigation_resolves_witness:
  "\<exists>r qs' n'. navigate table_resolve anonymous 4 ''/no/such/page'' [] idle_nav = Some (r, qs', n')"
  using navigation_resolves [OF table_resolve_documented anonymous_consistent,
      of 0 "''/no/such/page''" "[]" idle_nav]
  by (simp add: numeral_eq_Suc)

text \<open>C37: a session that kept the user id but lost the token never settles: the login page
  sends it to the file browser and the file browser sends it to the login page, whatever the
  fuel.\<close>

theorem stale_session_never_settles:
  assumes "documented_matching resolve" "truthy_item (session p) ''oaxLoginUserId''"
    and "\<not> truthy_item (session p) ''fs3MinioLoginAccessToken''"
    and "path \<in> {''/'', ''/fs3'', ''/fs3/login''}"
  shows "navigate resolve p fuel path qs n = None"
  using assms(4)
proof (induction fuel arbitrary: path qs n)
  case 0
  show ?case by simp
next
  case (Suc fuel)
  have in_table: "fs3_record \<in> set (blank_route # flat_routes)" "login_record \<in> set (blank_route # flat_routes)"
    using in_table by simp_all
  from Suc.prems show ?case
  proof (elim insertE emptyE)
    assume "path = ''/''"
    then show ?thesis using Suc.IH [of "''/fs3''"] navigate_root [OF assms(1)] by simp
  next
    assume path: "path = ''/fs3''"
    have "fst (run_guards p fs3_record ''/fs3'' n) = Redirect ''/fs3/login'' [(''redirect'', ''/fs3'')]"
      using run_guards_cases [OF in_table(1), of p "''/fs3''" n] assms(2,3)
      by (simp add: route_facts del: truthy_item_eq)
    from navigate_guard_redirect [of resolve "''/fs3''", OF resolve_fs3 [OF assms(1)] route_facts(2) this]
    show ?thesis using Suc.IH [of "''/fs3/login''"] path by (metis insertCI)
  next
    assume path: "path = ''/fs3/login''"
    have "fst (run_guards p login_record ''/fs3/login'' n) = Redirect ''/'' []"
      using run_guards_cases [OF in_table(2), of p "''/fs3/login''" n] assms(2,3)
      by (simp del: truthy_item_eq)
    from navigate_guard_redirect [of resolve "''/fs3/login''", OF resolve_login [OF assms(1)] route_facts(5) this]
    show ?thesis using Suc.IH [of "''/''"] path by (metis insertCI)
  qed
qed

theorem stale_session_never_settles_witness:
  "navigate table_resolve stale_session 100 ''/fs3'' [] idle_nav = None"
  by (rule stale_session_never_settles [OF table_resolve_documented])
    (simp_all add: stale_session_def store_init_def)

lemma navigate_arrival:
  assumes "documented_matching resolve" "navigate resolve p fuel path qs n = Some (r, qs', n')"
  shows "\<exists>path' m. r \<in> set (blank_route # flat_routes) \<and> rt_redirect r = None \<and> fst (run_guards p r path' m) = Proceed
    \<and> \<not> nav_progress n'"
  using assms(2)
proof (induction fuel arbitrary: path qs n)
  case 0
  then show ?case by simp
next
  case (Suc fuel)
  define r0 where "r0 = matched_route resolve path"
  have r0: "matched_route resolve path = r0" "r0 \<in> set (blank_route # flat_routes)"
    unfolding r0_def using matching_in_table [OF assms(1)] by blast+
  show ?case
  proof (cases "rt_redirect r0")
    case (Some q)
    with Suc r0(1) show ?thesis by (simp add: Let_def)
  next
    case None
    show ?thesis
    proof (cases "run_guards p r0 path n")
      case (Pair d m)
      show ?thesis
      proof (cases d)
        case Proceed
        with Suc.prems r0(1) None Pair have "r = r0" "n' = after_each m" by (simp_all add: Let_def)
        with r0(2) None Pair Proceed show ?thesis by (intro exI [of _ path] exI [of _ n]) (simp add: after_each_def)
      next
        case (Redirect q qs1)
        with Suc.prems r0(1) None Pair have "navigate resolve p fuel q qs1 m = Some (r, qs', n')" by (simp add: Let_def)
        then show ?thesis by (rule Suc.IH)
      qed
    qed
  qed
qed

lemma navigate_guarded:
  assumes "documented_matching resolve" "navigate resolve p fuel path qs n = Some (r, qs', n')"
  shows "(rt_name r = Some ''fs3'' \<longrightarrow> truthy_item (session p) ''fs3MinioLoginAccessToken'')
    \<and> \<not> nav_progress n'"
proof -
  obtain path' m where a: "r \<in> set (blank_route # flat_routes)" "fst (run_guards p r path' m) = Proceed" "\<not> nav_progress n'"
    using navigate_arrival [OF assms] by blast
  have "list_all (\<lambda>x. rt_name x = Some ''fs3'' \<longrightarrow> rt_beforeEnter x) (blank_route # flat_routes)"
    by (simp add: flat_routes_def routes_def blank_route_def)
  with a(1) have "rt_name r = Some ''fs3'' \<longrightarrow> rt_beforeEnter r" unfolding list_all_iff by blast
  with a run_guards_cases [OF a(1), of p path' m] show ?thesis
    by (auto simp del: truthy_item_eq split: if_splits)
qed

text \<open>The file browser is only ever shown to a session that holds an access token, and
  the progress bar is always finished on arrival.\<close>

theorem fs3_requires_token:
  assumes "documented_matching resolve" "navigate resolve p fuel path qs n = Some (r, qs', n')"
  shows "(rt_name r = Some ''fs3'' \<longrightarrow> truthy_item (session p) ''fs3MinioLoginAccessToken'')
    \<and> \<not> nav_progress n'"
  by (rule navigate_guarded [OF assms])

theorem fs3_requires_token_witness:
  "\<exists>r qs' n'. navigate table_resolve anonymous 4 ''/fs3'' [] idle_nav = Some (r, qs', n')
     \<and> rt_name r \<noteq> Some ''fs3'' \<and> \<not> nav_progress n'"
proof -
  have "\<exists>r qs' n'. navigate table_resolve anonymous 4 ''/fs3'' [] idle_nav = Some (r, qs', n')"
    using navigate_fs3 [OF table_resolve_documented anonymous_consistent, of "Suc (Suc 0)" "[]" idle_nav]
    by (auto simp: numeral_eq_Suc simp del: navigate.simps)
  then obtain r qs' n' where nav: "navigate table_resolve anonymous 4 ''/fs3'' [] idle_nav = Some (r, qs', n')"
    by blast
  from fs3_requires_token [OF table_resolve_documented nav] nav show ?thesis
    by (auto simp: anonymous_def store_init_def)
qed

text \<open>The guards called login control protect the file browser only: without any session
  every other page of the table, the account pages included, is entered directly.\<close>

theorem other_pages_unguarded:
  assumes "r \<in> set flat_routes" "rt_name r \<noteq> Some ''fs3''"
    and "\<not> truthy_item (session p) ''oaxLoginUserId''"
  shows "fst (run_guards p r path n) = Proceed"
proof -
  have "list_all (\<lambda>x. rt_beforeEnter x \<longrightarrow> rt_name x = Some ''fs3'') flat_routes"
    by (simp add: flat_routes_def routes_def)
  with assms(1,2) have "\<not> rt_beforeEnter r" by (auto simp: list_all_iff)
  moreover have "r \<in> set (blank_route # flat_routes)" using assms(1) by simp
  ultimately show ?thesis
    using assms(3) run_guards_cases [of r p path n] by (simp del: truthy_item_eq)
qed

theorem other_pages_unguarded_witness:
  "\<exists>r \<in> set flat_routes. rt_name r = Some ''my_account_myPlans''
     \<and> fst (run_guards anonymous r ''/my_account/myPlans'' idle_nav) = Proceed"
proof -
  let ?r = "Route ''/my_account/myPlans'' (Some ''my_account_myPlans'') None (Some ''myPlans'') False [] []"
  have r: "?r \<in> set flat_routes" by (simp add: flat_routes_def routes_def)
  have "fst (run_guards anonymous ?r ''/my_account/myPlans'' idle_nav) = Proceed"
    by (rule other_pages_unguarded [OF r]) (simp_all add: anonymous_def store_init_def)
  with r show ?thesis by (intro bexI [of _ ?r]) simp_all
qed

end
