(* ===== verification/Js_Date.thy ===== *)
theory Js_Date
  imports Js_Number
begin

text \<open>
  The \<open>Date\<close> object of the language: a time value in milliseconds since 1970 (UTC), and its
  calendar fields in local time. The offset of local time from UTC is the environment's, a
  parameter \<open>tz\<close> from the time value to milliseconds. The calendar is the proleptic Gregorian
  one of ECMA-262, computed from the day number by 400-, 100-, 4- and 1-year cycles that
  start on the first of March; \<open>day_number_civil\<close> shows it inverts the usual day count.
\<close>

section \<open>Calendar\<close>

text \<open>Day number to year, month (1 to 12) and day of the month.\<close>

definition civil_of_days :: "int \<Rightarrow> int \<times> int \<times> int" where
  "civil_of_days days =
     (let z = days + 719468; era = z div 146097; doe = z mod 146097;
          c = min 3 (doe div 36524); r1 = doe - 36524 * c;
          q = r1 div 1461; r2 = r1 - 1461 * q;
          yy = min 3 (r2 div 365); doy = r2 - 365 * yy;
          mp = (5 * doy + 2) div 153; d = doy - (153 * mp + 2) div 5 + 1;
          m = (if mp < 10 then mp + 3 else mp - 9);
          y = 400 * era + 100 * c + 4 * q + yy
      in (if m \<le> 2 then y + 1 else y, m, d))"

text \<open>The day number of a date: days of whole years, of whole months, and the day.\<close>

definition days_of_civil :: "int \<times> int \<times> int \<Rightarrow> int" where
  "days_of_civil ymd =
     (case ymd of (y, m, d) \<Rightarrow>
        let y' = (if m \<le> 2 then y - 1 else y); mp = (if m > 2 then m - 3 else m + 9)
        in 365 * y' + y' div 4 - y' div 100 + y' div 400 + (153 * mp + 2) div 5 + d - 1 - 719468)"

lemma cycle_100:
  fixes doe :: int
  assumes "0 \<le> doe" "doe < 146097"
  defines "c \<equiv> min 3 (doe div 36524)"
  shows "0 \<le> c \<and> c \<le> 3 \<and> 0 \<le> doe - 36524 * c \<and> doe - 36524 * c \<le> 36524
    \<and> (doe - 36524 * c = 36524 \<longrightarrow> c = 3)"
  unfolding c_def using assms(1,2) by (auto simp: min_def)

lemma cycle_4:
  fixes r1 :: int
  assumes "0 \<le> r1" "r1 \<le> 36524"
  defines "q \<equiv> r1 div 1461"
  shows "0 \<le> q \<and> q \<le> 24 \<and> 0 \<le> r1 - 1461 * q \<and> r1 - 1461 * q \<le> 1460"
  unfolding q_def using assms(1,2) by (auto simp: minus_mult_div_eq_mod)

lemma cycle_1:
  fixes r2 :: int
  assumes "0 \<le> r2" "r2 \<le> 1460"
  defines "yy \<equiv> min 3 (r2 div 365)"
  shows "0 \<le> yy \<and> yy \<le> 3 \<and> 0 \<le> r2 - 365 * yy \<and> r2 - 365 * yy \<le> 365"
  unfolding yy_def using assms(1,2) by (auto simp: min_def)

lemma month_of_doy:
  fixes doy :: int
  assumes "0 \<le> doy" "doy \<le> 365"
  defines "mp \<equiv> (5 * doy + 2) div 153"
  shows "0 \<le> mp \<and> mp \<le> 11 \<and> 0 \<le> doy - (153 * mp + 2) div 5 \<and> doy - (153 * mp + 2) div 5 \<le> 30"
proof -
  have b: "153 * mp \<le> 5 * doy + 2" "5 * doy + 2 < 153 * mp + 153"
    unfolding mp_def by simp_all
  then have "0 \<le> mp" "mp \<le> 11" using assms by auto
  moreover have "5 * ((153 * mp + 2) div 5) \<le> 153 * mp + 2" "153 * mp + 2 < 5 * ((153 * mp + 2) div 5) + 5"
    by simp_all
  ultimately show ?thesis using b by auto
qed

lemma civil_of_days_fields:
  assumes "civil_of_days days = (y, m, d)"
  obtains era c q yy doy mp where
    "0 \<le> c" "c \<le> 3" "0 \<le> q" "q \<le> 24" "0 \<le> yy" "yy \<le> 3" "0 \<le> doy" "doy \<le> 365"
    "0 \<le> mp" "mp \<le> 11" "0 \<le> doy - (153 * mp + 2) div 5" "doy - (153 * mp + 2) div 5 \<le> 30"
    "days + 719468 = 146097 * era + 36524 * c + 1461 * q + 365 * yy + doy"
    "d = doy - (153 * mp + 2) div 5 + 1" "m = (if mp < 10 then mp + 3 else mp - 9)"
    "y = (if m \<le> 2 then 400 * era + 100 * c + 4 * q + yy + 1 else 400 * era + 100 * c + 4 * q + yy)"
proof -
  define era where "era = (days + 719468) div 146097"
  define doe where "doe = (days + 719468) mod 146097"
  define c where "c = min 3 (doe div 36524)"
  define r1 where "r1 = doe - 36524 * c"
  define q where "q = r1 div 1461"
  define r2 where "r2 = r1 - 1461 * q"
  define yy where "yy = min 3 (r2 div 365)"
  define doy where "doy = r2 - 365 * yy"
  define mp where "mp = (5 * doy + 2) div 153"
  note defs = era_def doe_def c_def r1_def q_def r2_def yy_def doy_def mp_def
  have doe: "0 \<le> doe" "doe < 146097" by (simp_all add: doe_def)
  note c = cycle_100 [OF doe, folded c_def, folded r1_def]
  have r1: "0 \<le> r1" "r1 \<le> 36524" using c by auto
  note q = cycle_4 [OF r1, folded q_def, folded r2_def]
  have r2: "0 \<le> r2" "r2 \<le> 1460" using q by auto
  note yy = cycle_1 [OF r2, folded yy_def, folded doy_def]
  have doy: "0 \<le> doy" "doy \<le> 365" using yy by auto
  note mp = month_of_doy [OF doy, folded mp_def]
  have sum: "days + 719468 = 146097 * era + 36524 * c + 1461 * q + 365 * yy + doy"
  proof -
    have "days + 719468 = 146097 * era + doe" by (simp add: era_def doe_def)
    then show ?thesis by (simp add: doy_def r2_def r1_def)
  qed
  have "civil_of_days days =
      (if (if mp < 10 then mp + 3 else mp - 9) \<le> 2 then 400 * era + 100 * c + 4 * q + yy + 1
       else 400 * era + 100 * c + 4 * q + yy,
       if mp < 10 then mp + 3 else mp - 9, doy - (153 * mp + 2) div 5 + 1)"
    by (simp only: civil_of_days_def Let_def defs [symmetric])
  with assms have fields: "d = doy - (153 * mp + 2) div 5 + 1" "m = (if mp < 10 then mp + 3 else mp - 9)"
    "y = (if m \<le> 2 then 400 * era + 100 * c + 4 * q + yy + 1 else 400 * era + 100 * c + 4 * q + yy)"
    by auto
  show ?thesis
    by (rule that [of c q yy doy mp era]) (use c q yy doy mp sum fields in auto)
qed

lemma civil_bounds:
  assumes "civil_of_days days = (y, m, d)"
  shows "1 \<le> m \<and> m \<le> 12 \<and> 1 \<le> d \<and> d \<le> 31"
  using assms by (rule civil_of_days_fields) (auto split: if_splits)

lemma day_number_civil: "days_of_civil (civil_of_days days) = days"
proof -
  obtain y m d where ymd: "civil_of_days days = (y, m, d)" by (cases "civil_of_days days")
  then obtain era c q yy doy mp where f:
    "0 \<le> c" "c \<le> 3" "0 \<le> q" "q \<le> 24" "0 \<le> yy" "yy \<le> 3" "0 \<le> mp" "mp \<le> 11"
    "days + 719468 = 146097 * era + 36524 * c + 1461 * q + 365 * yy + doy"
    "d = doy - (153 * mp + 2) div 5 + 1" "m = (if mp < 10 then mp + 3 else mp - 9)"
    "y = (if m \<le> 2 then 400 * era + 100 * c + 4 * q + yy + 1 else 400 * era + 100 * c + 4 * q + yy)"
    by (rule civil_of_days_fields)
  define y' where "y' = 400 * era + 100 * c + 4 * q + yy"
  have shift: "(if m \<le> 2 then y - 1 else y) = y'" "(if m > 2 then m - 3 else m + 9) = mp"
    using f(7,8,11,12) by (auto simp: y'_def)
  have "y' div 4 = 100 * era + 25 * c + q"
    using f(5,6) by (simp add: y'_def)
  moreover have "y' div 100 = 4 * era + c"
    using f(3-6) by (simp add: y'_def)
  moreover have "y' div 400 = era"
    using f(1-6) by (simp add: y'_def)
  ultimately show ?thesis
    unfolding ymd days_of_civil_def prod.case Let_def shift using f(9,10) by (simp add: y'_def)
qed

section \<open>Date objects\<close>

record date_parts =
  dt_year :: int
  dt_month :: int
  dt_date :: int
  dt_hours :: int
  dt_minutes :: int
  dt_seconds :: int
  dt_day :: int

text \<open>The fields of a local time, in milliseconds.\<close>

definition parts_of_local :: "int \<Rightarrow> date_parts" where
  "parts_of_local t =
     (let days = t div 86400000; ms = t mod 86400000; (y, m, d) = civil_of_days days
      in \<lparr>dt_year = y, dt_month = m - 1, dt_date = d, dt_hours = ms div 3600000,
          dt_minutes = ms div 60000 mod 60, dt_seconds = ms div 1000 mod 60,
          dt_day = (days + 4) mod 7\<rparr>)"

text \<open>
  \<open>new Date(x)\<close> from a number: the time value truncated to an integer, \<open>None\<close> (an invalid
  date) for \<open>NaN\<close>, the infinities and values beyond \<open>8.64e15\<close> milliseconds.
\<close>

definition date_of_num :: "jsnum \<Rightarrow> int option" where
  "date_of_num x =
     (case x of
        Fin a \<Rightarrow> (if 8640000000000000 < \<bar>a\<bar> then None
                  else Some (if a < 0 then - \<lfloor>- a\<rfloor> else \<lfloor>a\<rfloor>))
      | _ \<Rightarrow> None)"

definition date_fields :: "(int \<Rightarrow> int) \<Rightarrow> int option \<Rightarrow> date_parts option" where
  "date_fields tz d = map_option (\<lambda>t. parts_of_local (t + tz t)) d"

lemma parts_bounds:
  fixes t :: int
  defines "p \<equiv> parts_of_local t"
  shows "0 \<le> dt_month p" "dt_month p \<le> 11" "1 \<le> dt_date p" "dt_date p \<le> 31"
    "0 \<le> dt_hours p" "dt_hours p \<le> 23" "0 \<le> dt_minutes p" "dt_minutes p \<le> 59"
    "0 \<le> dt_seconds p" "dt_seconds p \<le> 59" "0 \<le> dt_day p" "dt_day p \<le> 6"
proof -
  obtain y m d where ymd: "civil_of_days (t div 86400000) = (y, m, d)"
    by (cases "civil_of_days (t div 86400000)")
  note b = civil_bounds [OF ymd]
  have ms: "0 \<le> t mod 86400000" "t mod 86400000 < 86400000" by simp_all
  have p: "p = \<lparr>dt_year = y, dt_month = m - 1, dt_date = d, dt_hours = t mod 86400000 div 3600000,
      dt_minutes = t mod 86400000 div 60000 mod 60, dt_seconds = t mod 86400000 div 1000 mod 60,
      dt_day = (t div 86400000 + 4) mod 7\<rparr>"
    by (simp add: p_def parts_of_local_def Let_def ymd)
  show "0 \<le> dt_month p" "dt_month p \<le> 11" "1 \<le> dt_date p" "dt_date p \<le> 31"
    using b by (simp_all add: p)
  have h: "0 \<le> dt_hours p \<and> dt_hours p \<le> 23"
  proof -
    define u where "u = t mod 86400000"
    have "0 \<le> u" "u < 86400000" by (simp_all add: u_def)
    then have "0 \<le> u div 3600000 \<and> u div 3600000 \<le> 23" by linarith
    then show ?thesis by (simp only: p date_parts.select_convs u_def)
  qed
  then show "0 \<le> dt_hours p" "dt_hours p \<le> 23" by blast+
  have lt: "a mod 60 \<le> 59" "b mod 7 \<le> 6" for a b :: int
    using pos_mod_bound [of 60 a] pos_mod_bound [of 7 b] by linarith+
  show "0 \<le> dt_minutes p" "dt_minutes p \<le> 59" "0 \<le> dt_seconds p" "dt_seconds p \<le> 59"
    "0 \<le> dt_day p" "dt_day p \<le> 6"
    by (simp_all add: p lt)
qed

end
