(* ===== verification/Filters.thy ===== *)
theory Filters
  imports Js_Date
begin

text \<open>
  The display filters of \<open>browser/src/filters/index.js\<close>, registered globally by \<open>main.js\<close>:
  relative times, date formatting, number formatting. The current time (\<open>Date.now()\<close>) and
  the local-time offset are parameters \<open>now\<close> and \<open>tz\<close>; characters outside ASCII are
  written as their UTF-8 bytes.
\<close>

section \<open>Times\<close>

definition pluralize :: "int \<Rightarrow> string \<Rightarrow> string" where
  "pluralize time label =
     (if time = 1 then int_str time @ label else int_str time @ label @ ''s'')"

definition timeAgo :: "int \<Rightarrow> string \<Rightarrow> string" where
  "timeAgo now time =
     (let between = num_sub (num_div (num_of_int now) (num_of_int 1000)) (js_Number time)
      in if num_less between (num_of_int 3600)
         then pluralize (to_int32 (num_div between (num_of_int 60))) '' minute''
         else if num_less between (num_of_int 86400)
         then pluralize (to_int32 (num_div between (num_of_int 3600))) '' hour''
         else pluralize (to_int32 (num_div between (num_of_int 86400))) '' day'')"

text \<open>An argument of the time filters: text, a number, or a \<open>Date\<close> (\<open>None\<close> if invalid).\<close>

datatype time_arg = TStr string | TNum jsnum | TDate "int option"

text \<open>
  The first step of \<open>parseTime\<close>: an argument whose text has ten characters is taken as
  seconds. The text of a \<open>Date\<close> is never that short.
\<close>

definition seconds_to_millis :: "time_arg \<Rightarrow> time_arg" where
  "seconds_to_millis time =
     (case time of
        TStr s \<Rightarrow> if length s = 10 then TNum (num_mul (js_Number s) (num_of_int 1000)) else time
      | TNum x \<Rightarrow> if length (num_str x) = 10 then TNum (num_mul x (num_of_int 1000)) else time
      | TDate d \<Rightarrow> time)"

definition date_of_arg :: "time_arg \<Rightarrow> int option" where
  "date_of_arg time =
     (case time of
        TDate d \<Rightarrow> d
      | TStr s \<Rightarrow> date_of_num (js_parseInt s)
      | TNum x \<Rightarrow> date_of_num (js_parseInt_num x))"

definition weekday_names :: "string list" where
  "weekday_names =
     [[CHR 0xE4, CHR 0xB8, CHR 0x80], [CHR 0xE4, CHR 0xBA, CHR 0x8C], [CHR 0xE4, CHR 0xB8, CHR 0x89],
      [CHR 0xE5, CHR 0x9B, CHR 0x9B], [CHR 0xE4, CHR 0xBA, CHR 0x94], [CHR 0xE5, CHR 0x85, CHR 0xAD],
      [CHR 0xE6, CHR 0x97, CHR 0xA5]]"

text \<open>Reading an array at \<open>value - 1\<close>: out of range is \<open>undefined\<close>.\<close>

definition weekday_text :: "int \<Rightarrow> string" where
  "weekday_text value =
     (if 1 \<le> value \<and> value \<le> int (length weekday_names) then weekday_names ! nat (value - 1)
      else ''undefined'')"

definition field_of :: "date_parts \<Rightarrow> char \<Rightarrow> int" where
  "field_of p key =
     (if key = CHR ''y'' then dt_year p
      else if key = CHR ''m'' then dt_month p + 1
      else if key = CHR ''d'' then dt_date p
      else if key = CHR ''h'' then dt_hours p
      else if key = CHR ''i'' then dt_minutes p
      else if key = CHR ''s'' then dt_seconds p
      else dt_day p)"

text \<open>
  The replacement of one token. A value below ten gets a leading zero; the fields of an
  invalid date are \<open>NaN\<close>, for which \<open>value || 0\<close> gives 0.
\<close>

definition token_value :: "date_parts option \<Rightarrow> char \<Rightarrow> string" where
  "token_value p key =
     (case p of
        None \<Rightarrow> if key = CHR ''a'' then ''undefined'' else ''0''
      | Some d \<Rightarrow>
          if key = CHR ''a'' then weekday_text (field_of d key)
          else (let value = field_of d key
                in if value < 10 then ''0'' @ int_str value else int_str value))"

definition is_key :: "char \<Rightarrow> bool" where
  "is_key c \<longleftrightarrow> c \<in> set ''ymdhisa''"

text \<open>
  Replacing every match of \<open>{(y|m|d|h|i|s|a)+}\<close>; the repeated group captures its last
  letter.
\<close>

function render_format :: "date_parts option \<Rightarrow> string \<Rightarrow> string" where
  "render_format p [] = []"
| "render_format p (c # cs) =
     (let ks = takeWhile is_key cs; rest = dropWhile is_key cs
      in if c = CHR ''{'' \<and> ks \<noteq> [] \<and> rest \<noteq> [] \<and> hd rest = CHR ''}''
         then token_value p (last ks) @ render_format p (tl rest)
         else c # render_format p cs)"
  by pat_completeness auto
termination
  by (relation "measure (\<lambda>(p, s). length s)")
    (auto simp: less_Suc_eq_le intro: le_trans [OF _ length_dropWhile_le] le_trans [OF diff_le_self])

definition default_format :: string where
  "default_format = ''{y}-{m}-{d} {h}:{i}:{s}''"

text \<open>\<open>parseTime(time, cFormat)\<close>; \<open>None\<close> for the call without arguments, and \<open>null\<close>.\<close>

definition parseTime :: "(int \<Rightarrow> int) \<Rightarrow> time_arg option \<Rightarrow> string option \<Rightarrow> string option" where
  "parseTime tz time cFormat =
     (case time of
        None \<Rightarrow> None
      | Some a \<Rightarrow>
          (let date = date_of_arg (seconds_to_millis a);
               format = (case cFormat of Some f \<Rightarrow> if f = [] then default_format else f
                         | None \<Rightarrow> default_format)
           in Some (render_format (date_fields tz date) format)))"

text \<open>The text of a field that may be \<open>NaN\<close>.\<close>

definition field_text :: "date_parts option \<Rightarrow> (date_parts \<Rightarrow> int) \<Rightarrow> string" where
  "field_text p f = (case p of None \<Rightarrow> ''NaN'' | Some d \<Rightarrow> int_str (f d))"

definition formatTime :: "(int \<Rightarrow> int) \<Rightarrow> int \<Rightarrow> jsnum \<Rightarrow> string option \<Rightarrow> string option" where
  "formatTime tz now time0 option =
     (let time = num_mul time0 (num_of_int 1000);
          d = date_of_num time;
          diff = (case d of None \<Rightarrow> NaN
                  | Some t \<Rightarrow> num_div (num_sub (num_of_int now) (num_of_int t)) (num_of_int 1000));
          p = date_fields tz d
      in if num_less diff (num_of_int 30) then Some ''just''
         else if num_less diff (num_of_int 3600)
         then Some (num_str (math_ceil (num_div diff (num_of_int 60))) @ ''Minutes ago'')
         else if num_less diff (num_of_int (3600 * 24))
         then Some (num_str (math_ceil (num_div diff (num_of_int 3600))) @ ''Hours ago'')
         else if num_less diff (num_of_int (3600 * 24 * 2)) then Some ''1 day ago''
         else (case option of
                 Some f \<Rightarrow> if f \<noteq> [] then parseTime tz (Some (TNum time)) (Some f)
                           else Some (field_text p (\<lambda>d. dt_month d + 1) @ ''month'' @
                                  field_text p dt_date @ ''day'' @ field_text p dt_hours @ ''hour'' @
                                  field_text p dt_minutes @ ''minute'')
               | None \<Rightarrow> Some (field_text p (\<lambda>d. dt_month d + 1) @ ''month'' @
                                  field_text p dt_date @ ''day'' @ field_text p dt_hours @ ''hour'' @
                                  field_text p dt_minutes @ ''minute'')))"

text \<open>The \<open>zero\<close> helper of \<open>dateFilter\<close>, on a field that may be \<open>NaN\<close>.\<close>

definition zero_pad :: "date_parts option \<Rightarrow> (date_parts \<Rightarrow> int) \<Rightarrow> string" where
  "zero_pad p f =
     (case p of None \<Rightarrow> ''NaN''
      | Some d \<Rightarrow> if f d < 10 then ''0'' @ int_str (f d) else int_str (f d))"

definition dateFilter :: "(int \<Rightarrow> int) \<Rightarrow> string \<Rightarrow> string" where
  "dateFilter tz timestamp =
     (let p = date_fields tz (date_of_num (js_Number timestamp))
      in field_text p dt_year @ ''-'' @ zero_pad p (\<lambda>d. dt_month d + 1) @ ''-'' @
         zero_pad p dt_date @ '' '' @ zero_pad p dt_hours @ '':'' @
         zero_pad p dt_minutes @ '':'' @ zero_pad p dt_seconds)"

section \<open>Numbers\<close>

text \<open>
  \<open>.replace(/\.0+$|(\.[0-9]*[1-9])0+$/, '$1')\<close> on a text with at most one point: a zero
  fraction goes, trailing zeros of another fraction go.
\<close>

definition strip_zeros :: "string \<Rightarrow> string" where
  "strip_zeros s =
     (let ip = takeWhile (\<lambda>c. c \<noteq> CHR ''.'') s; r = dropWhile (\<lambda>c. c \<noteq> CHR ''.'') s; fp = tl r;
          kept = rev (dropWhile (\<lambda>c. c = CHR ''0'') (rev fp))
      in if r = [] \<or> fp = [] \<or> \<not> all_digits fp then s
         else if kept = [] then ip else ip @ ''.'' @ kept)"

definition si_units :: "(int \<times> string) list" where
  "si_units =
     [(10 ^ 18, ''E''), (10 ^ 15, ''P''), (10 ^ 12, ''T''), (10 ^ 9, ''G''), (10 ^ 6, ''M''), (10 ^ 3, ''k'')]"

fun nFormatter_loop :: "(int \<times> string) list \<Rightarrow> jsnum \<Rightarrow> nat \<Rightarrow> string" where
  "nFormatter_loop [] num digits = num_str num"
| "nFormatter_loop ((v, symbol) # us) num digits =
     (if num_le (num_of_int v) num
      then strip_zeros (to_fixed (num_add (num_div num (num_of_int v)) (rnd64 (1 / 10))) digits) @ symbol
      else nFormatter_loop us num digits)"

definition nFormatter :: "jsnum \<Rightarrow> nat \<Rightarrow> string" where
  "nFormatter num digits = nFormatter_loop si_units num digits"

text \<open>\<open>html2Text\<close>: the browser's parse of the markup is a parameter.\<close>

definition html2Text :: "(string \<Rightarrow> string) \<Rightarrow> (string \<Rightarrow> string) \<Rightarrow> string \<Rightarrow> string" where
  "html2Text textContent innerText val =
     (if textContent val \<noteq> [] then textContent val else innerText val)"

text \<open>
  \<open>m.replace(/(?=(?!\b)(\d{3})+$)/g, ',')\<close>: a comma before every group of three digits
  counted from the end, except at a word boundary (the start, or after the sign).
\<close>

function group_thousands :: "string \<Rightarrow> string" where
  "group_thousands ds =
     (if length ds \<le> 3 then ds
      else group_thousands (take (length ds - 3) ds) @ '','' @ drop (length ds - 3) ds)"
  by pat_completeness auto
termination
  by (relation "measure length") auto

declare group_thousands.simps [simp del]

definition toThousands_text :: "string \<Rightarrow> string" where
  "toThousands_text s =
     (let sign = (if s \<noteq> [] \<and> hd s = CHR ''-'' then ''-'' else []);
          body = drop (length sign) s
      in if takeWhile is_digit body = [] then s
         else sign @ group_thousands (takeWhile is_digit body) @ dropWhile is_digit body)"

definition toThousandslsFilter :: "jsnum \<Rightarrow> string" where
  "toThousandslsFilter num = toThousands_text (num_str (if num_truthy num then num else Fin 0))"

definition formatFloat :: "jsnum \<Rightarrow> nat \<Rightarrow> jsnum" where
  "formatFloat f digit =
     (let m = num_of_int (10 ^ digit) in num_div (math_round (num_mul f m)) m)"

text \<open>\<open>lastStr(str, n)\<close>; \<open>None\<close> is a missing \<open>n\<close>, whose \<open>Number(n) + 1\<close> counts as zero digits.\<close>

definition lastStr :: "jsnum \<Rightarrow> nat option \<Rightarrow> string" where
  "lastStr str n =
     (case n of
        Some k \<Rightarrow>
          (let t = to_fixed str (k + 1)
           in if k \<noteq> 0 then js_substring t 0 (int (length t) - 1)
              else js_substring t 0 (int (length t) - 2))
      | None \<Rightarrow> (let t = to_fixed str 0 in js_substring t 0 (int (length t) - 2)))"

section \<open>Scientific notation to plain digits\<close>

datatype plain = PlainZero | PlainFalse | PlainStr string

text \<open>
  The match of \<open>^(((\d+.?\d+)|(\d+))[Ee]{1}((-(\d+))|(\d+)))$\<close>: the exponent follows the last
  \<open>e\<close>; the mantissa is digits, with any one character between two non-empty runs (the point
  of the pattern is not escaped).
\<close>

definition mantissa_ok :: "string \<Rightarrow> bool" where
  "mantissa_ok m \<longleftrightarrow>
     (m \<noteq> [] \<and> all_digits m) \<or>
     (let a = takeWhile is_digit m; r = dropWhile is_digit m
      in a \<noteq> [] \<and> r \<noteq> [] \<and> hd r \<noteq> CHR 0x0A \<and> hd r \<noteq> CHR 0x0D \<and> tl r \<noteq> [] \<and> all_digits (tl r))"

definition exponent_ok :: "string \<Rightarrow> bool" where
  "exponent_ok p \<longleftrightarrow>
     (let ds = (if p \<noteq> [] \<and> hd p = CHR ''-'' then tl p else p) in ds \<noteq> [] \<and> all_digits ds)"

definition is_e :: "char \<Rightarrow> bool" where
  "is_e c \<longleftrightarrow> c = CHR ''e'' \<or> c = CHR ''E''"

definition match_scientific :: "string \<Rightarrow> (string \<times> string) option" where
  "match_scientific s =
     (let p = rev (takeWhile (\<lambda>c. \<not> is_e c) (rev s)); r = dropWhile (\<lambda>c. \<not> is_e c) (rev s);
          m = rev (tl r)
      in if r \<noteq> [] \<and> mantissa_ok m \<and> exponent_ok p then Some (m, p) else None)"

definition power_val :: "string \<Rightarrow> int" where
  "power_val p = (if p \<noteq> [] \<and> hd p = CHR ''-'' then - digits_val (tl p) else digits_val p)"

definition expand_scientific :: "string \<Rightarrow> string \<Rightarrow> string" where
  "expand_scientific mant p =
     (let dotIndex = js_indexOf mant ''.''; resValue = js_replace_first mant ''.'' [];
          power = power_val p
      in if 0 \<le> power then
           (let subres = js_substr resValue dotIndex;
                gap = power - int (length subres);
                resArr = resValue @ replicate (nat gap) CHR ''0''
            in if gap < 0 then js_splice_insert resArr (dotIndex + power) CHR ''.'' else resArr)
         else
           (let pw = - power;
                resArr = replicate (nat (pw + dotIndex + 1)) CHR ''0'' @ resValue;
                n = (if pw - dotIndex \<ge> 0 then 1 else - (pw - dotIndex))
            in js_splice_insert resArr n CHR ''.''))"

text \<open>\<open>convertNum(num_str)\<close> on text; the empty text is falsy.\<close>

definition convertNum :: "string \<Rightarrow> plain" where
  "convertNum num =
     (if num = [] then PlainZero
      else let neg = (hd num = CHR ''-'');
               numStr = (if neg then js_substr num 1 else num);
               minusSign = (if neg then ''-'' else [])
           in if list_ex is_e numStr then
                (case match_scientific numStr of
                   None \<Rightarrow> PlainFalse
                 | Some (m, p) \<Rightarrow> PlainStr (minusSign @ expand_scientific m p))
              else PlainStr num)"

section \<open>Facts about times\<close>

lemma floor_div_seconds:
  assumes "0 \<le> k" "k < 2 ^ 53" "0 < m" "m < 2 ^ 53" "k div m < 2 ^ 31"
  shows "to_int32 (num_div (Fin (of_int k)) (Fin (of_int m))) = k div m"
proof -
  obtain r where r: "rnd64 (of_int k / of_int m) = Fin r" "\<lfloor>r\<rfloor> = k div m"
    using floor_rnd64_div assms(1-4) by blast
  have q0: "0 \<le> k div m" using assms by (simp add: pos_imp_zdiv_nonneg_iff)
  then have "0 \<le> r" using r(2) by linarith
  moreover have "(k div m) mod 2 ^ 32 = k div m" using q0 assms(5) by (intro mod_pos_pos_trivial) simp_all
  ultimately show ?thesis using r q0 assms(3,5) by (simp add: to_int32_def Let_def)
qed

text \<open>
  \<open>timeAgo\<close> counts whole minutes, hours or days. For a clock reading of \<open>n\<close> whole seconds
  and a timestamp \<open>t\<close> in the past, written in decimal, the double arithmetic of the filter
  (one subtraction, one division, a truncation to 32 bits) gives exactly the integer quotient.
\<close>

theorem timeAgo_exact:
  assumes "0 \<le> t" "t \<le> n" "n < 10 ^ 12"
  shows "timeAgo (1000 * n) (dec_str t) =
    (let s = n - t
     in if s < 3600 then pluralize (s div 60) '' minute''
        else if s < 86400 then pluralize (s div 3600) '' hour''
        else pluralize (s div 86400) '' day'')"
proof -
  have "num_of_int (1000 * n) = Fin (of_int (n * 1000))" using assms by (subst num_of_int_small) simp_all
  moreover have "num_div (Fin (of_int (n * 1000))) (Fin (of_int 1000)) = Fin (of_int n)"
    using assms by (intro num_div_exact) simp_all
  moreover have "num_sub (Fin (of_int n)) (Fin (of_int t)) = Fin (of_int (n - t))"
    using assms by (intro num_sub_ints) simp
  moreover have "js_Number (dec_str t) = Fin (of_int t)"
    using assms num_of_int_small [of t] by (simp add: js_Number_dec_str)
  ultimately have between: "num_sub (num_div (num_of_int (1000 * n)) (num_of_int 1000)) (js_Number (dec_str t))
      = Fin (of_int (n - t))" by simp
  have less: "num_less (Fin (of_int (n - t))) (Fin (numeral k)) \<longleftrightarrow> n - t < numeral k" for k
    by (simp only: num_less.simps of_int_less_numeral_iff)
  have q: "to_int32 (num_div (Fin (of_int (n - t))) (Fin (numeral k))) = (n - t) div numeral k"
    if "numeral k < (2 ^ 53 :: int)" "(n - t) div numeral k < 2 ^ 31" for k
    using floor_div_seconds [of "n - t" "numeral k"] that assms by simp
  have q60: "n - t < 3600 \<Longrightarrow> to_int32 (num_div (Fin (of_int (n - t))) (Fin 60)) = (n - t) div 60"
    and q3600: "n - t < 86400 \<Longrightarrow> to_int32 (num_div (Fin (of_int (n - t))) (Fin 3600)) = (n - t) div 3600"
    and q86400: "to_int32 (num_div (Fin (of_int (n - t))) (Fin 86400)) = (n - t) div 86400"
    using assms by (intro q; simp)+
  show ?thesis
    unfolding timeAgo_def between Let_def
    by (simp add: less q60 q3600 q86400 del: of_int_diff num_div.simps)
qed

theorem timeAgo_exact_witness: "timeAgo 1700000000000 (dec_str 1699990000) = ''2 hours''"
  using timeAgo_exact [of 1699990000 1700000000] by (simp add: pluralize_def int_str_def dec_str.simps digit_char_def)

lemma token_value_fields: "token_value (Some d) key = (if key = CHR ''a'' then weekday_text (dt_day d)
   else (if field_of d key < 10 then ''0'' @ int_str (field_of d key) else int_str (field_of d key)))"
  by (simp add: token_value_def field_of_def Let_def)

lemma render_default:
  "render_format (Some d) default_format =
     token_value (Some d) CHR ''y'' @ ''-'' @ token_value (Some d) CHR ''m'' @ ''-'' @
     token_value (Some d) CHR ''d'' @ '' '' @ token_value (Some d) CHR ''h'' @ '':'' @
     token_value (Some d) CHR ''i'' @ '':'' @ token_value (Some d) CHR ''s''"
  by (simp add: default_format_def is_key_def Let_def del: append_assoc) 

lemma seconds_are_millis:
  assumes "all_digits s" "length s = 10"
  shows "date_of_arg (seconds_to_millis (TStr s)) = date_of_num (js_Number (s @ ''000''))"
proof -
  let ?v = "digits_val s"
  from assms have ne: "s \<noteq> []" by auto
  have v: "0 \<le> ?v" "?v < 10 ^ 10" using digits_val_bounds [OF assms(1)] assms(2) by auto
  have "digits_val (s @ ''000'') = ?v * 1000"
    by (simp add: digits_val_append) (simp add: digits_val_def digit_val_def)
  then have r: "js_Number (s @ ''000'') = rnd64 (of_int (?v * 1000))"
    using assms(1) ne js_Number_digits [of "s @ ''000''"] by (simp add: is_digit_def)
  have "js_Number s = Fin (of_int ?v)"
    using v js_Number_digits [OF assms(1) ne] rnd64_of_int [of ?v] by simp
  moreover have "num_mul (Fin (of_int ?v)) (Fin (of_int 1000)) = Fin (of_int (?v * 1000))"
    using v by (intro num_mul_ints) simp
  ultimately have "seconds_to_millis (TStr s) = TNum (Fin (of_int (?v * 1000)))"
    using assms(2) by (simp add: seconds_to_millis_def)
  moreover have "num_str (Fin (of_int (?v * 1000))) = dec_str (?v * 1000)"
    using v by (intro num_str_int) simp_all
  ultimately show ?thesis
    using v by (simp add: date_of_arg_def js_parseInt_num_def r js_parseInt_digits dec_str_digits del: of_int_mult)
qed

text \<open>
  C38: the two date formatters agree: on a timestamp written in decimal, \<open>parseTime\<close> with its
  default format prints what \<open>dateFilter\<close> prints, in every time zone (for the years from 10 on,
  which \<open>dateFilter\<close> does not pad). Ten digits are seconds for \<open>parseTime\<close>: there it prints what
  \<open>dateFilter\<close> prints for the same timestamp with three zeros appended.
\<close>

theorem parseTime_dateFilter:
  assumes "all_digits s" "s \<noteq> []"
    and "date_fields tz (date_of_num (js_Number (if length s = 10 then s @ ''000'' else s))) = Some d"
    and "10 \<le> dt_year d"
  shows "parseTime tz (Some (TStr s)) None = Some (dateFilter tz (if length s = 10 then s @ ''000'' else s))"
proof -
  have "js_parseInt s = js_Number s" using assms(1,2) by (simp add: js_parseInt_digits js_Number_digits)
  then have "date_of_arg (seconds_to_millis (TStr s))
      = date_of_num (js_Number (if length s = 10 then s @ ''000'' else s))"
    using seconds_are_millis [OF assms(1)] by (cases "length s = 10") (simp_all add: seconds_to_millis_def date_of_arg_def)
  then show ?thesis
    using assms(3,4) by (simp add: parseTime_def render_default dateFilter_def token_value_fields
      field_of_def field_text_def zero_pad_def)
qed

theorem parseTime_dateFilter_witness:
  "parseTime (\<lambda>t. 28800000) (Some (TStr ''1600000000'')) None
    = Some (dateFilter (\<lambda>t. 28800000) ''1600000000000'')"
proof -
  have "digits_val ''1600000000000'' = 1600000000000" by (simp add: digits_val_def digit_val_def)
  moreover have "rnd64 1600000000000 = Fin 1600000000000" by (rule rnd64_numeral) simp
  ultimately have "date_of_num (js_Number ''1600000000000'') = Some 1600000000000"
    by (simp add: js_Number_digits is_digit_def date_of_num_def)
  moreover have "10 \<le> dt_year (parts_of_local 1600028800000)" by code_simp
  ultimately show ?thesis
    using parseTime_dateFilter [of "''1600000000''" "\<lambda>t. 28800000" "parts_of_local 1600028800000"]
    by (simp add: is_digit_def date_fields_def)
qed

section \<open>Facts about numbers\<close>

lemma group_thousands_digits:
  "CHR '','' \<notin> set ds \<Longrightarrow> filter (\<lambda>c. c \<noteq> CHR '','') (group_thousands ds) = ds"
proof (induction ds rule: group_thousands.induct)
  case (1 ds)
  let ?k = "length ds - 3"
  from 1(2) have "CHR '','' \<notin> set (take ?k ds)" "CHR '','' \<notin> set (drop ?k ds)"
    by (auto dest: in_set_takeD in_set_dropD)
  with 1 show ?case
    by (subst group_thousands.simps) (simp add: filter_no_sep)
qed

lemma group_thousands_shape:
  "ds \<noteq> [] \<Longrightarrow> \<exists>g gs. group_thousands ds = join '','' (g # gs) \<and> g \<noteq> [] \<and> length g \<le> 3 \<and> (\<forall>h \<in> set gs. length h = 3)"
proof (induction ds rule: group_thousands.induct)
  case (1 ds)
  show ?case
  proof (cases "length ds \<le> 3")
    case True
    then have "group_thousands ds = join '','' [ds]" by (simp add: group_thousands.simps)
    with True 1(2) show ?thesis by (intro exI [of _ ds] exI [of _ "[]"]) simp
  next
    case False
    let ?k = "length ds - 3"
    from False have "take ?k ds \<noteq> []" by (cases ds) auto
    with 1(1) False obtain g gs where g: "group_thousands (take ?k ds) = join '','' (g # gs)"
      "g \<noteq> []" "length g \<le> 3" "\<forall>h \<in> set gs. length h = 3" by blast
    have "group_thousands ds = join '','' (g # (gs @ [drop ?k ds]))"
      using False g(1) join_snoc [of "g # gs" "'',''" "drop ?k ds"] by (simp add: group_thousands.simps [of ds])
    moreover have "\<forall>h \<in> set (gs @ [drop ?k ds]). length h = 3" using g(4) False by auto
    ultimately show ?thesis using g(2,3) by blast
  qed
qed

text \<open>
  On every integer of the safe range the thousands filter only inserts commas, so that
  removing them gives the decimal text back, and it inserts them between groups of exactly
  three digits, the first group having one to three.
\<close>

theorem toThousandsls_groups:
  assumes "0 \<le> n" "n < 2 ^ 53"
  shows "filter (\<lambda>c. c \<noteq> CHR '','') (toThousandslsFilter (num_of_int n)) = dec_str n \<and>
    (\<exists>g gs. toThousandslsFilter (num_of_int n) = join '','' (g # gs) \<and> g \<noteq> [] \<and> length g \<le> 3 \<and>
      (\<forall>h \<in> set gs. length h = 3))"
proof -
  have ds: "all_digits (dec_str n)" using assms by (intro dec_str_digits)
  then have nc: "CHR '','' \<notin> set (dec_str n)" by (auto simp: all_digits_def dest: digit_not_special)
  have sg: "\<not> (dec_str n \<noteq> [] \<and> hd (dec_str n) = CHR ''-'')"
    using ds by (cases "dec_str n") (auto dest: digit_not_special)
  have "num_str (if num_truthy (num_of_int n) then num_of_int n else Fin 0) = dec_str n"
  proof (cases "n = 0")
    case True
    then show ?thesis using num_str_num_of_int [of 0] by (simp add: num_truthy_def)
  next
    case False
    with assms show ?thesis using num_str_num_of_int [of n] by (simp add: num_truthy_def num_of_int_small)
  qed
  then have "toThousandslsFilter (num_of_int n) = group_thousands (dec_str n)"
    using sg takeWhile_digits [OF ds] by (simp del: takeWhile_eq_all_conv dropWhile_eq_Nil_conv add: toThousandslsFilter_def toThousands_text_def Let_def)
  then show ?thesis using group_thousands_digits [OF nc] group_thousands_shape [of "dec_str n"] by simp
qed

theorem toThousandsls_groups_witness:
  "filter (\<lambda>c. c \<noteq> CHR '','') (toThousandslsFilter (num_of_int 1234567)) = dec_str 1234567"
  using toThousandsls_groups [of 1234567] by simp

text \<open>
  C39: rounding to decimals is stable: a number that already is a quotient \<open>k / 10^d\<close>, in doubles,
  is returned unchanged by \<open>formatFloat\<close> for \<open>d\<close> digits, so filtering twice is filtering once.
\<close>

theorem formatFloat_stable:
  assumes "0 \<le> k" "k < 2 ^ 51" "d \<le> 15"
  shows "formatFloat (num_div (num_of_int k) (num_of_int (10 ^ d))) d
    = num_div (num_of_int k) (num_of_int (10 ^ d))"
proof -
  define m :: int where "m = 10 ^ d"
  have "m \<le> 10 ^ 15" unfolding m_def using assms(3) by (intro power_increasing) simp_all
  then have m: "0 < m" "m < 2 ^ 53" by (simp_all add: m_def)
  then have mi: "num_of_int m = Fin (of_int m)" by (intro num_of_int_small) simp
  have ki: "num_of_int k = Fin (of_int k)" using assms by (intro num_of_int_small) simp
  have nz: "(of_int m :: rat) \<noteq> 0" using m by simp
  show ?thesis
  proof (cases "k = 0")
    case True
    moreover have "\<lfloor>1 / 2 :: rat\<rfloor> = 0" by (simp add: floor_eq_iff)
    ultimately show ?thesis using mi nz by (simp add: formatFloat_def Let_def flip: m_def)
  next
    case False
    with assms have "0 < k" by simp
    then obtain r p where "rnd64 (of_int k / of_int m) = Fin r" "rnd64 (r * of_int m) = Fin p" "\<lfloor>p + 1 / 2\<rfloor> = k"
      using scale_back assms(2) m by blast
    then show ?thesis using mi ki nz by (simp add: formatFloat_def Let_def flip: m_def)
  qed
qed

theorem formatFloat_stable_witness:
  "formatFloat (num_div (num_of_int 314) (num_of_int (10 ^ 2))) 2 = num_div (num_of_int 314) (num_of_int (10 ^ 2))"
  using formatFloat_stable [of 314 2] by simp

section \<open>Units\<close>

lemma num_of_int_exa: "num_of_int (10 ^ 18) = Fin (10 ^ 18)"
proof -
  have e: "dbl_exp 1000000000000000000 = 7" by (rule dbl_exp_unique) (simp_all add: pow2_def)
  have "10 ^ 18 < dbl_overflow"
  proof -
    have "dbl_overflow = 2 ^ 64 * pow2 960"
      using pow2_add [of 64 960] by (simp add: dbl_overflow_def pow2_def [of 64])
    moreover have "1 < pow2 960" by (simp add: pow2_def one_less_power)
    ultimately show ?thesis by simp
  qed
  then have "rnd64 (10 ^ 18) = Fin (10 ^ 18)"
    by (intro rnd64_grid [of _ 7 7812500000000000]) (simp_all add: e pow2_def [of 7])
  then show ?thesis by (simp add: num_of_int_def)
qed

lemma si_values:
  "num_of_int (10 ^ 18) = Fin (10 ^ 18)" "num_of_int (10 ^ 15) = Fin (10 ^ 15)"
  "num_of_int (10 ^ 12) = Fin (10 ^ 12)" "num_of_int (10 ^ 9) = Fin (10 ^ 9)"
  "num_of_int (10 ^ 6) = Fin (10 ^ 6)" "num_of_int (10 ^ 3) = Fin (10 ^ 3)"
  using num_of_int_small [of "10 ^ 15"] num_of_int_small [of "10 ^ 12"] num_of_int_small [of "10 ^ 9"]
    num_of_int_small [of "10 ^ 6"] num_of_int_small [of "10 ^ 3"]
  by (simp_all only: num_of_int_exa of_int_power of_int_numeral) simp_all

lemmas nFormatter_steps = nFormatter_def si_units_def nFormatter_loop.simps si_values num_le_Fin

lemma nFormatter_below:
  assumes "x < 10 ^ 3"
  shows "nFormatter (Fin x) d = num_str (Fin x)"
proof -
  have "\<not> 10 ^ 18 \<le> x" "\<not> 10 ^ 15 \<le> x" "\<not> 10 ^ 12 \<le> x" "\<not> 10 ^ 9 \<le> x" "\<not> 10 ^ 6 \<le> x" "\<not> 10 ^ 3 \<le> x"
    using assms by simp_all
  then show ?thesis unfolding nFormatter_steps by (simp only: if_False)
qed

lemma nFormatter_kilo:
  assumes "10 ^ 3 \<le> x" "x < 10 ^ 6"
  shows "nFormatter (Fin x) d = strip_zeros (to_fixed (num_add (rnd64 (x / 10 ^ 3)) (rnd64 (1 / 10))) d) @ ''k''"
proof -
  have "\<not> 10 ^ 18 \<le> x" "\<not> 10 ^ 15 \<le> x" "\<not> 10 ^ 12 \<le> x" "\<not> 10 ^ 9 \<le> x" "\<not> 10 ^ 6 \<le> x" "(10 :: rat) ^ 3 \<noteq> 0"
    using assms(2) by simp_all
  with assms(1) show ?thesis by (simp only: nFormatter_steps num_div.simps if_False if_True)
qed

lemma add_tenth:
  assumes "1 \<le> k" "k < 1000"
  obtains u where "num_add (Fin (of_int k)) (rnd64 (1 / 10)) = Fin u" "\<lfloor>u * 10 + 1 / 2\<rfloor> = 10 * k + 1" "0 < u" "u < 2000"
proof -
  have k: "(1 :: rat) \<le> of_int k" "(of_int k :: rat) < 1000" using assms by simp_all
  obtain t where t: "rnd64 (1 / 10) = Fin t" "\<bar>t - 1 / 10\<bar> \<le> 1 / 10 / 2 ^ 53"
    by (rule rnd64_near [of "1 / 10"]) simp_all
  have "1 / 10 / 2 ^ 53 \<le> (1 / 100 :: rat)" by simp
  with t(2) have t3: "\<bar>t - 1 / 10\<bar> \<le> 1 / 100" by linarith
  have "1 / 2 ^ 53 \<le> (1 :: rat)" by simp
  then have lo: "1 / 2 ^ 53 \<le> of_int k + t" using k t3 by linarith
  have "(1001 :: rat) < 2 ^ 53" by simp
  then have "of_int k + t < 2 ^ 53" using k t3 by linarith
  then obtain u where u: "rnd64 (of_int k + t) = Fin u" "\<bar>u - (of_int k + t)\<bar> \<le> (of_int k + t) / 2 ^ 53"
    using lo by (elim rnd64_near)
  have "of_int k + t \<le> 1001" using k t3 by linarith
  then have "(of_int k + t) / 2 ^ 53 \<le> 1001 / 2 ^ 53" by (intro divide_right_mono) simp_all
  also have "(1001 :: rat) / 2 ^ 53 \<le> 1 / 100" by simp
  finally have u3: "\<bar>u - (of_int k + 1 / 10)\<bar> \<le> 2 / 100" using u(2) t3 by linarith
  have "of_int (10 * k + 1) = 10 * (of_int k :: rat) + 1" by simp
  then have "of_int (10 * k + 1) \<le> u * 10 + 1 / 2" "u * 10 + 1 / 2 < of_int (10 * k + 1) + 1"
    using u3 by linarith+
  then have "\<lfloor>u * 10 + 1 / 2\<rfloor> = 10 * k + 1" unfolding floor_eq_iff by blast
  moreover have "0 < u" "u < 2000" using u3 k by linarith+
  ultimately show ?thesis using t(1) u(1) that by simp
qed

text \<open>
  Below one thousand \<open>nFormatter\<close> prints the number as it is; a whole number of
  thousands is printed one tenth of a unit too high, as \<open>k.1k\<close>: the constant the code adds before
  rounding is visible in the output.
\<close>

theorem nFormatter_thousands:
  assumes "0 \<le> k" "k < 1000"
  shows "nFormatter (num_of_int k) 1 = dec_str k \<and>
    (1 \<le> k \<longrightarrow> nFormatter (num_of_int (1000 * k)) 1 = dec_str k @ ''.1k'')"
proof (intro conjI impI)
  have ki: "num_of_int k = Fin (of_int k)" using assms by (intro num_of_int_small) simp
  have "(of_int k :: rat) < 10 ^ 3" using assms by simp
  from nFormatter_below [OF this] show "nFormatter (num_of_int k) 1 = dec_str k"
    using assms num_str_int [of k] by (simp add: ki)
next
  assume k1: "1 \<le> k"
  have kk: "num_of_int (1000 * k) = Fin (of_int (1000 * k))" using assms by (intro num_of_int_small) simp
  obtain u where u: "num_add (Fin (of_int k)) (rnd64 (1 / 10)) = Fin u" "\<lfloor>u * 10 + 1 / 2\<rfloor> = 10 * k + 1" "0 < u" "u < 2000"
    using add_tenth k1 assms(2) by blast
  have "rnd64 (of_int (1000 * k) / 10 ^ 3) = Fin (of_int k)" using rnd64_of_int [of k] assms by simp
  moreover have "10 ^ 3 \<le> (of_int (1000 * k) :: rat)" "(of_int (1000 * k) :: rat) < 10 ^ 6"
    using assms k1 by simp_all
  ultimately have "nFormatter (num_of_int (1000 * k)) 1 = strip_zeros (to_fixed (Fin u) 1) @ ''k''"
    using nFormatter_kilo [of "of_int (1000 * k)" 1] u(1) by (simp add: kk)
  moreover have "to_fixed (Fin u) 1 = dec_str k @ ''.1''"
  proof -
    have "\<not> 10 ^ 21 \<le> \<bar>u\<bar>" using u(3,4) by simp
    then show ?thesis
      using u dec_str_append_digit [of k 1] k1 by (simp add: fixed_digits_def Let_def digit_char_def)
  qed
  moreover have "strip_zeros (dec_str k @ ''.1'') = dec_str k @ ''.1''"
  proof -
    have nd: "\<forall>c \<in> set (dec_str k). c \<noteq> CHR ''.''"
      using dec_str_digits [of k] assms digit_not_special(4) by (auto simp: all_digits_def)
    then show ?thesis by (simp add: strip_zeros_def Let_def is_digit_def)
  qed
  ultimately show "nFormatter (num_of_int (1000 * k)) 1 = dec_str k @ ''.1k''" by simp
qed

theorem nFormatter_thousands_witness: "nFormatter (num_of_int 2000) 1 = ''2.1k''"
  using nFormatter_thousands [of 2] by (simp add: dec_str.simps digit_char_def)

section \<open>Facts about scientific notation\<close>

lemma digits_no_e: "all_digits p \<Longrightarrow> \<forall>c \<in> set p. \<not> is_e c"
  by (auto simp: all_digits_def is_e_def dest: digit_not_special)

lemma match_scientific_parts:
  assumes "all_digits a" "all_digits b" "a \<noteq> []" "b \<noteq> []" "exponent_ok p" "\<forall>c \<in> set p. \<not> is_e c"
  shows "match_scientific (a @ CHR ''.'' # b @ CHR ''e'' # p) = Some (a @ CHR ''.'' # b, p)"
proof -
  have p: "takeWhile (\<lambda>c. \<not> is_e c) (rev p @ CHR ''e'' # s) = rev p"
    "dropWhile (\<lambda>c. \<not> is_e c) (rev p @ CHR ''e'' # s) = CHR ''e'' # s" for s
    using assms(6) by (simp_all add: takeWhile_append dropWhile_append is_e_def)
  have "mantissa_ok (a @ CHR ''.'' # b)"
    using assms(2-4) digits_stop [OF assms(1), of "CHR ''.''" b] by (simp add: mantissa_ok_def)
  with assms(5) show ?thesis
    using p [of "rev b @ CHR ''.'' # rev a"] by (simp add: match_scientific_def)
qed

lemma convertNum_scientific:
  assumes "all_digits a" "all_digits b" "a \<noteq> []" "b \<noteq> []" "exponent_ok p" "\<forall>c \<in> set p. \<not> is_e c"
  shows "convertNum (a @ CHR ''.'' # b @ CHR ''e'' # p) = PlainStr (expand_scientific (a @ CHR ''.'' # b) p)"
proof -
  obtain c a' where "a = c # a'" "is_digit c" using assms(1,3) by (cases a) auto
  then have "c \<noteq> CHR ''-''" by (simp add: digit_not_special)
  with \<open>a = c # a'\<close> match_scientific_parts [OF assms] show ?thesis
    by (simp add: convertNum_def Let_def is_e_def)
qed

lemma expand_scientific_parts:
  assumes "all_digits a" "all_digits b" 
  shows "js_indexOf (a @ CHR ''.'' # b) ''.'' = int (length a)"
    "js_replace_first (a @ CHR ''.'' # b) ''.'' [] = a @ b"
proof -
  have "CHR ''.'' \<notin> set a" using assms(1) by (auto simp: all_digits_def dest: digit_not_special)
  then show "js_indexOf (a @ CHR ''.'' # b) ''.'' = int (length a)"
    "js_replace_first (a @ CHR ''.'' # b) ''.'' [] = a @ b"
    by (simp_all add: js_indexOf_char_at js_replace_first_char)
qed

lemma power_val_digits: "all_digits p \<Longrightarrow> power_val p = digits_val p"
  by (cases p) (auto simp: power_val_def digit_not_special)

lemma expand_positive:
  assumes "all_digits a" "all_digits b" "a \<noteq> []" "b \<noteq> []" "0 \<le> n"
  shows "parse_decimal (expand_scientific (a @ CHR ''.'' # b) (dec_str n))
    = Some (of_int (digits_val (a @ b)) * pow10 (n - int (length b)))"
proof -
  have pv: "power_val (dec_str n) = n"
    using assms(5) by (simp add: power_val_digits dec_str_digits)
  note parts = expand_scientific_parts [OF assms(1,2)]
  show ?thesis
  proof (cases "n < int (length b)")
    case True
    define k where "k = nat n"
    have k: "n = int k" "k < length b" using True assms(5) by (simp_all add: k_def)
    have "expand_scientific (a @ CHR ''.'' # b) (dec_str n) = (a @ take k b) @ CHR ''.'' # drop k b"
    proof -
      have "int (length a) + n = int (length a + k)" "nat (n - int (length b)) = 0" using k by simp_all
      moreover have "js_splice_insert (a @ b) (int (length a + k)) CHR ''.'' = (a @ take k b) @ CHR ''.'' # drop k b"
        unfolding js_splice_insert_def Let_def rel_index_nat using k by (simp add: min_def)
      moreover have "power_val (dec_str (int k)) = int k" using pv k by simp
      ultimately show ?thesis using k by (simp add: expand_scientific_def Let_def parts js_substr_def)
    qed
    moreover have "parse_decimal ((a @ take k b) @ CHR ''.'' # drop k b)
        = Some (of_int (digits_val ((a @ take k b) @ drop k b)) * pow10 (- int (length (drop k b))))"
      using assms by (intro parse_decimal_point) simp_all
    ultimately show ?thesis using k by (simp add: of_nat_diff)
  next
    case False
    define k where "k = nat (n - int (length b))"
    have k: "n - int (length b) = int k" using False by (simp add: k_def)
    have "expand_scientific (a @ CHR ''.'' # b) (dec_str n) = (a @ b) @ replicate k CHR ''0''"
      using False assms(5) by (simp add: expand_scientific_def Let_def pv parts js_substr_def k_def)
    moreover have "parse_decimal ((a @ b) @ replicate k CHR ''0'')
        = Some (of_int (digits_val ((a @ b) @ replicate k CHR ''0'')))"
      using assms by (intro parse_decimal_digits) simp_all
    ultimately show ?thesis using k by (simp add: digits_val_append [of "a @ b"] pow10_def del: append_assoc)
  qed
qed

text \<open>
  With a negative exponent the code pads by \<open>power + dotIndex + 1\<close> zeros and puts the point
  after the first: a mantissa with \<open>k\<close> digits before its point loses \<open>2 k\<close> decimal places.
\<close>

lemma expand_negative:
  assumes "all_digits a" "all_digits b" "a \<noteq> []" "b \<noteq> []" "int (length a) \<le> n"
  shows "parse_decimal (expand_scientific (a @ CHR ''.'' # b) (CHR ''-'' # dec_str n))
    = Some (of_int (digits_val (a @ b)) * pow10 (- n - int (length b) - 2 * int (length a)))"
proof -
  have n: "0 < n" using assms(3,5) by (cases a) auto
  have pv: "power_val (CHR ''-'' # dec_str n) = - n" using n by (simp add: power_val_def)
  note parts = expand_scientific_parts [OF assms(1,2)]
  define z where "z = replicate (nat n + length a) CHR ''0''"
  have m: "nat (n + int (length a) + 1) = Suc (nat n + length a)" using n by simp
  have "expand_scientific (a @ CHR ''.'' # b) (CHR ''-'' # dec_str n) = ''0'' @ CHR ''.'' # (z @ a @ b)"
    using n assms(5) by (simp add: expand_scientific_def Let_def pv parts m z_def js_splice_insert_def)
  moreover have "parse_decimal (''0'' @ CHR ''.'' # (z @ a @ b))
      = Some (of_int (digits_val (''0'' @ (z @ a @ b))) * pow10 (- int (length (z @ a @ b))))"
    using assms by (intro parse_decimal_point) (simp_all add: z_def is_digit_def)
  moreover have "digits_val (''0'' @ z @ a @ b) = digits_val (a @ b)"
  proof -
    have "''0'' @ z @ a @ b = replicate (Suc (nat n + length a)) CHR ''0'' @ (a @ b)" by (simp add: z_def)
    then show ?thesis by (simp only: digits_val_append [of "replicate _ _"] digits_val_zeros)
  qed
  moreover have "- int (length (z @ a @ b)) = - n - int (length b) - 2 * int (length a)"
    using n by (simp add: z_def)
  ultimately show ?thesis by (simp only:)
qed

text \<open>
  \<open>convertNum\<close> expands a decimal with a non-negative exponent without changing its value:
  whatever the digits before and after the point and however large the exponent, the plain text
  it returns denotes exactly the number the scientific text denotes.
\<close>

theorem convertNum_positive_exponent:
  assumes "all_digits a" "all_digits b" "a \<noteq> []" "b \<noteq> []" "0 \<le> n"
  shows "\<exists>plain. convertNum (a @ CHR ''.'' # b @ CHR ''e'' # dec_str n) = PlainStr plain \<and>
    parse_decimal plain = parse_decimal (a @ CHR ''.'' # b @ CHR ''e'' # dec_str n)"
proof -
  have ds: "all_digits (dec_str n)" using assms(5) by (rule dec_str_digits)
  then have ok: "exponent_ok (dec_str n)"
    by (cases "dec_str n") (auto simp: exponent_ok_def digit_not_special)
  have "convertNum (a @ CHR ''.'' # b @ CHR ''e'' # dec_str n) = PlainStr (expand_scientific (a @ CHR ''.'' # b) (dec_str n))"
    using assms ok digits_no_e [OF ds] by (intro convertNum_scientific) simp_all
  moreover have "parse_decimal (a @ CHR ''.'' # b @ CHR ''e'' # dec_str n)
      = Some (of_int (digits_val (a @ b)) * pow10 (n - int (length b)))"
    using assms parse_exponent_e(1) [OF ds] by (intro parse_decimal_scientific) simp_all
  ultimately show ?thesis using expand_positive [OF assms] by simp
qed

theorem convertNum_positive_exponent_witness:
  "\<exists>plain. convertNum (''12'' @ CHR ''.'' # ''345'' @ CHR ''e'' # dec_str 2) = PlainStr plain \<and>
    parse_decimal plain = parse_decimal (''12'' @ CHR ''.'' # ''345'' @ CHR ''e'' # dec_str 2)"
  using convertNum_positive_exponent [of "''12''" "''345''" 2] by (simp add: is_digit_def)

text \<open>
  For a negative exponent the expansion is too small, by a factor \<open>100\<close> for every digit the
  mantissa has before its point: \<open>1.5e-7\<close>, as JavaScript prints it, comes out a hundred times
  smaller than it is.
\<close>

theorem convertNum_negative_exponent:
  assumes "all_digits a" "all_digits b" "a \<noteq> []" "b \<noteq> []" "int (length a) \<le> n"
  shows "\<exists>plain v. convertNum (a @ CHR ''.'' # b @ CHR ''e'' # CHR ''-'' # dec_str n) = PlainStr plain \<and>
    parse_decimal (a @ CHR ''.'' # b @ CHR ''e'' # CHR ''-'' # dec_str n) = Some v \<and>
    parse_decimal plain = Some (v / 100 ^ length a)"
proof -
  have n: "0 \<le> n" using assms(5) by linarith
  then have ds: "all_digits (dec_str n)" by (rule dec_str_digits)
  then have ok: "exponent_ok (CHR ''-'' # dec_str n)" by (simp add: exponent_ok_def)
  let ?v = "of_int (digits_val (a @ b)) * pow10 (- n - int (length b))"
  have "convertNum (a @ CHR ''.'' # b @ CHR ''e'' # CHR ''-'' # dec_str n)
      = PlainStr (expand_scientific (a @ CHR ''.'' # b) (CHR ''-'' # dec_str n))"
    using assms ok digits_no_e [OF ds] by (intro convertNum_scientific) (simp_all add: is_e_def)
  moreover have "parse_decimal (a @ CHR ''.'' # b @ CHR ''e'' # CHR ''-'' # dec_str n) = Some ?v"
    using assms n parse_exponent_e(2) [OF ds] by (intro parse_decimal_scientific) simp_all
  moreover have "pow10 (- n - int (length b)) = pow10 (- n - int (length b) - 2 * int (length a)) * 100 ^ length a"
    using pow10_add_nat [of "- n - int (length b) - 2 * int (length a)" "2 * length a"] by (simp add: power_mult)
  then have "of_int (digits_val (a @ b)) * pow10 (- n - int (length b) - 2 * int (length a)) = ?v / 100 ^ length a"
    by simp
  ultimately show ?thesis using expand_negative [OF assms] by simp
qed

theorem convertNum_negative_exponent_witness:
  "\<exists>plain v. convertNum (''1'' @ CHR ''.'' # ''5'' @ CHR ''e'' # CHR ''-'' # dec_str 7) = PlainStr plain \<and>
    parse_decimal (''1'' @ CHR ''.'' # ''5'' @ CHR ''e'' # CHR ''-'' # dec_str 7) = Some v \<and>
    parse_decimal plain = Some (v / 100 ^ length ''1'')"
  using convertNum_negative_exponent [of "''1''" "''5''" 7] by (simp add: is_digit_def)

text \<open>The sign JavaScript prints before a large exponent is not matched: the answer is \<open>false\<close>.\<close>

lemma convertNum_plus_sign: "convertNum ''1e+21'' = PlainFalse"
  by code_simp

text \<open>Day 0 of the language is Sunday; the table of weekday names is read at \<open>-1\<close>.\<close>

lemma render_sunday: "dt_day d = 0 \<Longrightarrow> render_format (Some d) ''{a}'' = ''undefined''"
  by (simp add: is_key_def token_value_def field_of_def weekday_text_def Let_def)

end
