(* ===== verification/Main_App.thy ===== *)
theory Main_App
  imports Filters
begin

text \<open>
  The entry module \<open>browser/src/main.js\<close> apart from its navigation guard (theory Routing):
  the base address of the API, the \<open>loadmore\<close> directive of the provider table, the global
  registration of the filters, and the decimal multiplication \<open>NumberMul\<close>.
\<close>

definition data_api :: "string \<Rightarrow> string \<Rightarrow> string" where
  "data_api protocol host = protocol @ ''//'' @ host"

record scroll_box =
  scrollHeight :: int
  scrollTop :: int
  clientHeight :: int

text \<open>The scroll listener: whether the bound function is called.\<close>

definition loadmore_fires :: "scroll_box \<Rightarrow> bool" where
  "loadmore_fires el = (let scrollDistance = scrollHeight el - scrollTop el - clientHeight el in scrollDistance \<le> 100)"

text \<open>\<open>Object.keys(filters).forEach(key => Vue.filter(key, filters[key]))\<close>.\<close>

definition filter_exports :: "string list" where
  "filter_exports =
     [''timeAgo'', ''parseTime'', ''formatTime'', ''nFormatter'', ''html2Text'', ''toThousandslsFilter'',
      ''formatFloat'', ''convertNum'', ''lastStr'', ''dateFilter'']"

definition register_filters :: "(string \<Rightarrow> 'f) \<Rightarrow> (string \<rightharpoonup> 'f) \<Rightarrow> string \<rightharpoonup> 'f" where
  "register_filters filters registry = fold (\<lambda>key r. r(key \<mapsto> filters key)) filter_exports registry"

section \<open>Decimal multiplication\<close>

text \<open>
  \<open>s.split('.')[1].length\<close> inside a \<open>try\<close>: without a point the second piece is \<open>undefined\<close>,
  reading its length throws, and nothing is added.
\<close>

definition fraction_length :: "string \<Rightarrow> nat" where
  "fraction_length s =
     (case split_on CHR ''.'' s of _ # f # _ \<Rightarrow> length f | _ \<Rightarrow> 0)"

definition NumberMul_text :: "string \<Rightarrow> string \<Rightarrow> jsnum" where
  "NumberMul_text s1 s2 =
     (let m = fraction_length s1 + fraction_length s2
      in num_div (num_mul (js_Number (js_replace_first s1 ''.'' [])) (js_Number (js_replace_first s2 ''.'' [])))
           (num_of_int (10 ^ m)))"

definition NumberMul :: "jsnum \<Rightarrow> jsnum \<Rightarrow> jsnum" where
  "NumberMul arg1 arg2 = NumberMul_text (num_str arg1) (num_str arg2)"

text \<open>A decimal text: digits, or digits, a point and digits.\<close>

definition decimal_text :: "string \<Rightarrow> string \<Rightarrow> string" where
  "decimal_text ip fp = (if fp = [] then ip else ip @ ''.'' @ fp)"

lemma no_point: "all_digits s \<Longrightarrow> CHR ''.'' \<notin> set s"
  by (auto simp: all_digits_def dest: digit_not_special)

lemma decimal_text_parts:
  assumes "all_digits ip" "all_digits fp"
  shows "fraction_length (decimal_text ip fp) = length fp"
    "js_replace_first (decimal_text ip fp) ''.'' [] = ip @ fp"
proof -
  have n: "CHR ''.'' \<notin> set ip" "CHR ''.'' \<notin> set fp" using assms by (simp_all add: no_point)
  show "fraction_length (decimal_text ip fp) = length fp"
    using n by (simp add: decimal_text_def fraction_length_def split_on_no_sep split_on_append_sep)
  have "\<not> (\<exists>a b. ip = a @ ''.'' @ b)" using n(1) by auto
  then show "js_replace_first (decimal_text ip fp) ''.'' [] = ip @ fp"
    using n js_replace_first_absent [of ip "''.''"] by (simp add: decimal_text_def js_replace_first_char)
qed

lemma parse_decimal_text:
  assumes "all_digits ip" "all_digits fp" "ip \<noteq> []"
  shows "parse_decimal (decimal_text ip fp) = Some (of_int (digits_val (ip @ fp)) / 10 ^ length fp)"
proof (cases "fp = []")
  case True
  with assms show ?thesis by (simp add: decimal_text_def parse_decimal_digits)
next
  case False
  with assms parse_decimal_point [of ip fp] show ?thesis by (simp add: decimal_text_def pow10_def)
qed

text \<open>
  \<open>NumberMul\<close> multiplies decimals with a single rounding. For two decimal texts whose digits,
  read without the points, have a product below \<open>2^53\<close> and at most fifteen decimals together,
  the double it returns is the exact product of the two decimals, rounded once to the nearest
  double; the intermediate double products are exact.
\<close>

theorem NumberMul_rounds_once:
  assumes "all_digits a" "all_digits b" "all_digits c" "all_digits d" "a \<noteq> []" "c \<noteq> []"
    and "digits_val (a @ b) < 2 ^ 53" "digits_val (c @ d) < 2 ^ 53"
    and "digits_val (a @ b) * digits_val (c @ d) < 2 ^ 53" "length b + length d \<le> 15"
  shows "\<exists>x y. parse_decimal (decimal_text a b) = Some x \<and> parse_decimal (decimal_text c d) = Some y \<and>
    NumberMul_text (decimal_text a b) (decimal_text c d) = rnd64 (x * y)"
proof -
  let ?i = "digits_val (a @ b)" and ?j = "digits_val (c @ d)" and ?m = "length b + length d"
  have pos: "0 \<le> ?i" "0 \<le> ?j" using assms digits_val_bounds [of "a @ b"] digits_val_bounds [of "c @ d"] by simp_all
  have n: "js_Number (a @ b) = Fin (of_int ?i)" "js_Number (c @ d) = Fin (of_int ?j)"
    using assms pos by (simp_all add: js_Number_digits rnd64_of_int)
  have "num_mul (Fin (of_int ?i)) (Fin (of_int ?j)) = Fin (of_int (?i * ?j))"
    using assms(9) pos by (intro num_mul_ints) simp
  moreover have "(10 :: int) ^ ?m \<le> 10 ^ 15" using assms(10) by (intro power_increasing) simp_all
  then have "num_of_int (10 ^ ?m) = Fin (of_int (10 ^ ?m))" by (intro num_of_int_small) simp
  ultimately have "NumberMul_text (decimal_text a b) (decimal_text c d)
      = num_div (Fin (of_int (?i * ?j))) (Fin (of_int (10 ^ ?m)))"
    using assms by (simp only: NumberMul_text_def Let_def decimal_text_parts n)
  also have "\<dots> = rnd64 (of_int ?i / 10 ^ length b * (of_int ?j / 10 ^ length d))"
    by (simp add: power_add)
  finally show ?thesis using parse_decimal_text [of a b] parse_decimal_text [of c d] assms by simp
qed

theorem NumberMul_rounds_once_witness:
  "\<exists>x y. parse_decimal (decimal_text ''0'' ''1'') = Some x \<and> parse_decimal (decimal_text ''3'' []) = Some y \<and>
    NumberMul_text (decimal_text ''0'' ''1'') (decimal_text ''3'' []) = rnd64 (x * y)"
proof -
  have "digits_val (''0'' @ ''1'') = 1" "digits_val (''3'' @ []) = 3"
    by (simp_all add: digits_val_def digit_val_def)
  then show ?thesis
    using NumberMul_rounds_once [of "''0''" "''1''" "''3''" "[]"] by (simp add: is_digit_def)
qed

end
