(* ===== verification/Build_Tools.thy ===== *)
theory Build_Tools
  imports Js_Effects
begin

text \<open>
  The build scripts of the browser application (\<open>browser/build.js\<close>, \<open>browser/build/*.js\<close>,
  \<open>browser/config/*.js\<close>): cleaning the output directory, the version check, the style loaders,
  the rules that pick a loader for a file, the chunk a module goes to, the development and
  production configurations. webpack, its plugins and \<open>semver\<close> are the environment: a
  configuration is the value handed to webpack, \<open>semver.satisfies\<close> is a parameter.
\<close>

section \<open>Paths\<close>

definition path_step :: "bool \<Rightarrow> string \<Rightarrow> string list \<Rightarrow> string list" where
  "path_step absolute s acc =
     (if s = [] \<or> s = ''.'' then acc
      else if s = ''..'' then
        (if acc \<noteq> [] \<and> hd acc \<noteq> ''..'' then tl acc else if absolute then acc else ''..'' # acc)
      else s # acc)"

text \<open>\<open>path.join\<close> (POSIX): join the non-empty arguments and normalise.\<close>

definition path_join :: "string list \<Rightarrow> string" where
  "path_join args =
     (let joined = join ''/'' (filter (\<lambda>a. a \<noteq> []) args);
          absolute = (joined \<noteq> [] \<and> hd joined = CHR ''/'');
          segs = rev (fold (path_step absolute) (split_on CHR ''/'' joined) []);
          slash = (if segs \<noteq> [] \<and> last joined = CHR ''/'' then ''/'' else [])
      in if segs = [] then (if absolute then ''/'' else ''.'')
         else (if absolute then ''/'' else []) @ join ''/'' segs @ slash)"

text \<open>Segments that normalisation keeps.\<close>

definition plain_segment :: "string \<Rightarrow> bool" where
  "plain_segment x \<longleftrightarrow> x \<noteq> [] \<and> x \<noteq> ''.'' \<and> x \<noteq> ''..'' \<and> CHR ''/'' \<notin> set x"

lemma fold_path_step_plain:
  "list_all plain_segment xs \<Longrightarrow> fold (path_step absolute) xs acc = rev xs @ acc"
  by (induction xs arbitrary: acc) (simp_all add: path_step_def plain_segment_def)

lemma plain_join:
  assumes "xs \<noteq> []" "list_all plain_segment xs"
  shows "join ''/'' xs \<noteq> []" "hd (join ''/'' xs) \<noteq> CHR ''/''" "last (join ''/'' xs) \<noteq> CHR ''/''"
    "split_on CHR ''/'' (join ''/'' xs) = xs"
proof -
  show "split_on CHR ''/'' (join ''/'' xs) = xs"
    using assms by (intro split_on_join) (auto simp: list_all_iff plain_segment_def)
  obtain y ys where xs: "xs = y # ys" using assms(1) by (cases xs) auto
  then have y: "y \<noteq> []" "hd y \<noteq> CHR ''/''"
    using assms(2) by (auto simp: plain_segment_def dest: hd_in_set)
  show "join ''/'' xs \<noteq> []" "hd (join ''/'' xs) \<noteq> CHR ''/''" using y by (cases ys; simp add: xs)+
  obtain z zs where zs: "xs = zs @ [z]" using assms(1) by (cases xs rule: rev_cases) auto
  then have "z \<noteq> []" "last z \<noteq> CHR ''/''"
    using assms(2) by (auto simp: plain_segment_def dest: last_in_set)
  then show "last (join ''/'' xs) \<noteq> CHR ''/''" by (simp add: zs join_snoc_if)
qed

lemma path_join_plain:
  assumes "xs \<noteq> []" "list_all plain_segment xs" "join ''/'' (filter (\<lambda>a. a \<noteq> []) args) = join ''/'' xs"
  shows "path_join args = join ''/'' xs"
  using assms(1) plain_join [OF assms(1,2)]
  by (simp add: path_join_def Let_def assms(3) fold_path_step_plain [OF assms(2)])

section \<open>Configuration\<close>

record build_config =
  assetsSubDirectory :: string
  assetsPublicPath :: string
  assetsRoot :: string
  index_html :: string
  sourceMap_on :: bool
  devtool :: string
  productionGzip :: bool
  productionGzipExtensions :: "string list"
  bundleAnalyzerReport :: bool

record proxy_entry =
  px_context :: string
  px_target :: string
  px_changeOrigin :: bool
  px_secure :: bool
  px_rewrite :: "(string \<times> string) list"

record dev_config =
  dev_assetsSubDirectory :: string
  dev_assetsPublicPath :: string
  dev_proxyTable :: "proxy_entry list"
  dev_host :: string
  dev_port :: int
  dev_autoOpenBrowser :: bool
  dev_errorOverlay :: bool
  dev_notifyOnErrors :: bool
  dev_poll :: bool
  dev_devtool :: string
  dev_cacheBusting :: bool
  dev_cssSourceMap :: bool

definition config_dev :: dev_config where
  "config_dev =
     \<lparr>dev_assetsSubDirectory = ''static'', dev_assetsPublicPath = ''/'',
      dev_proxyTable = [\<lparr>px_context = ''/api'', px_target = ''https://calibration-api.filswan.com'',
        px_changeOrigin = True, px_secure = True, px_rewrite = [(''^/api'', [])]\<rparr>],
      dev_host = ''localhost'', dev_port = 8080, dev_autoOpenBrowser = False, dev_errorOverlay = True,
      dev_notifyOnErrors = True, dev_poll = False, dev_devtool = ''cheap-module-eval-source-map'',
      dev_cacheBusting = True, dev_cssSourceMap = True\<rparr>"

text \<open>\<open>path.resolve(__dirname, '../release')\<close>, \<open>dirname\<close> being the absolute path of \<open>config\<close>.\<close>

definition config_build :: "string \<Rightarrow> bool \<Rightarrow> build_config" where
  "config_build dirname npm_config_report =
     \<lparr>assetsSubDirectory = ''static'', assetsPublicPath = ''./'',
      assetsRoot = path_join [dirname, ''../release''],
      index_html = path_join [dirname, ''../release/index.html''],
      sourceMap_on = False, devtool = ''#source-map'', productionGzip = True,
      productionGzipExtensions = [''js'', ''css''], bundleAnalyzerReport = npm_config_report\<rparr>"

definition prod_env :: "(string \<times> string) list" where
  "prod_env =
     [(''NODE_ENV'', ''\"production\"''), (''BASE_API'', ''\"https://calibration-api.filswan.com/\"'')]"

text \<open>\<open>merge(prodEnv, {...})\<close>: the later object wins key by key.\<close>

definition dev_env :: "string \<rightharpoonup> string" where
  "dev_env =
     map_of prod_env ++ map_of [(''NODE_ENV'', ''\"development\"''),
       (''BASE_API'', ''\"https://calibration-api.filswan.com/\"'')]"

definition assetsPath :: "bool \<Rightarrow> string \<Rightarrow> string" where
  "assetsPath production p =
     path_join [if production then ''static'' else dev_assetsSubDirectory config_dev, p]"

section \<open>Style loaders\<close>

record style_options =
  opt_sourceMap :: bool
  opt_extract :: bool
  opt_usePostCSS :: bool

record loader =
  ld_name :: string
  ld_sourceMap :: bool
  ld_indentedSyntax :: bool

datatype loader_chain =
    Extracted "loader list" string string \<comment> \<open>use, fallback, publicPath\<close>
  | Injected string "loader list"

definition generateLoaders :: "style_options \<Rightarrow> string option \<Rightarrow> bool \<Rightarrow> loader_chain" where
  "generateLoaders options loader_name indented =
     (let css = \<lparr>ld_name = ''css-loader'', ld_sourceMap = opt_sourceMap options, ld_indentedSyntax = False\<rparr>;
          postcss = \<lparr>ld_name = ''postcss-loader'', ld_sourceMap = opt_sourceMap options, ld_indentedSyntax = False\<rparr>;
          loaders = (if opt_usePostCSS options then [css, postcss] else [css]);
          all_loaders = (case loader_name of None \<Rightarrow> loaders
            | Some l \<Rightarrow> loaders @ [\<lparr>ld_name = l @ ''-loader'', ld_sourceMap = opt_sourceMap options,
                          ld_indentedSyntax = indented\<rparr>])
      in if opt_extract options then Extracted all_loaders ''vue-style-loader'' ''../../''
         else Injected ''vue-style-loader'' all_loaders)"

definition cssLoaders :: "style_options \<Rightarrow> (string \<times> loader_chain) list" where
  "cssLoaders options =
     [(''css'', generateLoaders options None False), (''postcss'', generateLoaders options None False),
      (''less'', generateLoaders options (Some ''less'') False),
      (''sass'', generateLoaders options (Some ''sass'') True),
      (''scss'', generateLoaders options (Some ''sass'') False),
      (''stylus'', generateLoaders options (Some ''stylus'') False),
      (''styl'', generateLoaders options (Some ''stylus'') False)]"

text \<open>A rule: its test on the file name (the regular expression \<open>\.ext$\<close>) and its loaders.\<close>

definition ext_test :: "string \<Rightarrow> string \<Rightarrow> bool" where
  "ext_test extension file = suffix (CHR ''.'' # extension) file"

definition styleLoaders :: "style_options \<Rightarrow> (string \<times> loader_chain) list" where
  "styleLoaders options = map (\<lambda>(extension, ld). (extension, ld)) (cssLoaders options)"

definition style_rules_for :: "style_options \<Rightarrow> string \<Rightarrow> loader_chain list" where
  "style_rules_for options file =
     map snd (filter (\<lambda>(extension, ld). ext_test extension file) (styleLoaders options))"

record vue_loader_config =
  vl_loaders :: "(string \<times> loader_chain) list"
  vl_cssSourceMap :: bool
  vl_cacheBusting :: bool
  vl_transformToRequire :: "(string \<times> string list) list"

definition vue_loader_conf :: "bool \<Rightarrow> vue_loader_config" where
  "vue_loader_conf isProduction =
     (let sourceMapEnabled = (if isProduction then False else dev_cssSourceMap config_dev)
      in \<lparr>vl_loaders = cssLoaders \<lparr>opt_sourceMap = sourceMapEnabled, opt_extract = isProduction, opt_usePostCSS = False\<rparr>,
          vl_cssSourceMap = sourceMapEnabled, vl_cacheBusting = dev_cacheBusting config_dev,
          vl_transformToRequire = [(''video'', [''src'', ''poster'']), (''source'', [''src'']),
            (''img'', [''src'']), (''image'', [''xlink:href''])]\<rparr>)"

section \<open>Module rules\<close>

text \<open>\<open>\.(a|b|...)(\?.*)?$\<close>: one of the extensions, then nothing or a query.\<close>

definition asset_test :: "string list \<Rightarrow> string \<Rightarrow> bool" where
  "asset_test exts file =
     list_ex (\<lambda>e. ext_test e file \<or> 0 \<le> js_indexOf file (CHR ''.'' # e @ ''?'')) exts"

record module_rule =
  mr_exts :: "string list"
  mr_query :: bool
  mr_loader :: string
  mr_limit :: int
  mr_name :: string

definition base_rules :: "bool \<Rightarrow> module_rule list" where
  "base_rules production =
     [\<lparr>mr_exts = [''vue''], mr_query = False, mr_loader = ''vue-loader'', mr_limit = 0, mr_name = []\<rparr>,
      \<lparr>mr_exts = [''js''], mr_query = False, mr_loader = ''babel-loader'', mr_limit = 0, mr_name = []\<rparr>,
      \<lparr>mr_exts = [''png'', ''jpg'', ''jpeg'', ''gif'', ''svg''], mr_query = True, mr_loader = ''url-loader'',
       mr_limit = 10000, mr_name = assetsPath production ''img/[name].[hash:7].[ext]''\<rparr>,
      \<lparr>mr_exts = [''mp4'', ''webm'', ''ogg'', ''mp3'', ''wav'', ''flac'', ''aac''], mr_query = True,
       mr_loader = ''url-loader'', mr_limit = 10000, mr_name = assetsPath production ''media/[name].[hash:7].[ext]''\<rparr>,
      \<lparr>mr_exts = [''woff'', ''woff2'', ''eot'', ''ttf'', ''otf''], mr_query = True, mr_loader = ''url-loader'',
       mr_limit = 10000, mr_name = assetsPath production ''fonts/[name].[hash:7].[ext]''\<rparr>]"

definition rule_test :: "module_rule \<Rightarrow> string \<Rightarrow> bool" where
  "rule_test r file =
     (if mr_query r then asset_test (mr_exts r) file else list_ex (\<lambda>e. ext_test e file) (mr_exts r))"

text \<open>The directories whose scripts go through babel, from the directory of the build scripts.\<close>

definition babel_dirs :: "string \<Rightarrow> string list" where
  "babel_dirs dirname =
     map (\<lambda>d. path_join [dirname, ''..'', d]) [''src'', ''test'', ''node_modules/webpack-dev-server/client'']"

definition babel_applies :: "string \<Rightarrow> string \<Rightarrow> bool" where
  "babel_applies dirname file \<longleftrightarrow>
     ext_test ''js'' file \<and> list_ex (\<lambda>d. starts_with d file) (babel_dirs dirname)"

text \<open>\<open>minChunks\<close> of the vendor chunk; a module without a resource is falsy.\<close>

definition vendor_minChunks :: "string \<Rightarrow> string option \<Rightarrow> bool" where
  "vendor_minChunks dirname resource =
     (case resource of None \<Rightarrow> False
      | Some r \<Rightarrow> r \<noteq> [] \<and> ext_test ''js'' r \<and>
          js_indexOf r (path_join [dirname, ''../node_modules'']) = 0)"

text \<open>The pattern of the gzip plugin: \<open>\.(js|css)$\<close>.\<close>

definition gzip_test :: "build_config \<Rightarrow> string \<Rightarrow> bool" where
  "gzip_test c file = list_ex (\<lambda>e. ext_test e file) (productionGzipExtensions c)"

definition prod_plugins :: "build_config \<Rightarrow> string list" where
  "prod_plugins c =
     [''DefinePlugin'', ''UglifyJsPlugin'', ''ExtractTextPlugin'', ''OptimizeCSSPlugin'', ''HtmlWebpackPlugin'',
      ''HashedModuleIdsPlugin'', ''ModuleConcatenationPlugin'', ''CommonsChunkPlugin:vendor'',
      ''CommonsChunkPlugin:manifest'', ''CommonsChunkPlugin:app'', ''CopyWebpackPlugin''] @
     (if productionGzip c then [''CompressionWebpackPlugin''] else []) @
     (if bundleAnalyzerReport c then [''BundleAnalyzerPlugin''] else [])"

record webpack_output =
  wo_path :: string
  wo_filename :: string
  wo_chunkFilename :: string
  wo_publicPath :: string

definition prod_output :: "build_config \<Rightarrow> webpack_output" where
  "prod_output c =
     \<lparr>wo_path = assetsRoot c, wo_filename = assetsPath True ''js/[name].[chunkhash].js'',
      wo_chunkFilename = assetsPath True ''js/[id].[chunkhash].js'', wo_publicPath = assetsPublicPath c\<rparr>"

record dev_server =
  ds_host :: string
  ds_port :: int
  ds_publicPath :: string
  ds_plugins :: "string list"

text \<open>
  The development configuration: \<open>HOST\<close> and \<open>PORT\<close> of the environment override the file
  (an unset or empty one does not), then a free port is found: \<open>Inl\<close> rejects the promise.
\<close>

definition dev_server_base :: "string option \<Rightarrow> int option \<Rightarrow> dev_server" where
  "dev_server_base HOST PORT =
     \<lparr>ds_host = (case HOST of Some h \<Rightarrow> if h = [] then dev_host config_dev else h | None \<Rightarrow> dev_host config_dev),
      ds_port = (case PORT of Some p \<Rightarrow> if p = 0 then dev_port config_dev else p | None \<Rightarrow> dev_port config_dev),
      ds_publicPath = dev_assetsPublicPath config_dev,
      ds_plugins = [''DefinePlugin'', ''HotModuleReplacementPlugin'', ''NamedModulesPlugin'',
        ''NoEmitOnErrorsPlugin'', ''HtmlWebpackPlugin'', ''CopyWebpackPlugin'']\<rparr>"

definition dev_server_start :: "string option \<Rightarrow> int option \<Rightarrow> ('e + int) \<Rightarrow> 'e + dev_server" where
  "dev_server_start HOST PORT getPort =
     (case getPort of
        Inl err \<Rightarrow> Inl err
      | Inr port \<Rightarrow>
          (let c = dev_server_base HOST PORT
           in Inr (c\<lparr>ds_port := port, ds_plugins := ds_plugins c @ [''FriendlyErrorsPlugin'']\<rparr>)))"

text \<open>The callback of \<open>createNotifierCallback\<close>: only errors notify; the file is after the last \<open>!\<close>.\<close>

record notification =
  nt_title :: string
  nt_message :: string
  nt_subtitle :: string

definition notifier_callback :: "string \<Rightarrow> string \<Rightarrow> (string \<times> string option) list \<Rightarrow> (notification option, unit cmd) outcome" where
  "notifier_callback package_name severity errors =
     (if severity \<noteq> ''error'' then Done None []
      else (case errors of
              [] \<Rightarrow> Throws TypeError None []
            | (name, file) # _ \<Rightarrow>
                Done (Some \<lparr>nt_title = package_name, nt_message = severity @ '': '' @ name,
                  nt_subtitle = (case file of None \<Rightarrow> [] | Some f \<Rightarrow> last (split_on CHR ''!'' f))\<rparr>) []))"

section \<open>Version check\<close>

record requirement =
  rq_name :: string
  rq_current :: string
  rq_required :: string

text \<open>\<open>npm\<close> is checked when the shell finds it.\<close>

definition versionRequirements :: "string \<Rightarrow> string \<Rightarrow> (string \<times> string) option \<Rightarrow> requirement list" where
  "versionRequirements node_version node_engine npm =
     \<lparr>rq_name = ''node'', rq_current = node_version, rq_required = node_engine\<rparr> #
     (case npm of None \<Rightarrow> []
      | Some (version, engine) \<Rightarrow> [\<lparr>rq_name = ''npm'', rq_current = version, rq_required = engine\<rparr>])"

fun version_warnings :: "(string \<Rightarrow> string \<Rightarrow> bool) \<Rightarrow> requirement list \<Rightarrow> string list" where
  "version_warnings satisfies [] = []"
| "version_warnings satisfies (r # rs) =
     (if satisfies (rq_current r) (rq_required r) then []
      else [rq_name r @ '': '' @ rq_current r @ '' should be '' @ rq_required r]) @ version_warnings satisfies rs"

text \<open>The exit code of the check, \<open>None\<close> when it returns, and what it prints.\<close>

definition check_versions :: "(string \<Rightarrow> string \<Rightarrow> bool) \<Rightarrow> requirement list \<Rightarrow> int option \<times> string list" where
  "check_versions satisfies rs =
     (let warnings = version_warnings satisfies rs
      in if warnings \<noteq> []
         then (Some 1, [[], ''To use this template, you must update following to modules:'', []] @
                map (\<lambda>w. ''  '' @ w) warnings @ [[]])
         else (None, []))"

text \<open>
  \<open>build/build.js\<close>: the version check, then the old assets go, then webpack runs. The process
  ends with code 1 on outdated tools or compile errors; a failed removal or a webpack failure
  is thrown.
\<close>

datatype webpack_run = WebpackFails string | Compiled bool

datatype build_end = Exit int | Uncaught string | Complete

definition run_build :: "(string \<Rightarrow> string \<Rightarrow> bool) \<Rightarrow> requirement list \<Rightarrow> string option \<Rightarrow> webpack_run \<Rightarrow> build_end" where
  "run_build satisfies rs rm_err run =
     (case fst (check_versions satisfies rs) of
        Some code \<Rightarrow> Exit code
      | None \<Rightarrow>
          (case rm_err of
             Some e \<Rightarrow> Uncaught e
           | None \<Rightarrow>
               (case run of
                  WebpackFails e \<Rightarrow> Uncaught e
                | Compiled hasErrors \<Rightarrow> if hasErrors then Exit 1 else Complete)))"

section \<open>Removing a directory\<close>

text \<open>
  A file tree. \<open>readdirSync\<close> throws on anything but a directory, and the function returns then;
  \<open>rmdirSync\<close> throws when the directory still has entries.
\<close>

datatype node = FileN | DirN "(string \<times> node) list"

datatype fs_error = NotEmpty

text \<open>\<open>rmDir\<close> on the object at a path: what is left there, \<open>None\<close> when it is gone.\<close>

fun rmDir :: "node \<Rightarrow> fs_error + node option"
  and rmDir_entries :: "(string \<times> node) list \<Rightarrow> fs_error + (string \<times> node) list" where
  "rmDir FileN = Inr (Some FileN)"
| "rmDir (DirN files) =
     (case rmDir_entries files of
        Inl e \<Rightarrow> Inl e
      | Inr left \<Rightarrow> if left = [] then Inr None else Inl NotEmpty)"
| "rmDir_entries [] = Inr []"
| "rmDir_entries ((name, FileN) # files) = rmDir_entries files"
| "rmDir_entries ((name, DirN sub) # files) =
     (case rmDir (DirN sub) of
        Inl e \<Rightarrow> Inl e
      | Inr gone \<Rightarrow>
          (case rmDir_entries files of
             Inl e \<Rightarrow> Inl e
           | Inr left \<Rightarrow> Inr (case gone of None \<Rightarrow> left | Some n \<Rightarrow> (name, n) # left)))"

text \<open>\<open>browser/build.js\<close>: both output directories are cleared, then the command depends on the mode.\<close>

definition build_command :: "bool \<Rightarrow> string" where
  "build_command isProduction =
     (if isProduction then ''webpack -p --config webpack.production.config.js'' else ''webpack'')"

definition waterfall :: "bool \<Rightarrow> (string \<rightharpoonup> node) \<Rightarrow> fs_error + ((string \<rightharpoonup> node) \<times> string)" where
  "waterfall isProduction cwd =
     (let clear = (\<lambda>d fs. case fs d of None \<Rightarrow> Inr fs
                     | Some n \<Rightarrow> (case rmDir n of Inl e \<Rightarrow> Inl e | Inr left \<Rightarrow> Inr (fs(d := left))))
      in case clear ''release'' cwd of
           Inl e \<Rightarrow> Inl e
         | Inr fs \<Rightarrow> (case clear ''dev'' fs of Inl e \<Rightarrow> Inl e | Inr fs' \<Rightarrow> Inr (fs', build_command isProduction)))"

section \<open>Facts\<close>

lemma rmDir_clears: "(\<And>files. n = DirN files \<Longrightarrow> rmDir n = Inr None)" "rmDir_entries es = Inr []"
proof (induction n and es rule: rmDir_rmDir_entries.induct)
qed simp_all

text \<open>
  Cleaning always succeeds: whatever files and nested directories the two output directories
  hold, \<open>rmDir\<close> never fails on a non-empty directory, both are gone before webpack runs, and every other
  entry of the working directory is untouched.
\<close>

theorem waterfall_cleans:
  assumes "\<And>d. d \<in> {''release'', ''dev''} \<Longrightarrow> cwd d \<noteq> Some FileN"
  shows "waterfall production cwd = Inr (cwd(''release'' := None, ''dev'' := None), build_command production)"
proof -
  have clear: "(case fs d of None \<Rightarrow> Inr fs
       | Some n \<Rightarrow> (case rmDir n of Inl e \<Rightarrow> Inl e | Inr left \<Rightarrow> Inr (fs(d := left)))) = Inr (fs(d := None))"
    if "fs d \<noteq> Some FileN" for fs :: "string \<rightharpoonup> node" and d
  proof (cases "fs d")
    case None
    then show ?thesis by (simp add: fun_upd_idem)
  next
    case (Some n)
    with that obtain files where "n = DirN files" by (cases n) auto
    with Some rmDir_clears(1) [of n] show ?thesis by simp
  qed
  show ?thesis
    unfolding waterfall_def Let_def
    using assms by (subst clear, simp, simp only: sum.case, subst clear, simp, simp)
qed

theorem waterfall_cleans_witness:
  "waterfall True [''release'' \<mapsto> DirN [(''a.js'', FileN), (''static'', DirN [(''b.css'', FileN)])], ''src'' \<mapsto> DirN []]
    = Inr ([''release'' \<mapsto> DirN [(''a.js'', FileN), (''static'', DirN [(''b.css'', FileN)])], ''src'' \<mapsto> DirN []]
        (''release'' := None, ''dev'' := None), build_command True)"
  by (rule waterfall_cleans) auto

lemma suffix_after_dot:
  assumes "CHR ''.'' \<notin> set x" "CHR ''.'' \<notin> set y" "suffix (CHR ''.'' # x) s" "suffix (CHR ''.'' # y) s"
  shows "x = y"
proof -
  have "rev (CHR ''.'' # z) = rev z @ ''.''" for z by simp
  moreover have "takeWhile (\<lambda>c. c \<noteq> CHR ''.'') (rev s) = rev z"
    if "suffix (CHR ''.'' # z) s" "CHR ''.'' \<notin> set z" for z
    using that by (auto simp: suffix_def takeWhile_append)
  ultimately show ?thesis using assms by (metis rev_is_rev_conv)
qed

text \<open>
  The generated style rules never compete: at most one of the seven applies to a file,
  whatever its name, and the one that does carries the loaders configured for its extension:
  the extract plugin in a production build, injection otherwise.
\<close>

theorem style_rules_exclusive:
  "length (style_rules_for options file) \<le> 1 \<and>
   list_all (\<lambda>c. case c of Extracted _ _ _ \<Rightarrow> opt_extract options | Injected _ _ \<Rightarrow> \<not> opt_extract options)
     (style_rules_for options file)"
proof
  let ?P = "\<lambda>(extension, ld :: loader_chain). ext_test extension file"
  have d: "distinct (map fst (cssLoaders options))" "list_all (\<lambda>e. CHR ''.'' \<notin> set (fst e)) (cssLoaders options)"
    by (simp_all add: cssLoaders_def)
  have "fst x = fst y" if "x \<in> set (cssLoaders options)" "y \<in> set (cssLoaders options)" "?P x" "?P y" for x y
    using that d(2) suffix_after_dot [of "fst x" "fst y" "file"] by (auto simp: ext_test_def list_all_iff split: prod.splits)
  then have "length (filter ?P (cssLoaders options)) \<le> 1"
    by (intro filter_at_most_one [of fst, OF d(1)]) blast
  then show "length (style_rules_for options file) \<le> 1"
    by (simp add: style_rules_for_def styleLoaders_def)
next
  show "list_all (\<lambda>c. case c of Extracted _ _ _ \<Rightarrow> opt_extract options | Injected _ _ \<Rightarrow> \<not> opt_extract options)
     (style_rules_for options file)"
    by (auto simp: list_all_iff style_rules_for_def styleLoaders_def cssLoaders_def generateLoaders_def Let_def)
qed

end
