(* ===== verification/Json_Text.thy ===== *)
theory Json_Text
  imports Js_Effects
begin

text \<open>
  \<open>JSON.stringify\<close> and \<open>JSON.parse\<close> on the objects the application keeps in web storage: flat
  objects whose members are strings. \<open>parse_object\<close> reads the texts \<open>stringify_object\<close> writes;
  it answers \<open>None\<close> on any other text (nothing else is ever stored under these keys).
\<close>

definition hex_char :: "nat \<Rightarrow> char" where
  "hex_char d = hex_digits ! d"

definition escape_char :: "char \<Rightarrow> string" where
  "escape_char c =
     (let n = of_char c :: nat
      in if n = 34 then [CHR 0x5C, CHR 0x22]
         else if n = 92 then [CHR 0x5C, CHR 0x5C]
         else if n = 8 then [CHR 0x5C, CHR ''b'']
         else if n = 12 then [CHR 0x5C, CHR ''f'']
         else if n = 10 then [CHR 0x5C, CHR ''n'']
         else if n = 13 then [CHR 0x5C, CHR ''r'']
         else if n = 9 then [CHR 0x5C, CHR ''t'']
         else if n < 32 then [CHR 0x5C, CHR ''u'', CHR ''0'', CHR ''0'', hex_char (n div 16), hex_char (n mod 16)]
         else [c])"

definition quote :: "string \<Rightarrow> string" where
  "quote s = CHR 0x22 # concat (map escape_char s) @ [CHR 0x22]"

definition unescape :: "char \<Rightarrow> char option" where
  "unescape e =
     (if e \<in> {CHR 0x22, CHR 0x5C, CHR ''/''} then Some e
      else if e = CHR ''b'' then Some (CHR 0x08)
      else if e = CHR ''f'' then Some (CHR 0x0C)
      else if e = CHR ''n'' then Some (CHR 0x0A)
      else if e = CHR ''r'' then Some (CHR 0x0D)
      else if e = CHR ''t'' then Some (CHR 0x09)
      else None)"

text \<open>One character of a string literal and the rest of the text; \<open>Inl\<close> is the closing quote.\<close>

datatype lexed = Closing string | Character char string | Malformed

definition lex_char :: "string \<Rightarrow> lexed" where
  "lex_char s =
     (case s of
        [] \<Rightarrow> Malformed
      | c # r \<Rightarrow>
          if c = CHR 0x22 then Closing r
          else if c = CHR 0x5C then
            (case r of
               [] \<Rightarrow> Malformed
             | e # t \<Rightarrow>
                 (case unescape e of
                    Some x \<Rightarrow> Character x t
                  | None \<Rightarrow>
                      if e \<noteq> CHR ''u'' then Malformed
                      else (case radix_val 16 0 (take 4 t) of
                              Some v \<Rightarrow> if length t < 4 \<or> 255 < v then Malformed
                                        else Character (char_of (nat v)) (drop 4 t)
                            | None \<Rightarrow> Malformed)))
          else if (of_char c :: nat) < 32 then Malformed
          else Character c r)"

lemma lex_char_shorter: "lex_char s = Character c r \<Longrightarrow> length r < length s"
  by (auto simp: lex_char_def split: list.splits if_splits option.splits)

function lex_string :: "string \<Rightarrow> (string \<times> string) option" where
  "lex_string s =
     (case lex_char s of
        Closing r \<Rightarrow> Some ([], r)
      | Malformed \<Rightarrow> None
      | Character c r \<Rightarrow> (case lex_string r of None \<Rightarrow> None | Some (cs, t) \<Rightarrow> Some (c # cs, t)))"
  by pat_completeness auto
termination
  by (relation "measure length") (auto dest: lex_char_shorter)

declare lex_string.simps [simp del]

lemma escape_simple:
  assumes "escape_char c = [CHR 0x5C, e]" "unescape e = Some c"
  shows "lex_char (escape_char c @ r) = Character c r"
  using assms by (simp add: lex_char_def)

lemma control_code: "n < 32 \<Longrightarrow> radix_val 16 0 [CHR ''0'', CHR ''0'', hex_char (n div 16), hex_char (n mod 16)] = Some (int n)"
proof -
  have "\<forall>n \<in> set [0..<32]. radix_val 16 0 [CHR ''0'', CHR ''0'', hex_char (n div 16), hex_char (n mod 16)] = Some (int n)"
    by code_simp
  then show "n < 32 \<Longrightarrow> ?thesis" by simp
qed

lemma lex_escape: "lex_char (escape_char c @ r) = Character c r"
proof -
  define n where "n = (of_char c :: nat)"
  have c: "c = char_of n" by (simp add: n_def)
  consider "n \<in> {34, 92, 8, 12, 10, 13, 9}" | "n < 32" "n \<notin> {34, 92, 8, 12, 10, 13, 9}" | "32 \<le> n" "n \<noteq> 34" "n \<noteq> 92"
    by force
  then show ?thesis
  proof cases
    case 1
    then show ?thesis
      by (elim insertE emptyE)
        (simp_all add: escape_char_def lex_char_def unescape_def Let_def flip: n_def, simp_all add: c char_of_def bit_simps)
  next
    case 2
    then have "escape_char c = [CHR 0x5C, CHR ''u'', CHR ''0'', CHR ''0'', hex_char (n div 16), hex_char (n mod 16)]"
      by (simp add: escape_char_def Let_def flip: n_def)
    then show ?thesis
      using control_code [OF 2(1)] 2(1) by (simp add: lex_char_def unescape_def c)
  next
    case 3
    then have "escape_char c = [c]" "c \<noteq> CHR 0x22" "c \<noteq> CHR 0x5C"
      by (auto simp: escape_char_def Let_def n_def)
    with 3 show ?thesis by (simp add: lex_char_def flip: n_def)
  qed
qed

lemma lex_quote: "lex_string (concat (map escape_char s) @ CHR 0x22 # r) = Some (s, r)"
proof (induction s)
  case Nil
  show ?case by (simp add: lex_string.simps [of "CHR 0x22 # r"] lex_char_def)
next
  case (Cons c s)
  let ?t = "concat (map escape_char s) @ CHR 0x22 # r"
  have "lex_string (escape_char c @ ?t) = Some (c # s, r)"
    by (subst lex_string.simps) (simp add: lex_escape Cons.IH)
  then show ?case by simp
qed

section \<open>Flat objects\<close>

definition stringify_member :: "string \<times> string \<Rightarrow> string" where
  "stringify_member kv = quote (fst kv) @ CHR '':'' # quote (snd kv)"

definition stringify_object :: "(string \<times> string) list \<Rightarrow> string" where
  "stringify_object kvs = CHR ''{'' # join '','' (map stringify_member kvs) @ ''}''"

definition parse_quoted :: "string \<Rightarrow> (string \<times> string) option" where
  "parse_quoted s = (case s of [] \<Rightarrow> None | q # r \<Rightarrow> if q = CHR 0x22 then lex_string r else None)"

definition parse_member :: "string \<Rightarrow> ((string \<times> string) \<times> string) option" where
  "parse_member s =
     (case parse_quoted s of
        None \<Rightarrow> None
      | Some (k, r) \<Rightarrow>
          (case r of [] \<Rightarrow> None
           | c # t \<Rightarrow> if c \<noteq> CHR '':'' then None
                     else (case parse_quoted t of None \<Rightarrow> None | Some (v, u) \<Rightarrow> Some ((k, v), u))))"

text \<open>The members after the opening brace; the fuel is the length of the text.\<close>

fun parse_members :: "nat \<Rightarrow> string \<Rightarrow> (string \<times> string) list option" where
  "parse_members 0 s = None"
| "parse_members (Suc n) s =
     (case parse_member s of
        None \<Rightarrow> None
      | Some (kv, r) \<Rightarrow>
          (case r of
             [] \<Rightarrow> None
           | c # t \<Rightarrow>
               if c = CHR ''}'' then (if t = [] then Some [kv] else None)
               else if c = CHR '','' then map_option ((#) kv) (parse_members n t) else None))"

definition parse_object :: "string \<Rightarrow> (string \<times> string) list option" where
  "parse_object s =
     (case s of
        [] \<Rightarrow> None
      | c # r \<Rightarrow> if c \<noteq> CHR ''{'' then None
                else if r = ''}'' then Some [] else parse_members (length r) r)"

lemma parse_quote: "parse_quoted (quote s @ r) = Some (s, r)"
  by (simp add: parse_quoted_def quote_def lex_quote)

lemma parse_stringify_member: "parse_member (stringify_member kv @ r) = Some (kv, r)"
proof -
  have "parse_quoted (quote (fst kv) @ CHR '':'' # quote (snd kv) @ r) = Some (fst kv, CHR '':'' # quote (snd kv) @ r)"
    using parse_quote by simp
  then show ?thesis using parse_quote [of "snd kv" r] by (simp add: parse_member_def stringify_member_def)
qed

lemma parse_stringify_members:
  assumes "kvs \<noteq> []" "length kvs \<le> n"
  shows "parse_members n (join '','' (map stringify_member kvs) @ ''}'') = Some kvs"
  using assms
proof (induction kvs arbitrary: n)
  case Nil
  then show ?case by simp
next
  case (Cons kv kvs)
  then obtain m where n: "n = Suc m" "length kvs \<le> m" by (cases n) auto
  show ?case
  proof (cases "kvs = []")
    case True
    with n parse_stringify_member [of kv "''}''"] show ?thesis by simp
  next
    case False
    let ?t = "join '','' (map stringify_member kvs) @ ''}''"
    have j: "join '','' (map stringify_member (kv # kvs)) @ ''}'' = stringify_member kv @ CHR '','' # ?t"
      using False join_Cons [of "map stringify_member kvs" "'',''" "stringify_member kv"] by simp
    show ?thesis
      unfolding j n(1) using Cons.IH [OF False n(2)] parse_stringify_member [of kv "CHR '','' # ?t"] by simp
  qed
qed

lemma join_length: "(\<And>x. x \<in> set xs \<Longrightarrow> x \<noteq> []) \<Longrightarrow> length xs \<le> length (join sep xs)"
proof (induction sep xs rule: join.induct)
  case (3 sep x y zs)
  from 3(2) [of x] have "1 \<le> length x" by (cases x) auto
  moreover from 3 have "length (y # zs) \<le> length (join sep (y # zs))" by auto
  ultimately show ?case by simp
qed (auto simp: Suc_le_eq)

lemma parse_stringify_object: "parse_object (stringify_object kvs) = Some kvs"
proof (cases "kvs = []")
  case True
  then show ?thesis by (simp add: parse_object_def stringify_object_def)
next
  case False
  let ?t = "join '','' (map stringify_member kvs) @ ''}''"
  have "length (map stringify_member kvs) \<le> length (join '','' (map stringify_member kvs))"
    by (rule join_length) (auto simp: stringify_member_def quote_def)
  then have "parse_members (length ?t) ?t = Some kvs" using False by (intro parse_stringify_members) simp_all
  moreover have "?t \<noteq> ''}''"
  proof -
    obtain kv rest where "kvs = kv # rest" using False by (cases kvs) auto
    then have "hd ?t = CHR 0x22"
      by (cases rest) (simp_all add: stringify_member_def quote_def)
    then show ?thesis by auto
  qed
  ultimately show ?thesis by (simp add: parse_object_def stringify_object_def)
qed

end
