(* ===== verification/Login_Page.thy ===== *)
theory Login_Page
  imports Store Json_Text
begin

text \<open>
  The login page (\<open>components/login.vue\<close>): the two validators of its form, the \<open>web.Login\<close> call,
  and its callbacks, which store the token and the credentials. The state of the page outside the
  component (both storages and the store) is the \<open>page\<close> of theory Store. Whether \<open>moment\<close> accepts
  a version text is a parameter.
\<close>

definition validateAccesskey :: "string \<Rightarrow> string option" where
  "validateAccesskey value = (if value = [] then Some ''Please fill in this field.'' else None)"

definition validateSecretkey :: "string \<Rightarrow> string option" where
  "validateSecretkey value =
     (if value = [] then Some ''Please fill in this field.''
      else if length value < 8 then Some ''Length cannot be less than 8.'' else None)"

record login_view =
  Accesskey :: string
  Secretkey :: string
  login_location :: string
  loginLoad :: bool

record login_state =
  lg_view :: login_view
  lg_page :: page

datatype login_tag = LoginReply

definition login_view_init :: "string \<Rightarrow> login_view" where
  "login_view_init host = \<lparr>Accesskey = [], Secretkey = [], login_location = host, loginLoad = False\<rparr>"

definition login_form_valid :: "login_view \<Rightarrow> bool" where
  "login_form_valid v \<longleftrightarrow> validateAccesskey (Accesskey v) = None \<and> validateSecretkey (Secretkey v) = None"

definition login_request :: "string \<Rightarrow> login_view \<Rightarrow> http_request" where
  "login_request api v =
     \<lparr>req_method = ''POST'', req_url = api @ ''/minio/webrpc'',
      req_body = rpc_body ''web.Login'' [(''username'', JStr (Accesskey v)), (''password'', JStr (Secretkey v))],
      req_auth = None\<rparr>"

definition login_submitForm :: "string \<Rightarrow> login_state \<Rightarrow> login_state \<times> login_tag cmd list" where
  "login_submitForm api s =
     (if login_form_valid (lg_view s)
      then (s\<lparr>lg_view := (lg_view s)\<lparr>loginLoad := True\<rparr>\<rparr>, [Request LoginReply (login_request api (lg_view s))])
      else (s, []))"

text \<open>An answer of the server: the error message or the result object, either may be missing.\<close>

record login_result =
  res_token :: string
  res_uiVersion :: string

record login_answer =
  ans_error :: "string option"
  ans_result :: "login_result option"

definition account_text :: "login_view \<Rightarrow> string" where
  "account_text v = stringify_object [(''Accesskey'', Accesskey v), (''Secretkey'', Secretkey v)]"

definition store_login :: "login_view \<Rightarrow> string \<Rightarrow> page \<Rightarrow> page" where
  "store_login v token p =
     p\<lparr>session := setItem ''fs3MinioLoginAccessToken'' token (session p),
       user := (user p)\<lparr>user_accessToken := token\<rparr>,
       local := setItem ''MinioAccountNumber'' (account_text v) (removeItem ''MinioAccountNumber'' (local p))\<rparr>"

text \<open>
  The \<open>then\<close> callback. \<open>currentUiVersion\<close> is the constant the build is meant to replace; with it
  unreplaced the reload branch (whose \<open>storage\<close> is not defined) is never taken.
\<close>

definition currentUiVersion :: string where
  "currentUiVersion = ''MINIO_UI_VERSION''"

definition login_answered :: "(string \<Rightarrow> bool) \<Rightarrow> login_answer \<Rightarrow> login_state \<Rightarrow> (login_state, login_tag cmd) outcome" where
  "login_answered version_ok a s =
     (case ans_error a of
        Some m \<Rightarrow> Done (s\<lparr>lg_view := (lg_view s)\<lparr>loginLoad := False\<rparr>\<rparr>) [Toast ToastError m]
      | None \<Rightarrow>
          (case ans_result a of
             None \<Rightarrow> Throws TypeError s []
           | Some r \<Rightarrow>
               andthen (Done s (if version_ok (res_uiVersion r) then []
                                else [Toast ToastError ''Invalid UI version in the JSON-RPC response'']))
                 (\<lambda>s. if res_uiVersion r \<noteq> currentUiVersion \<and> currentUiVersion \<noteq> ''MINIO_UI_VERSION''
                      then Throws ReferenceError s []
                      else Done (s\<lparr>lg_view := (lg_view s)\<lparr>loginLoad := False\<rparr>,
                                   lg_page := store_login (lg_view s) (res_token r) (lg_page s)\<rparr>)
                             [RouterReplace (ByName ''fs3'')])))"

definition login_failed :: "rejection \<Rightarrow> login_state \<Rightarrow> (login_state, login_tag cmd) outcome" where
  "login_failed e s = Done (s\<lparr>lg_view := (lg_view s)\<lparr>loginLoad := False\<rparr>\<rparr>) []"

definition login_reply :: "(string \<Rightarrow> bool) \<Rightarrow> (int option + login_answer) \<Rightarrow> login_state \<Rightarrow> (login_state, login_tag cmd) outcome" where
  "login_reply version_ok = settle (login_answered version_ok) login_failed"

definition login_resetForm :: "login_state \<Rightarrow> login_state" where
  "login_resetForm s = s\<lparr>lg_view := (lg_view s)\<lparr>Accesskey := [], Secretkey := []\<rparr>\<rparr>"

text \<open>The result a reply brings: none when the request failed or the answer is an error.\<close>

definition accepted_login :: "int option + login_answer \<Rightarrow> login_result option" where
  "accepted_login a =
     (case a of Inl _ \<Rightarrow> None | Inr ans \<Rightarrow> if ans_error ans = None then ans_result ans else None)"

lemma login_submit_requires:
  "requests (snd (login_submitForm api s)) \<noteq> [] \<Longrightarrow> Accesskey (lg_view s) \<noteq> [] \<and> 8 \<le> length (Secretkey (lg_view s))"
  by (auto simp: login_submitForm_def login_form_valid_def validateAccesskey_def validateSecretkey_def split: if_splits)

lemma account_text_parses:
  "parse_object (account_text v) = Some [(''Accesskey'', Accesskey v), (''Secretkey'', Secretkey v)]"
  by (simp add: account_text_def parse_stringify_object)

text \<open>
  C8: however a login ends, it ends: for every answer of the server and every failure the
  spinner is off and nothing is thrown; the page changes exactly when the answer carries a result and
  no error, and then the session storage and the store hold the same new token, the browser goes to
  the file page, and the credentials are kept in local storage as a text that parses back to them.
\<close>

theorem login_outcome:
  "\<exists>s' cs. login_reply version_ok a s = Done s' cs \<and> \<not> loginLoad (lg_view s') \<and>
    (case accepted_login a of
       Some r \<Rightarrow>
         user_accessToken (user (lg_page s')) = res_token r \<and> user_synced (lg_page s') \<and>
         RouterReplace (ByName ''fs3'') \<in> set cs \<and>
         map_option parse_object (getItem (local (lg_page s')) ''MinioAccountNumber'')
           = Some (Some [(''Accesskey'', Accesskey (lg_view s)), (''Secretkey'', Secretkey (lg_view s))])
     | None \<Rightarrow> lg_page s' = lg_page s)"
proof (cases a)
  case (Inl c)
  then show ?thesis by (simp add: accepted_login_def login_reply_def login_failed_def)
next
  case (Inr ans)
  then show ?thesis
    by (cases "ans_error ans"; cases "ans_result ans")
      (simp_all add: accepted_login_def login_reply_def login_answered_def login_failed_def currentUiVersion_def
        store_login_def user_synced_def stored_or_id setItem_def getItem_def account_text_parses)
qed

end
