(* ===== verification/Change_Password.thy ===== *)
theory Change_Password
  imports Login_Page "HOL-Library.Word"
begin

unbundle bit_operations_syntax

text \<open>
  The change-password dialog (\<open>components/changePassword.vue\<close>): filling the form from local
  storage when it opens, generating a random secret, enabling the Update button, the
  \<open>web.SetAuth\<close> call. The random bytes are a parameter; bytes are 8-bit words and \<open>btoa\<close> works on
  them bit by bit.
\<close>

section \<open>Base 64\<close>

definition base64_alphabet :: string where
  "base64_alphabet = ''ABCDEFGHIJKLMNOPQRSTUVWXYZabcdefghijklmnopqrstuvwxyz0123456789+/''"

definition sextet :: "8 word \<Rightarrow> char" where
  "sextet w = base64_alphabet ! unat (w AND 63)"

fun btoa :: "8 word list \<Rightarrow> string" where
  "btoa [] = []"
| "btoa [a] = [sextet (drop_bit 2 a), sextet (push_bit 4 (a AND 3)), CHR ''='', CHR ''='']"
| "btoa [a, b] =
     [sextet (drop_bit 2 a), sextet (push_bit 4 (a AND 3) OR drop_bit 4 b), sextet (push_bit 2 (b AND 15)), CHR ''='']"
| "btoa (a # b # c # r) =
     sextet (drop_bit 2 a) # sextet (push_bit 4 (a AND 3) OR drop_bit 4 b) #
     sextet (push_bit 2 (b AND 15) OR drop_bit 6 c) # sextet (c AND 63) # btoa r"

section \<open>The dialog\<close>

record password_form =
  cp_Accesskey :: json
  cp_Secretkey :: json
  cp_NewSecretkey :: string
  updateBack :: bool

record password_state =
  cp_form :: password_form
  cp_page :: page

datatype password_tag = SetAuthReply

definition password_form_init :: password_form where
  "password_form_init = \<lparr>cp_Accesskey = JStr [], cp_Secretkey = JStr [], cp_NewSecretkey = [], updateBack = True\<rparr>"

text \<open>A member of the parsed account; one that is missing is \<open>undefined\<close>.\<close>

definition member_of :: "(string \<times> string) list \<Rightarrow> string \<Rightarrow> json" where
  "member_of kvs k = (case map_of kvs k of Some v \<Rightarrow> JStr v | None \<Rightarrow> JUndef)"

text \<open>
  The watcher of \<open>changePass\<close>. With nothing stored \<open>JSON.parse(null)\<close> is \<open>null\<close> and reading a
  member of it throws.
\<close>

definition watch_changePass :: "bool \<Rightarrow> password_state \<Rightarrow> (password_state, password_tag cmd) outcome" where
  "watch_changePass changePass s =
     (if changePass then
        (case getItem (local (cp_page s)) ''MinioAccountNumber'' of
           None \<Rightarrow> Throws TypeError s []
         | Some txt \<Rightarrow>
             (case parse_object txt of
                None \<Rightarrow> Throws SyntaxError s []
              | Some assound \<Rightarrow>
                  Done (s\<lparr>cp_form := (cp_form s)\<lparr>cp_Accesskey := member_of assound ''Accesskey'',
                          cp_Secretkey := member_of assound ''Secretkey''\<rparr>\<rparr>) []))
      else Done s [])"

text \<open>The watcher of the new secret: \<open>!v && v.length < 8\<close>.\<close>

definition watch_NewSecretkey :: "password_form \<Rightarrow> password_form" where
  "watch_NewSecretkey f =
     f\<lparr>updateBack := (cp_NewSecretkey f = [] \<and> length (cp_NewSecretkey f) < 8)\<rparr>"

text \<open>Typing a new secret: the model changes and its watcher runs.\<close>

definition type_NewSecretkey :: "string \<Rightarrow> password_form \<Rightarrow> password_form" where
  "type_NewSecretkey v f = watch_NewSecretkey (f\<lparr>cp_NewSecretkey := v\<rparr>)"

definition generated_key :: "8 word list \<Rightarrow> string" where
  "generated_key arr = take 40 (replace_char CHR ''/'' CHR ''+'' (btoa arr))"

definition generate :: "8 word list \<Rightarrow> password_form \<Rightarrow> password_form" where
  "generate arr f = type_NewSecretkey (generated_key arr) f"

definition password_getClose :: "password_state \<Rightarrow> password_state \<times> password_tag cmd list" where
  "password_getClose s = (s, [Emit ''getChangePass'' [JBool False]])"

text \<open>The Update button, and its handler: the form has no rules bound, so it always validates.\<close>

definition update_enabled :: "password_form \<Rightarrow> bool" where
  "update_enabled f = (\<not> updateBack f)"

definition setAuth_request :: "string \<Rightarrow> password_state \<Rightarrow> http_request" where
  "setAuth_request api s =
     axios_post (api @ ''/minio/webrpc'')
       (rpc_body ''web.SetAuth''
          [(''currentAccessKey'', cp_Accesskey (cp_form s)), (''currentSecretKey'', cp_Secretkey (cp_form s)),
           (''newAccessKey'', cp_Accesskey (cp_form s)), (''newSecretKey'', JStr (cp_NewSecretkey (cp_form s)))])
       (user_accessToken (user (cp_page s)))"

definition password_submitForm :: "string \<Rightarrow> password_state \<Rightarrow> password_state \<times> password_tag cmd list" where
  "password_submitForm api s = (s, [Request SetAuthReply (setAuth_request api s)])"

fun setAuth_reply :: "unit rpc_reply \<Rightarrow> password_state \<Rightarrow> password_state \<times> password_tag cmd list" where
  "setAuth_reply (RpcError m) s = (s, [Toast ToastError m])"
| "setAuth_reply (RpcResult _) s = (s, [Toast ToastSuccess ''Credentials updated successfully.''])"
| "setAuth_reply (RpcFailure c) s = (s, [])"

interpretation set_auth: rpc_callback setAuth_reply
  by unfold_locales simp_all

section \<open>Facts\<close>

lemma length_btoa: "length (btoa bs) = 4 * ((length bs + 2) div 3)"
proof (induction bs rule: btoa.induct)
  case (4 a b c r)
  have "(length (a # b # c # r) + 2) div 3 = Suc ((length r + 2) div 3)"
    using div_add_self2 [of 3 "length r + 2"] by simp
  with 4 show ?case by (simp del: length_Cons)
qed auto

lemma sextet_alphabet: "sextet w \<in> set base64_alphabet"
proof -
  have "unat (w AND 63) \<le> unat (63 :: 8 word)" using word_and_le1 [of w 63] by (simp add: word_le_nat_alt)
  then have "unat (w AND 63) < length base64_alphabet" by (simp add: base64_alphabet_def)
  then show ?thesis by (simp add: sextet_def)
qed

lemma btoa_padding:
  "\<forall>c \<in> set (take (4 * (length bs div 3)) (btoa bs)). c \<in> set base64_alphabet"
proof (induction bs rule: btoa.induct)
  case (4 a b c r)
  define n where "n = 4 * (length r div 3)"
  have "4 * (length (a # b # c # r) div 3) = Suc (Suc (Suc (Suc n)))" by (simp add: n_def)
  moreover from 4 have "\<forall>c \<in> set (take n (btoa r)). c \<in> set base64_alphabet" by (simp add: n_def)
  ultimately show ?case by (simp only: btoa.simps take_Suc_Cons) (simp add: sextet_alphabet)
qed simp_all

text \<open>
  C40: a generated secret is always usable: from any forty random bytes the dialog makes a secret
  of exactly forty characters, all letters, digits or \<open>+\<close> (no slash, no padding), and enables Update.
\<close>

theorem generated_secret:
  assumes "length arr = 40"
  shows "length (cp_NewSecretkey (generate arr f)) = 40 \<and>
    (\<forall>c \<in> set (cp_NewSecretkey (generate arr f)). c \<in> set base64_alphabet \<and> c \<noteq> CHR ''/'' \<and> c \<noteq> CHR ''='') \<and>
    update_enabled (generate arr f) \<and> validateSecretkey (cp_NewSecretkey (generate arr f)) = None"
proof -
  let ?k = "generated_key arr"
  have len: "length ?k = 40" using assms by (simp add: generated_key_def length_btoa)
  have "set (take 52 (btoa arr)) \<subseteq> set base64_alphabet" using btoa_padding [of arr] assms by auto
  moreover have "set (take 40 (btoa arr)) \<subseteq> set (take 52 (btoa arr))" by (rule set_take_subset_set_take) simp
  ultimately have "set (take 40 (btoa arr)) \<subseteq> set base64_alphabet" by blast
  moreover have "?k = replace_char CHR ''/'' CHR ''+'' (take 40 (btoa arr))"
    by (simp add: generated_key_def replace_char_def take_map)
  ultimately have "set ?k \<subseteq> insert CHR ''+'' (set base64_alphabet - {CHR ''/''})"
    using set_replace_char [of "CHR ''/''" "CHR ''+''" "take 40 (btoa arr)"] by auto
  also have "\<dots> \<subseteq> {c \<in> set base64_alphabet. c \<noteq> CHR ''/'' \<and> c \<noteq> CHR ''=''}"
    by (auto simp: base64_alphabet_def)
  finally have "\<forall>c \<in> set ?k. c \<in> set base64_alphabet \<and> c \<noteq> CHR ''/'' \<and> c \<noteq> CHR ''=''" by auto
  moreover have "?k \<noteq> []" using len by auto
  ultimately show ?thesis
    using len by (simp add: generate_def type_NewSecretkey_def watch_NewSecretkey_def update_enabled_def validateSecretkey_def)
qed

theorem generated_secret_witness:
  "length (cp_NewSecretkey (generate (replicate 40 0xFF) password_form_init)) = 40"
  using generated_secret [of "replicate 40 0xFF" password_form_init] by simp

text \<open>
  The length check of the Update button never takes effect: any secret of one to seven
  characters enables it and is sent to the server, although the login form refuses that secret
  afterwards; and after a successful change the dialog, opened again, still shows the old secret,
  because local storage keeps it.
\<close>

theorem short_secret_accepted:
  assumes "v \<noteq> []" "length v < 8" "getItem (local (cp_page s)) ''MinioAccountNumber'' = Some (account_text w)"
  shows "update_enabled (type_NewSecretkey v f) \<and> validateSecretkey v \<noteq> None \<and>
    (\<exists>s'. watch_changePass True (fst (setAuth_reply (RpcResult ())
       (fst (password_submitForm api (s\<lparr>cp_form := type_NewSecretkey v f\<rparr>))))) = Done s' [] \<and>
       cp_Secretkey (cp_form s') = JStr (Secretkey w))"
  using assms
  by (auto simp: update_enabled_def type_NewSecretkey_def watch_NewSecretkey_def validateSecretkey_def
      password_submitForm_def watch_changePass_def account_text_parses member_of_def)

theorem short_secret_accepted_witness:
  "update_enabled (type_NewSecretkey ''abc'' password_form_init) \<and> validateSecretkey ''abc'' \<noteq> None"
  using short_secret_accepted [of "''abc''"
      "\<lparr>cp_form = password_form_init, cp_page = store_login (login_view_init []) ''t'' (store_init Map.empty Map.empty)\<rparr>"
      "login_view_init []" password_form_init "[]"]
  by (simp add: store_login_def store_init_def setItem_def getItem_def)

end
