(* ===== verification/Slide.thy ===== *)
theory Slide
  imports Store
begin

text \<open>
  The side bar (\<open>components/Slide.vue\<close>): the bucket list with its search box and per-bucket menu,
  the bucket-policy dialog, the highlighted entry, logging out. The bucket list is a property of
  the parent, whose objects the search result shares: \<open>bucket_view\<close> keeps that aliasing, a search
  result being a list of positions in the parent's list and an unfiltered list a deep copy.
\<close>

section \<open>State\<close>

record bucket =
  bk_name :: string
  bk_show :: bool

datatype bucket_view = Copied "bucket list" | Shared "nat list"

record bucket_policy =
  bp_bucket :: string
  bp_prefix :: string
  bp_policy :: string

record slide =
  sl_minioListBuckets :: "bucket list option" \<comment> \<open>the property; \<open>None\<close> when \<open>buckets\<close> is null\<close>
  sl_currentBucket :: string
  sl_homeClick :: bool
  sl_search :: string
  sl_all :: "bucket_view option" \<comment> \<open>\<open>minioListBucketsAll.buckets\<close>\<close>
  sl_dialogFormVisible :: bool
  sl_titlePolicy :: string
  sl_value :: string
  sl_valueSelect :: string
  sl_policies :: "bucket_policy list option"
  sl_shareDialog :: bool
  sl_shareObjectShow :: bool
  sl_shareFileShow :: bool
  sl_retrievalDialog :: bool
  sl_allActive :: bool
  sl_activeTree :: string
  sl_introduceColor :: bool
  sl_menuStretch :: bool
  sl_mobileMenuShow :: bool

datatype slide_tag =
    DiscoveryReply
  | SetPolicyReply
  | DeleteBucketReply
  | PoliciesReply
  | MenuTick "nat option"

type_synonym slide_cmd = "slide_tag cmd"

definition policy_options :: "(string \<times> string) list" where
  "policy_options = [(''readonly'', ''Read Only''), (''writeonly'', ''Write Only''), (''readwrite'', ''Read and Write'')]"

definition slide_init :: slide where
  "slide_init =
     \<lparr>sl_minioListBuckets = Some [], sl_currentBucket = [], sl_homeClick = False, sl_search = [], sl_all = None,
      sl_dialogFormVisible = False, sl_titlePolicy = ''Bucket Policy '', sl_value = [],
      sl_valueSelect = ''readonly'', sl_policies = Some [], sl_shareDialog = False, sl_shareObjectShow = True,
      sl_shareFileShow = False, sl_retrievalDialog = False, sl_allActive = True, sl_activeTree = [],
      sl_introduceColor = False, sl_menuStretch = False, sl_mobileMenuShow = False\<rparr>"

section \<open>The bucket list\<close>

text \<open>The buckets on display: the copy, or the parent's own objects.\<close>

definition shown_list :: "slide \<Rightarrow> bucket list" where
  "shown_list s =
     (case sl_all s of
        None \<Rightarrow> []
      | Some (Copied bs) \<Rightarrow> bs
      | Some (Shared is) \<Rightarrow> (case sl_minioListBuckets s of None \<Rightarrow> [] | Some P \<Rightarrow> map (\<lambda>i. P ! i) is))"

text \<open>\<open>JSON.parse(JSON.stringify(minioListBuckets))\<close>.\<close>

definition copy_prop :: "slide \<Rightarrow> slide" where
  "copy_prop s = s\<lparr>sl_all := map_option Copied (sl_minioListBuckets s)\<rparr>"

definition hide :: "bucket \<Rightarrow> bucket" where
  "hide b = b\<lparr>bk_show := False\<rparr>"

definition getMinioData :: "slide \<Rightarrow> slide" where
  "getMinioData s =
     (case sl_minioListBuckets s of
        Some P \<Rightarrow> copy_prop (s\<lparr>sl_minioListBuckets := Some (map hide P)\<rparr>)
      | None \<Rightarrow> copy_prop s)"

text \<open>The parent hands over a new list, and the watcher runs.\<close>

definition receive_buckets :: "bucket list option \<Rightarrow> slide \<Rightarrow> slide" where
  "receive_buckets P s = getMinioData (s\<lparr>sl_minioListBuckets := P\<rparr>)"

text \<open>Positions of the buckets whose name contains the search text.\<close>

definition matching :: "string \<Rightarrow> bucket list \<Rightarrow> nat list" where
  "matching pat P = filter (\<lambda>i. 0 \<le> js_indexOf (bk_name (P ! i)) pat) [0..<length P]"

definition searchBucketFun :: "slide \<Rightarrow> slide" where
  "searchBucketFun s =
     (if sl_search s \<noteq> []
      then s\<lparr>sl_all := Some (Shared (case sl_minioListBuckets s of None \<Rightarrow> [] | Some P \<Rightarrow> matching (sl_search s) P))\<rparr>
      else copy_prop s)"

definition type_search :: "string \<Rightarrow> slide \<Rightarrow> slide" where
  "type_search v s = searchBucketFun (s\<lparr>sl_search := v\<rparr>)"

text \<open>Setting \<open>show\<close> on every displayed bucket, through the sharing.\<close>

definition update_shown :: "(nat \<Rightarrow> bool) \<Rightarrow> slide \<Rightarrow> slide" where
  "update_shown f s =
     (case sl_all s of
        None \<Rightarrow> s
      | Some (Copied bs) \<Rightarrow> s\<lparr>sl_all := Some (Copied (map (\<lambda>(i, b). b\<lparr>bk_show := f i\<rparr>) (enumerate 0 bs)))\<rparr>
      | Some (Shared is) \<Rightarrow>
          (case sl_minioListBuckets s of
             None \<Rightarrow> s
           | Some P \<Rightarrow> s\<lparr>sl_minioListBuckets :=
               Some (fold (\<lambda>(k, i) Q. Q[i := (Q ! i)\<lparr>bk_show := f k\<rparr>]) (enumerate 0 is) P)\<rparr>))"

text \<open>The deferred part of \<open>caozuoFun\<close>; no index closes every menu.\<close>

definition menu_tick :: "nat option \<Rightarrow> slide \<Rightarrow> slide \<times> slide_cmd list" where
  "menu_tick index s =
     (update_shown (\<lambda>i. index = Some i) s,
      (case index of
         Some i \<Rightarrow> if i < length (shown_list s) then [Emit ''homeClickFun'' [JBool True]] else []
       | None \<Rightarrow> []))"

definition getListBucket :: "string \<Rightarrow> bool \<Rightarrow> bool \<Rightarrow> bool \<Rightarrow> slide \<Rightarrow> slide \<times> slide_cmd list" where
  "getListBucket name allDeal silde push s =
     (s\<lparr>sl_allActive := allDeal\<rparr>,
      [Emit ''getminioListBucket'' [JStr name, JBool allDeal, JBool silde, JBool push]])"

definition caozuoFun :: "nat option \<Rightarrow> string \<Rightarrow> slide \<Rightarrow> slide \<times> slide_cmd list" where
  "caozuoFun index name s =
     (if name \<noteq> [] then
        (let (s', cs) = getListBucket name True False False s in (s', NextTick (MenuTick index) # cs))
      else (s, [NextTick (MenuTick index)]))"

section \<open>Policies\<close>

definition slide_post :: "string \<Rightarrow> string \<Rightarrow> slide_tag \<Rightarrow> string \<Rightarrow> (string \<times> json) list \<Rightarrow> slide_cmd" where
  "slide_post api token t meth params = Request t (axios_post (api @ ''/minio/webrpc'') (rpc_body meth params) token)"

definition getListAllBucketPolicies :: "string \<Rightarrow> string \<Rightarrow> string \<Rightarrow> slide \<Rightarrow> slide \<times> slide_cmd list" where
  "getListAllBucketPolicies api token name s =
     (s, [slide_post api token PoliciesReply ''web.ListAllBucketPolicies'' [(''bucketName'', JStr name)]])"

fun policies_reply :: "bucket_policy list option rpc_reply \<Rightarrow> slide \<Rightarrow> slide \<times> slide_cmd list" where
  "policies_reply (RpcError m) s = (s, [Toast ToastError m])"
| "policies_reply (RpcFailure c) s = (s, [])"
| "policies_reply (RpcResult ps) s = (s\<lparr>sl_policies := ps\<rparr>, [])"

definition removePolicies :: "string \<Rightarrow> string \<Rightarrow> bucket_policy \<Rightarrow> slide \<Rightarrow> slide \<times> slide_cmd list" where
  "removePolicies api token content s =
     (s, [slide_post api token SetPolicyReply ''web.SetBucketPolicy''
            [(''bucketName'', JStr (bp_bucket content)), (''policy'', JStr ''none''), (''prefix'', JStr (bp_prefix content))]])"

definition setPolicyChange :: "string \<Rightarrow> string \<Rightarrow> slide \<Rightarrow> slide \<times> slide_cmd list" where
  "setPolicyChange api token s =
     (s, [slide_post api token SetPolicyReply ''web.SetBucketPolicy''
            [(''bucketName'', JStr (sl_currentBucket s)), (''policy'', JStr (sl_valueSelect s)),
             (''prefix'', JStr (sl_value s))]])"

text \<open>Both callers of \<open>web.SetBucketPolicy\<close> have the same callback.\<close>

fun setPolicy_reply :: "string \<Rightarrow> string \<Rightarrow> unit rpc_reply \<Rightarrow> slide \<Rightarrow> slide \<times> slide_cmd list" where
  "setPolicy_reply api token (RpcError m) s = (s, [Toast ToastError m])"
| "setPolicy_reply api token (RpcFailure c) s = (s, [])"
| "setPolicy_reply api token (RpcResult _) s =
     getListAllBucketPolicies api token (sl_currentBucket s) (s\<lparr>sl_value := []\<rparr>)"

text \<open>The test of \<open>addPolicies\<close>, with the precedence of \<open>||\<close> and \<open>&&\<close> as written.\<close>

definition policy_conflicts :: "slide \<Rightarrow> bucket_policy \<Rightarrow> bool" where
  "policy_conflicts s item \<longleftrightarrow>
     (bp_prefix item = sl_value s \<and> bp_policy item = sl_valueSelect s) \<or>
     ((bp_prefix item = [] \<and> sl_value s = ''*'') \<and> bp_policy item \<noteq> sl_valueSelect s)"

definition addPolicies :: "string \<Rightarrow> string \<Rightarrow> slide \<Rightarrow> slide \<times> slide_cmd list" where
  "addPolicies api token s =
     (let conflicts = filter (policy_conflicts s) (case sl_policies s of None \<Rightarrow> [] | Some ps \<Rightarrow> ps);
          warnings = map (\<lambda>_. Toast ToastWarning ''Policy for this prefix already exists.'') conflicts
      in if conflicts \<noteq> [] then (s, warnings) else setPolicyChange api token s)"

definition dialogFun :: "string \<Rightarrow> string \<Rightarrow> string \<Rightarrow> slide \<Rightarrow> (slide, slide_cmd) outcome" where
  "dialogFun api token name s =
     (let s1 = s\<lparr>sl_titlePolicy := ''Bucket Policy ('' @ name @ '')'', sl_dialogFormVisible := True\<rparr>
      in case sl_all s1 of
           None \<Rightarrow> Throws TypeError s1 []
         | Some _ \<Rightarrow> (let (s2, cs) = getListAllBucketPolicies api token name (update_shown (\<lambda>i. False) s1) in Done s2 cs))"

definition dialogDeleteFun :: "string \<Rightarrow> string \<Rightarrow> string \<Rightarrow> slide \<Rightarrow> slide \<times> slide_cmd list" where
  "dialogDeleteFun api token name s =
     (s, [slide_post api token DeleteBucketReply ''web.DeleteBucket'' [(''bucketName'', JStr name)]])"

fun deleteBucket_reply :: "unit rpc_reply \<Rightarrow> slide \<Rightarrow> slide \<times> slide_cmd list" where
  "deleteBucket_reply (RpcError m) s = (s, [Toast ToastError m])"
| "deleteBucket_reply (RpcFailure c) s = (s, [])"
| "deleteBucket_reply (RpcResult _) s = (s, [Emit ''getListBuckets'' []])"

section \<open>Session, navigation, layout\<close>

definition slide_logout :: "string \<Rightarrow> string \<Rightarrow> slide \<Rightarrow> slide \<times> slide_cmd list" where
  "slide_logout api token s = (s, [slide_post api token DiscoveryReply ''web.GetDiscoveryDoc'' []])"

text \<open>The callback works on the page: the store action, then the router.\<close>

fun discovery_reply :: "unit rpc_reply \<Rightarrow> page \<Rightarrow> page \<times> slide_cmd list" where
  "discovery_reply (RpcError m) p = (p, [Toast ToastError m])"
| "discovery_reply (RpcFailure c) p = (p, [])"
| "discovery_reply (RpcResult _) p = (fst (FedLogOut p), [DispatchFedLogOut, RouterReplace (ByName ''login'')])"

definition handleNodeClick :: "string \<Rightarrow> slide \<Rightarrow> slide \<times> slide_cmd list" where
  "handleNodeClick urlName s =
     (if urlName \<noteq> [] then
        (let (s', cs) = getListBucket [] False True False s in (s', RouterPush (ByName urlName) # cs))
      else (s, []))"

text \<open>\<open>productName\<close>: a route without a name is \<open>undefined\<close>, and its \<open>indexOf\<close> throws.\<close>

definition productName :: "string option \<Rightarrow> slide \<Rightarrow> (slide, slide_cmd) outcome" where
  "productName name s =
     (let s1 = s\<lparr>sl_introduceColor := (name = Some ''backup''), sl_activeTree := []\<rparr>
      in case name of
           None \<Rightarrow> Throws TypeError s1 []
         | Some n \<Rightarrow>
             Done (if js_indexOf n ''my_account'' > -1 then
                     (if n = ''my_account_backupPlans'' \<or> n = ''my_account_myPlans'' then s1\<lparr>sl_activeTree := ''3''\<rparr>
                      else if n = ''my_account_jobs'' then s1\<lparr>sl_activeTree := ''4''\<rparr>
                      else s1\<lparr>sl_activeTree := ''2''\<rparr>)
                   else s1) [])"

definition menuToggleStreth :: "bool \<Rightarrow> slide \<Rightarrow> slide \<times> slide_cmd list" where
  "menuToggleStreth stretch s = (s\<lparr>sl_menuStretch := stretch\<rparr>, [Emit ''getMenuStretch'' [JBool stretch]])"

definition slide_getshareDialog :: "bool \<Rightarrow> slide \<Rightarrow> slide" where
  "slide_getshareDialog v s = s\<lparr>sl_shareDialog := v\<rparr>"

definition slide_getretrievalDialog :: "bool \<Rightarrow> slide \<Rightarrow> slide" where
  "slide_getretrievalDialog v s = s\<lparr>sl_retrievalDialog := v\<rparr>"

definition backupFun :: "slide \<Rightarrow> slide \<times> slide_cmd list" where
  "backupFun s =
     (s\<lparr>sl_shareDialog := True, sl_shareObjectShow := False, sl_shareFileShow := True\<rparr>,
      [Emit ''getshareHome'' [JBool True, JBool False, JBool True]])"

definition retrievalFun :: "slide \<Rightarrow> slide \<times> slide_cmd list" where
  "retrievalFun s = (s, [Emit ''getretrievalHome'' [JBool True]])"

definition mobileMenuFun :: "slide \<Rightarrow> slide \<times> slide_cmd list" where
  "mobileMenuFun s =
     (let s' = s\<lparr>sl_mobileMenuShow := \<not> sl_mobileMenuShow s\<rparr>
      in (s', if sl_mobileMenuShow s' then [DomCall ''body height 100vh'', DomCall ''body overflow-y hidden'']
              else [DomCall ''body height auto'', DomCall ''body overflow-y auto'']))"

definition slide_mounted :: "string option \<Rightarrow> slide \<Rightarrow> (slide, slide_cmd) outcome" where
  "slide_mounted name s = productName name (getMinioData s)"

section \<open>Template conditions\<close>

text \<open>The menus that are open: an item that shows while the parent keeps \<open>homeClick\<close>.\<close>

definition open_menus :: "slide \<Rightarrow> string list" where
  "open_menus s = (if sl_homeClick s then map bk_name (filter bk_show (shown_list s)) else [])"

definition highlighted :: "slide \<Rightarrow> string list" where
  "highlighted s = map bk_name (filter (\<lambda>b. bk_name b = sl_currentBucket s \<and> sl_allActive s) (shown_list s))"

section \<open>Callback contracts\<close>

interpretation policies: rpc_callback policies_reply
  by unfold_locales simp_all

interpretation set_policy: rpc_callback "setPolicy_reply api token" for api token
  by unfold_locales simp_all

interpretation delete_bucket: rpc_callback deleteBucket_reply
  by unfold_locales simp_all

interpretation discovery: rpc_callback discovery_reply
  by unfold_locales simp_all

section \<open>The view and its sharing\<close>

text \<open>A search result holds distinct positions of the parent's list.\<close>

definition view_ok :: "slide \<Rightarrow> bool" where
  "view_ok s \<longleftrightarrow>
     (case sl_all s of
        Some (Shared is) \<Rightarrow> distinct is \<and> (case sl_minioListBuckets s of None \<Rightarrow> is = [] | Some P \<Rightarrow> \<forall>i \<in> set is. i < length P)
      | _ \<Rightarrow> True)"

definition set_shows :: "(nat \<Rightarrow> bool) \<Rightarrow> nat list \<Rightarrow> bucket list \<Rightarrow> bucket list" where
  "set_shows f is P = fold (\<lambda>(k, i) Q. Q[i := (Q ! i)\<lparr>bk_show := f k\<rparr>]) (enumerate 0 is) P"

lemma set_shows_snoc:
  "set_shows f (is @ [i]) P = (set_shows f is P)[i := (set_shows f is P ! i)\<lparr>bk_show := f (length is)\<rparr>]"
  by (simp add: set_shows_def enumerate_append_eq)

lemma length_set_shows [simp]: "length (set_shows f is P) = length P"
  by (induction "is" rule: rev_induct) (simp_all add: set_shows_snoc, simp add: set_shows_def)

lemma set_shows_other: "j \<notin> set is \<Longrightarrow> set_shows f is P ! j = P ! j"
  by (induction "is" rule: rev_induct) (simp_all add: set_shows_snoc, simp add: set_shows_def)

lemma set_shows_at:
  assumes "distinct is" "\<forall>i \<in> set is. i < length P"
  shows "map (\<lambda>i. set_shows f is P ! i) is = map (\<lambda>(k, i). (P ! i)\<lparr>bk_show := f k\<rparr>) (enumerate 0 is)"
  using assms
proof (induction "is" rule: rev_induct)
  case Nil
  show ?case by simp
next
  case (snoc i "is")
  then have i: "i \<notin> set is" "i < length P" by auto
  have A: "map (\<lambda>j. set_shows f (is @ [i]) P ! j) is = map (\<lambda>j. set_shows f is P ! j) is"
  proof (rule map_cong [OF refl])
    fix j
    assume "j \<in> set is"
    with i(1) have "i \<noteq> j" by blast
    then show "set_shows f (is @ [i]) P ! j = set_shows f is P ! j" by (simp add: set_shows_snoc)
  qed
  have B: "set_shows f (is @ [i]) P ! i = (P ! i)\<lparr>bk_show := f (length is)\<rparr>"
    using i by (simp add: set_shows_snoc set_shows_other)
  from snoc have IH: "map (\<lambda>i. set_shows f is P ! i) is = map (\<lambda>(k, i). (P ! i)\<lparr>bk_show := f k\<rparr>) (enumerate 0 is)"
    by simp
  show ?case unfolding map_append A IH enumerate_append_eq by (simp add: B)
qed

lemma shown_update:
  assumes "view_ok s"
  shows "shown_list (update_shown f s) = map (\<lambda>(k, b). b\<lparr>bk_show := f k\<rparr>) (enumerate 0 (shown_list s))"
proof (cases "sl_all s")
  case None
  then show ?thesis by (simp add: shown_list_def update_shown_def)
next
  case (Some v)
  show ?thesis
  proof (cases v)
    case (Copied bs)
    with Some show ?thesis by (simp add: shown_list_def update_shown_def)
  next
    case (Shared "is")
    show ?thesis
    proof (cases "sl_minioListBuckets s")
      case None
      with Some Shared show ?thesis by (simp add: shown_list_def update_shown_def)
    next
      case (Some P)
      with \<open>sl_all s = Some v\<close> Shared assms have ok: "distinct is" "\<forall>i \<in> set is. i < length P"
        by (simp_all add: view_ok_def)
      have "enumerate 0 (map (\<lambda>i. P ! i) is) = map (\<lambda>(k, i). (k, P ! i)) (enumerate 0 is)"
        by (simp add: enumerate_map_upt list_eq_iff_nth_eq nth_enumerate_eq)
      then show ?thesis
        using Some \<open>sl_all s = Some v\<close> Shared set_shows_at [OF ok, of f]
        by (simp add: shown_list_def update_shown_def set_shows_def comp_def case_prod_unfold)
    qed
  qed
qed

text \<open>
  Opening a bucket's menu closes the others: after the deferred part of a click on the \<open>i\<close>-th
  displayed bucket exactly that bucket shows its menu, whether the list is the full copy or a search
  result sharing the parent's objects, and no bucket is renamed, dropped or reordered.
\<close>

theorem menu_tick_shows_one:
  assumes "view_ok s" "i < length (shown_list s)"
  shows "map bk_show (shown_list (fst (menu_tick (Some i) s))) = map (\<lambda>k. k = i) [0..<length (shown_list s)] \<and>
    map bk_name (shown_list (fst (menu_tick (Some i) s))) = map bk_name (shown_list s)"
proof -
  let ?l = "shown_list s"
  have e: "shown_list (fst (menu_tick (Some i) s)) = map (\<lambda>(k, b). b\<lparr>bk_show := (Some i = Some k)\<rparr>) (enumerate 0 ?l)"
    using shown_update [OF assms(1), of "\<lambda>k. Some i = Some k"] by (simp add: menu_tick_def)
  show ?thesis
    unfolding e by (intro conjI nth_equalityI) (auto simp: nth_enumerate_eq)
qed

theorem menu_tick_shows_one_witness:
  "map bk_show (shown_list (fst (menu_tick (Some 1) (type_search ''b''
      (receive_buckets (Some [\<lparr>bk_name = ''ab'', bk_show = False\<rparr>, \<lparr>bk_name = ''c'', bk_show = False\<rparr>,
         \<lparr>bk_name = ''cb'', bk_show = False\<rparr>]) slide_init))))) = [False, True]"
proof -
  let ?s = "type_search ''b'' (receive_buckets (Some [\<lparr>bk_name = ''ab'', bk_show = False\<rparr>,
    \<lparr>bk_name = ''c'', bk_show = False\<rparr>, \<lparr>bk_name = ''cb'', bk_show = False\<rparr>]) slide_init)"
  have all: "sl_all ?s = Some (Shared [0, 2])" "sl_minioListBuckets ?s = Some [\<lparr>bk_name = ''ab'', bk_show = False\<rparr>,
    \<lparr>bk_name = ''c'', bk_show = False\<rparr>, \<lparr>bk_name = ''cb'', bk_show = False\<rparr>]"
    by code_simp+
  then have "view_ok ?s" "length (shown_list ?s) = 2" by (simp_all add: view_ok_def shown_list_def)
  then show ?thesis using menu_tick_shows_one [of ?s 1] by (simp add: numeral_2_eq_2)
qed

section \<open>Reachable side bars\<close>

text \<open>
  The side bar as the parent and the user drive it. The lists the parent hands over come from the
  server, without \<open>show\<close> flags set.
\<close>

inductive slide_reach :: "slide \<Rightarrow> bool" where
  start: "slide_reach (getMinioData slide_init)"
| receive: "slide_reach s \<Longrightarrow> slide_reach (receive_buckets P s)"
| search: "slide_reach s \<Longrightarrow> slide_reach (type_search v s)"
| menu: "slide_reach s \<Longrightarrow> slide_reach (fst (menu_tick i s))"
| home: "slide_reach s \<Longrightarrow> slide_reach (s\<lparr>sl_homeClick := b\<rparr>)"
| current: "slide_reach s \<Longrightarrow> slide_reach (s\<lparr>sl_currentBucket := b\<rparr>)"
| policy: "slide_reach s \<Longrightarrow> slide_reach (out_state (dialogFun api token name s))"

lemma update_shown_frame:
  "sl_all (update_shown f s) = None \<longleftrightarrow> sl_all s = None"
  "map_option length (sl_minioListBuckets (update_shown f s)) = map_option length (sl_minioListBuckets s)"
  "sl_all s = Some (Shared is) \<Longrightarrow> sl_all (update_shown f s) = Some (Shared is)"
  "sl_all s = Some (Copied bs) \<Longrightarrow> \<exists>bs'. sl_all (update_shown f s) = Some (Copied bs')"
  by (auto simp: update_shown_def split: option.splits bucket_view.splits simp flip: set_shows_def)

lemma view_ok_update: "view_ok s \<Longrightarrow> view_ok (update_shown f s)"
  using update_shown_frame [where f = f and s = s]
  by (auto simp: view_ok_def split: option.splits bucket_view.splits)

lemma view_ok_copy: "view_ok (copy_prop s)"
  by (simp add: view_ok_def copy_prop_def split: option.split)

lemma view_ok_cong:
  "sl_all s = sl_all t \<Longrightarrow> sl_minioListBuckets s = sl_minioListBuckets t \<Longrightarrow> view_ok s = view_ok t"
  by (cases "sl_all t") (simp_all add: view_ok_def split: bucket_view.split)

lemma reachable_view_ok: "slide_reach s \<Longrightarrow> view_ok s"
proof (induction rule: slide_reach.induct)
  case (search s v)
  then show ?case
    by (auto simp: type_search_def searchBucketFun_def view_ok_copy)
      (auto simp: view_ok_def matching_def split: option.splits)
next
  case (home s b)
  then show ?case using view_ok_cong [of "s\<lparr>sl_homeClick := b\<rparr>" s] by simp
next
  case (current s b)
  then show ?case using view_ok_cong [of "s\<lparr>sl_currentBucket := b\<rparr>" s] by simp
next
  case (policy s api token name)
  then have "view_ok (s\<lparr>sl_titlePolicy := x, sl_dialogFormVisible := True\<rparr>)" for x
    by (subst view_ok_cong [of _ s]) simp_all
  then show ?case
    by (simp add: dialogFun_def Let_def getListAllBucketPolicies_def view_ok_update split: option.split)
qed (auto simp: getMinioData_def receive_buckets_def view_ok_copy menu_tick_def view_ok_update split: option.splits)

text \<open>
  The sharing leaks: two menus can be open at once. A menu opened in a search result marks the
  parent's object; a search changed from the keyboard hides that bucket from the clean-up (a click
  on the side bar would close the displayed menus first), and clearing the search brings the mark
  back beside the one opened since.
\<close>

theorem two_menus_after_search:
  "\<exists>s. slide_reach s \<and> open_menus s = [''a'', ''b'']"
proof -
  let ?P = "Some [\<lparr>bk_name = ''a'', bk_show = False\<rparr>, \<lparr>bk_name = ''b'', bk_show = False\<rparr>]"
  define s where "s = type_search [] (fst (menu_tick (Some 0) (type_search ''b'' (fst (menu_tick (Some 0)
      (type_search ''a'' (receive_buckets ?P ((getMinioData slide_init)\<lparr>sl_homeClick := True\<rparr>))))))))"
  have "slide_reach s" unfolding s_def by (intro slide_reach.intros)
  moreover have "open_menus s = [''a'', ''b'']" unfolding s_def by code_simp
  ultimately show ?thesis by blast
qed

section \<open>Policies and session\<close>

text \<open>
  Adding a policy sends exactly one request or none: it warns once for every conflicting entry
  and sends nothing, or it sends one \<open>web.SetBucketPolicy\<close> with the form's prefix and policy. For the
  whole bucket, shown and entered as \<open>*\<close>, the test is the wrong way round: the same policy again is
  sent, a different one is refused.
\<close>

theorem addPolicies_requests:
  "snd (addPolicies api token s) =
     (if \<exists>item \<in> set (case sl_policies s of None \<Rightarrow> [] | Some ps \<Rightarrow> ps). policy_conflicts s item
      then replicate (length (filter (policy_conflicts s) (the (sl_policies s))))
             (Toast ToastWarning ''Policy for this prefix already exists.'')
      else [slide_post api token SetPolicyReply ''web.SetBucketPolicy''
              [(''bucketName'', JStr (sl_currentBucket s)), (''policy'', JStr (sl_valueSelect s)),
               (''prefix'', JStr (sl_value s))]]) \<and>
   (sl_policies s = Some [\<lparr>bp_bucket = b, bp_prefix = [], bp_policy = p\<rparr>] \<and> sl_value s = ''*'' \<longrightarrow>
     (requests (snd (addPolicies api token s)) \<noteq> [] \<longleftrightarrow> sl_valueSelect s = p))"
proof
  have "filter (policy_conflicts s) ps = [] \<longleftrightarrow> (\<forall>x \<in> set ps. \<not> policy_conflicts s x)" for ps
    by (simp add: filter_empty_conv)
  then show "snd (addPolicies api token s) =
     (if \<exists>item \<in> set (case sl_policies s of None \<Rightarrow> [] | Some ps \<Rightarrow> ps). policy_conflicts s item
      then replicate (length (filter (policy_conflicts s) (the (sl_policies s))))
             (Toast ToastWarning ''Policy for this prefix already exists.'')
      else [slide_post api token SetPolicyReply ''web.SetBucketPolicy''
              [(''bucketName'', JStr (sl_currentBucket s)), (''policy'', JStr (sl_valueSelect s)),
               (''prefix'', JStr (sl_value s))]])"
    by (cases "sl_policies s") (auto simp: addPolicies_def Let_def setPolicyChange_def map_replicate_const)
next
  show "sl_policies s = Some [\<lparr>bp_bucket = b, bp_prefix = [], bp_policy = p\<rparr>] \<and> sl_value s = ''*'' \<longrightarrow>
     (requests (snd (addPolicies api token s)) \<noteq> [] \<longleftrightarrow> sl_valueSelect s = p)"
    by (auto simp: addPolicies_def Let_def policy_conflicts_def setPolicyChange_def slide_post_def)
qed

theorem addPolicies_requests_witness:
  "requests (snd (addPolicies [] [] (slide_init\<lparr>sl_policies := Some [\<lparr>bp_bucket = ''b'', bp_prefix = [], bp_policy = ''readonly''\<rparr>],
      sl_value := ''*'', sl_valueSelect := ''readwrite''\<rparr>))) = []"
  using addPolicies_requests [of "[]" "[]" "slide_init\<lparr>sl_policies := Some [\<lparr>bp_bucket = ''b'', bp_prefix = [], bp_policy = ''readonly''\<rparr>],
      sl_value := ''*'', sl_valueSelect := ''readwrite''\<rparr>" "''b''" "''readonly''", THEN conjunct2]
  by simp

text \<open>
  Logging out depends on the server's answer: when the discovery call fails or is refused (an
  expired token is refused), nothing changes in the storages or the store and no page is left, and
  the only trace is the error message; a successful answer clears the session keys and the token.
\<close>

theorem logout_needs_answer:
  "(\<not> rpc_ok r \<longrightarrow> fst (discovery_reply r p) = p \<and> requests (snd (discovery_reply r p)) = [] \<and>
      RouterReplace (ByName ''login'') \<notin> set (snd (discovery_reply r p))) \<and>
   (rpc_ok r \<longrightarrow> user_accessToken (user (fst (discovery_reply r p))) = [] \<and>
      getItem (session (fst (discovery_reply r p))) ''fs3MinioLoginAccessToken'' = None \<and>
      RouterReplace (ByName ''login'') \<in> set (snd (discovery_reply r p)))"
  using discovery.unsuccessful_keeps_state [of r p] discovery.unsuccessful_issues_no_request [of r p]
  by (cases r) (simp_all add: fed_logout_token fed_logout_session fed_logout_keys_def)

theorem logout_needs_answer_witness:
  "fst (discovery_reply (RpcFailure (Some 401)) (store_init Map.empty Map.empty)) = store_init Map.empty Map.empty"
  using logout_needs_answer [of "RpcFailure (Some 401)" "store_init Map.empty Map.empty"] by simp

lemma productName_entry:
  "productName (Some ''my_account_myPlans'') s = Done (s\<lparr>sl_introduceColor := False, sl_activeTree := ''3''\<rparr>) []"
  "productName (Some ''my_account_jobs'') s = Done (s\<lparr>sl_introduceColor := False, sl_activeTree := ''4''\<rparr>) []"
  "productName (Some ''my_account_dashboard'') s = Done (s\<lparr>sl_introduceColor := False, sl_activeTree := ''2''\<rparr>) []"
  "productName (Some ''backup'') s = Done (s\<lparr>sl_introduceColor := True, sl_activeTree := []\<rparr>) []"
  by (simp_all add: productName_def js_indexOf_def)

lemma search_shows_matches:
  "sl_minioListBuckets s = Some P \<Longrightarrow> v \<noteq> [] \<Longrightarrow>
     shown_list (type_search v s) = filter (\<lambda>b. 0 \<le> js_indexOf (bk_name b) v) P"
proof -
  assume P: "sl_minioListBuckets s = Some P" and v: "v \<noteq> []"
  have "map (\<lambda>i. P ! i) (filter (\<lambda>i. Q (P ! i)) [0..<length P]) = filter Q P" for Q
    by (metis (no_types, lifting) comp_apply filter_cong filter_map map_nth)
  with P v show ?thesis by (simp add: type_search_def searchBucketFun_def shown_list_def matching_def)
qed

end
