(* ===== verification/Home.thy ===== *)
theory Home
  imports Store
begin

text \<open>
  The frame of the application (\<open>components/Home.vue\<close>): loading the buckets and a bucket's objects,
  creating a bucket, the flags it hands down to the side bar, the dialogs and the file browser, and
  the upload of a file with its progress display. Prefix arguments that are \<open>undefined\<close> or
  \<open>false\<close> are the empty text here: the code only tests them.
\<close>

section \<open>State\<close>

record s3_object =
  ob_name :: string
  ob_lastModified :: string
  ob_size :: jsnum
  ob_contentType :: string

record listing =
  ls_objects :: "s3_object list option"
  ls_writable :: bool

record home =
  hm_buckets :: "string list option" \<comment> \<open>the names in \<open>minioListBuckets.buckets\<close>\<close>
  hm_currentBucket :: string
  hm_prefixData :: string
  hm_listing :: listing
  hm_storageInfo :: json
  hm_userd :: json
  hm_aboutServer :: json
  hm_addFileShow :: bool
  hm_dialogFormVisible :: bool
  hm_slideShow :: bool
  hm_homeClick :: bool
  hm_allDealShow :: bool
  hm_shareDialog :: bool
  hm_shareObjectShow :: bool
  hm_shareFileShow :: bool
  hm_retrievalDialog :: bool
  hm_isRouterAlive :: bool
  hm_menuStretch :: bool
  hm_slideListClick :: int
  hm_addFileClick :: int
  hm_uploadClick :: int
  hm_ot :: int \<comment> \<open>\<open>progressArr.ot\<close>\<close>
  hm_oloaded :: int
  hm_percentage :: jsnum
  hm_drawer :: bool

datatype home_tag =
    BucketsReply string
  | StorageReply
  | ServerReply
  | ObjectsReply string string \<comment> \<open>the bucket and prefix asked for\<close>
  | MakeBucketReply string string string \<comment> \<open>name, prefix, old name\<close>
  | UploadDone string
  | RouterAliveTick

type_synonym home_cmd = "home_tag cmd"

definition home_init :: home where
  "home_init =
     \<lparr>hm_buckets = Some [], hm_currentBucket = [], hm_prefixData = [],
      hm_listing = \<lparr>ls_objects = Some [], ls_writable = True\<rparr>,
      hm_storageInfo = JObj [(''storageInfo'', JObj []), (''uiVersion'', JStr [])], hm_userd = JInt 0,
      hm_aboutServer = JObj [(''MinioVersion'', JStr []), (''MinioMemory'', JStr []), (''MinioPlatform'', JStr []),
        (''MinioRuntime'', JStr []), (''MinioGlobalInfo'', JObj [])],
      hm_addFileShow = False, hm_dialogFormVisible = False, hm_slideShow = False, hm_homeClick = False,
      hm_allDealShow = True, hm_shareDialog = False, hm_shareObjectShow = True, hm_shareFileShow = False,
      hm_retrievalDialog = False, hm_isRouterAlive = True, hm_menuStretch = False, hm_slideListClick = 0,
      hm_addFileClick = 0, hm_uploadClick = 0, hm_ot = 0, hm_oloaded = 0, hm_percentage = Fin 0,
      hm_drawer = False\<rparr>"

section \<open>Requests\<close>

definition home_post :: "string \<Rightarrow> string \<Rightarrow> home_tag \<Rightarrow> string \<Rightarrow> (string \<times> json) list \<Rightarrow> home_cmd" where
  "home_post api token t meth params = Request t (axios_post (api @ ''/minio/webrpc'') (rpc_body meth params) token)"

text \<open>
  \<open>listName ? listName : buckets ? buckets[0].name : ''\<close>; reading \<open>name\<close> of the first element of an
  empty array throws (\<open>None\<close>).
\<close>

definition chosen_bucket :: "string \<Rightarrow> home \<Rightarrow> string option" where
  "chosen_bucket listName s =
     (if listName \<noteq> [] then Some listName
      else (case hm_buckets s of None \<Rightarrow> Some [] | Some [] \<Rightarrow> None | Some (b # _) \<Rightarrow> Some b))"

definition listing_prefix :: "string \<Rightarrow> string" where
  "listing_prefix prefixData = (if prefixData \<noteq> [] then prefixData @ ''/'' else [])"

definition getListObjects :: "string \<Rightarrow> string \<Rightarrow> string \<Rightarrow> string \<Rightarrow> home \<Rightarrow> (home, home_cmd) outcome" where
  "getListObjects api token listName prefixData s =
     (let s1 = s\<lparr>hm_prefixData := prefixData\<rparr>
      in case chosen_bucket listName s1 of
           None \<Rightarrow> Throws TypeError s1 []
         | Some b \<Rightarrow>
             Done (s1\<lparr>hm_currentBucket := b\<rparr>)
               [home_post api token (ObjectsReply b prefixData) ''web.ListObjects''
                  [(''bucketName'', JStr b), (''prefix'', JStr (listing_prefix prefixData))]])"

fun objects_reply :: "listing rpc_reply \<Rightarrow> home \<Rightarrow> home \<times> home_cmd list" where
  "objects_reply (RpcError m) s = (s, [Toast ToastError m])"
| "objects_reply (RpcFailure c) s = (s, [])"
| "objects_reply (RpcResult l) s = (s\<lparr>hm_listing := l\<rparr>, [])"

definition getListBuckets :: "string \<Rightarrow> string \<Rightarrow> string \<Rightarrow> home \<Rightarrow> home \<times> home_cmd list" where
  "getListBuckets api token name s = (s, [home_post api token (BucketsReply name) ''web.ListBuckets'' []])"

text \<open>
  The callbacks of \<open>getListBuckets\<close>: an answer is an error message or the list. The failure callback
  reads \<open>error.request.status\<close>; an error thrown by the first callback has no \<open>request\<close>, and reading
  through it throws again.
\<close>

definition buckets_answered :: "string \<Rightarrow> string \<Rightarrow> string \<Rightarrow> (string + string list option) \<Rightarrow> home \<Rightarrow> (home, home_cmd) outcome" where
  "buckets_answered api token name a s =
     (case a of
        Inl m \<Rightarrow> Done s [Toast ToastError m]
      | Inr buckets \<Rightarrow>
          (let s1 = s\<lparr>hm_buckets := buckets\<rparr>
           in case buckets of
                None \<Rightarrow> (let s2 = s1\<lparr>hm_currentBucket := []\<rparr>
                        in if name \<noteq> [] then getListObjects api token name [] s2 else Done s2 [])
              | Some [] \<Rightarrow> Throws TypeError s1 []
              | Some (b # _) \<Rightarrow> getListObjects api token name [] (s1\<lparr>hm_currentBucket := b\<rparr>)))"

definition buckets_failed :: "rejection \<Rightarrow> home \<Rightarrow> (home, home_cmd) outcome" where
  "buckets_failed e s =
     (case e of
        Threw _ \<Rightarrow> Throws TypeError s []
      | Rejected status \<Rightarrow>
          Done s (if status = Some 401 then [DispatchFedLogOut, RouterPush (ByPath ''/fs3/login'')] else []))"

definition buckets_reply :: "string \<Rightarrow> string \<Rightarrow> string \<Rightarrow> (int option + (string + string list option)) \<Rightarrow> home \<Rightarrow> (home, home_cmd) outcome" where
  "buckets_reply api token name = settle (buckets_answered api token name) buckets_failed"

definition getStorageInfo :: "string \<Rightarrow> string \<Rightarrow> home \<Rightarrow> home \<times> home_cmd list" where
  "getStorageInfo api token s = (s, [home_post api token StorageReply ''web.StorageInfo'' []])"

fun storage_reply :: "json rpc_reply \<Rightarrow> home \<Rightarrow> home \<times> home_cmd list" where
  "storage_reply (RpcError m) s = (s, [Toast ToastError m])"
| "storage_reply (RpcFailure c) s = (s, [])"
| "storage_reply (RpcResult r) s = (s\<lparr>hm_storageInfo := r, hm_userd := json_get r ''used''\<rparr>, [])"

definition getServerInfo :: "string \<Rightarrow> string \<Rightarrow> home \<Rightarrow> home \<times> home_cmd list" where
  "getServerInfo api token s = (s, [home_post api token ServerReply ''web.ServerInfo'' []])"

fun server_reply :: "json rpc_reply \<Rightarrow> home \<Rightarrow> home \<times> home_cmd list" where
  "server_reply (RpcError m) s = (s, [Toast ToastError m])"
| "server_reply (RpcFailure c) s = (s, [])"
| "server_reply (RpcResult r) s = (s\<lparr>hm_aboutServer := r\<rparr>, [])"

definition home_getData :: "string \<Rightarrow> string \<Rightarrow> home \<Rightarrow> home \<times> home_cmd list" where
  "home_getData api token s =
     (let (s1, c1) = getListBuckets api token [] s; (s2, c2) = getStorageInfo api token s1;
          (s3, c3) = getServerInfo api token s2
      in (s3, c1 @ c2 @ c3))"

definition getMakeBucket :: "string \<Rightarrow> string \<Rightarrow> string \<Rightarrow> bool \<Rightarrow> string \<Rightarrow> string \<Rightarrow> home \<Rightarrow> home \<times> home_cmd list" where
  "getMakeBucket api token name dialogFormVisible pre oldName s =
     (s\<lparr>hm_dialogFormVisible := dialogFormVisible\<rparr>,
      [home_post api token (MakeBucketReply name pre oldName) ''web.MakeBucket'' [(''bucketName'', JStr name)]])"

text \<open>
  The callback of \<open>web.MakeBucket\<close>. The last call passes \<open>false\<close> as the prefix and the prefix as a
  third argument, which \<open>getListObjects\<close> does not have.
\<close>

definition makeBucket_created :: "string \<Rightarrow> string \<Rightarrow> string \<Rightarrow> string \<Rightarrow> home \<Rightarrow> (home, home_cmd) outcome" where
  "makeBucket_created api token name pre s =
     (let s1 = s\<lparr>hm_currentBucket := name\<rparr>;
          hits = (case hm_buckets s1 of None \<Rightarrow> [] | Some bs \<Rightarrow> filter (\<lambda>b. 0 \<le> js_indexOf b name) bs);
          relist = concat (map (\<lambda>_. snd (getListBuckets api token [] s1)) hits)
      in andthen (Done s1 (relist @ snd (getListBuckets api token name s1)))
           (\<lambda>s. andthen (getListObjects api token name [] s)
              (\<lambda>s. if pre \<noteq> [] then getListObjects api token name [] s else Done s [])))"

definition makeBucket_reply :: "string \<Rightarrow> string \<Rightarrow> string \<Rightarrow> string \<Rightarrow> string \<Rightarrow> unit rpc_reply \<Rightarrow> home \<Rightarrow> (home, home_cmd) outcome" where
  "makeBucket_reply api token name pre oldName r s =
     (case r of
        RpcError m \<Rightarrow> Done (if oldName \<noteq> [] then s\<lparr>hm_currentBucket := oldName\<rparr> else s) [Toast ToastError m]
      | RpcFailure c \<Rightarrow> Done s []
      | RpcResult _ \<Rightarrow> makeBucket_created api token name pre s)"

section \<open>Events of the children\<close>

definition home_getMenuStretch :: "bool \<Rightarrow> home \<Rightarrow> home" where
  "home_getMenuStretch stretch s = s\<lparr>hm_menuStretch := stretch\<rparr>"

definition home_reload :: "home \<Rightarrow> home \<times> home_cmd list" where
  "home_reload s = (s\<lparr>hm_isRouterAlive := False\<rparr>, [NextTick RouterAliveTick])"

definition router_alive_tick :: "home \<Rightarrow> home" where
  "router_alive_tick s = s\<lparr>hm_isRouterAlive := True\<rparr>"

definition home_getshareDialog :: "bool \<Rightarrow> home \<Rightarrow> home" where
  "home_getshareDialog v s = s\<lparr>hm_shareDialog := v\<rparr>"

definition home_getshareHome :: "bool \<Rightarrow> bool \<Rightarrow> bool \<Rightarrow> home \<Rightarrow> home" where
  "home_getshareHome shareDialog shareObjectShow shareFileShow s =
     s\<lparr>hm_shareDialog := shareDialog, hm_shareObjectShow := shareObjectShow, hm_shareFileShow := shareFileShow\<rparr>"

definition home_getretrievalDialog :: "bool \<Rightarrow> home \<Rightarrow> home" where
  "home_getretrievalDialog v s = s\<lparr>hm_retrievalDialog := v\<rparr>"

definition getDialogClose :: "bool \<Rightarrow> bool \<Rightarrow> home \<Rightarrow> home" where
  "getDialogClose dialogFormVisible closeModule s =
     (let s1 = s\<lparr>hm_dialogFormVisible := dialogFormVisible\<rparr>
      in if closeModule then s1 else s1\<lparr>hm_addFileShow := False, hm_homeClick := False\<rparr>)"

text \<open>The listing after a removal, as the file browser sends it.\<close>

definition home_getRemoveObject :: "s3_object list \<Rightarrow> home \<Rightarrow> home" where
  "home_getRemoveObject data s = s\<lparr>hm_listing := (hm_listing s)\<lparr>ls_objects := Some data\<rparr>\<rparr>"

definition getminioListBucket :: "string \<Rightarrow> string \<Rightarrow> string \<Rightarrow> bool \<Rightarrow> bool \<Rightarrow> bool \<Rightarrow> home \<Rightarrow> (home, home_cmd) outcome" where
  "getminioListBucket api token listName all_deal silde push s =
     andthen (Done s (if push then [RouterPush (ByName ''fs3'')] else []))
       (\<lambda>s. andthen
          (if listName \<noteq> [] then
             andthen (Done s [RouterPush (ByName ''fs3'')])
               (\<lambda>s. andthen (getListObjects api token listName [] s)
                  (\<lambda>s. Done (s\<lparr>hm_slideListClick := hm_slideListClick s + 1\<rparr>) []))
           else Done s [])
          (\<lambda>s. (let s1 = s\<lparr>hm_allDealShow := all_deal\<rparr>
                in Done (if silde then s1\<lparr>hm_slideShow := False\<rparr> else s1) [])))"

definition addToggle :: "home \<Rightarrow> home" where
  "addToggle s = s\<lparr>hm_addFileShow := \<not> hm_addFileShow s, hm_homeClick := False, hm_addFileClick := hm_addFileClick s + 1\<rparr>"

definition slideBtn :: "home \<Rightarrow> home" where
  "slideBtn s = s\<lparr>hm_slideShow := \<not> hm_slideShow s\<rparr>"

definition wrapperClick :: "home \<Rightarrow> home" where
  "wrapperClick s = s\<lparr>hm_addFileShow := False, hm_homeClick := False, hm_slideShow := False\<rparr>"

definition homeClickFun :: "bool \<Rightarrow> home \<Rightarrow> home" where
  "homeClickFun now s = s\<lparr>hm_homeClick := now, hm_addFileShow := False\<rparr>"

definition createHomeBuck :: "string \<Rightarrow> home \<Rightarrow> home \<times> home_cmd list" where
  "createHomeBuck path s =
     (if js_indexOf path ''/fs3'' < 0
      then (s\<lparr>hm_allDealShow := True, hm_dialogFormVisible := True\<rparr>, [RouterPush (ByName ''fs3'')])
      else (s\<lparr>hm_dialogFormVisible := True\<rparr>, []))"

definition home_mounted :: "string \<Rightarrow> string \<Rightarrow> home \<times> page \<Rightarrow> (home \<times> page) \<times> home_cmd list" where
  "home_mounted api token sp =
     (let (s, cs) = home_getData api token (fst sp)
      in ((s, (snd sp)\<lparr>local := removeItem ''addrWeb'' (local (snd sp))\<rparr>), cs))"

text \<open>\<open>computed\<close>: both getters are missing from the store and evaluate to \<open>undefined\<close>.\<close>

definition headertitle :: "page \<Rightarrow> json" where
  "headertitle p = getters p ''headertitle''"

definition home_routerMenu :: "page \<Rightarrow> json" where
  "home_routerMenu p = getters p ''routerMenu''"

section \<open>Uploading\<close>

text \<open>\<open>/[#\\?]/\<close> finds a forbidden character.\<close>

definition bad_filename :: "string \<Rightarrow> bool" where
  "bad_filename name \<longleftrightarrow> (\<exists>c \<in> set name. c = CHR ''#'' \<or> c = CHR 0x5C \<or> c = CHR ''?'')"

definition clean_filename :: "string \<Rightarrow> string" where
  "clean_filename name = (if CHR '' '' \<in> set name then replace_char CHR '' '' CHR ''_'' name else name)"

definition upload_url :: "string \<Rightarrow> home \<Rightarrow> string \<Rightarrow> string" where
  "upload_url api s name =
     api @ ''/minio/upload/'' @ hm_currentBucket s @ ''/'' @ listing_prefix (hm_prefixData s) @ name"

text \<open>The headers set before sending: the token when there is one, and the date.\<close>

definition upload_headers :: "string \<Rightarrow> string \<Rightarrow> (string \<times> string) list" where
  "upload_headers token utc =
     (if token \<noteq> [] then [(''Authorization'', ''Bearer '' @ token)] else []) @ [(''x-amz-date'', utc @ ''Z'')]"

definition onChange :: "string \<Rightarrow> string \<Rightarrow> string \<Rightarrow> home \<Rightarrow> home \<times> home_cmd list" where
  "onChange api token name s =
     (if bad_filename name
      then (s, [Toast ToastError (''The filename cannot contain any of the following characters # ? '' @ [CHR 0x5C])])
      else let file = clean_filename name
           in if hm_buckets s = None \<or> hm_buckets s = Some []
              then (s, [Toast ToastError ''Please choose a bucket before trying to upload files.''])
              else (s, [DomCall ''progressBar01.value = 0'',
                        Request (UploadDone file)
                          \<lparr>req_method = ''PUT'', req_url = upload_url api s file, req_body = JUndef,
                           req_auth = (if token \<noteq> [] then Some (bearer token) else None)\<rparr>]))"

text \<open>
  The events of the upload request. The listeners for a failed transfer are added inside \<open>onload\<close>,
  after the transfer: while it runs there is none.
\<close>

datatype upload_event = LoadStart int | Load int string | TransferError

definition upload_event :: "string \<Rightarrow> string \<Rightarrow> string \<Rightarrow> upload_event \<Rightarrow> home \<Rightarrow> (home, home_cmd) outcome" where
  "upload_event api token file e s =
     (case e of
        LoadStart now \<Rightarrow> Done (s\<lparr>hm_ot := now, hm_oloaded := 0, hm_percentage := Fin 0, hm_drawer := True\<rparr>) []
      | TransferError \<Rightarrow> Done s []
      | Load status responseText \<Rightarrow>
          andthen (Done s ((if status = 401 \<or> status = 403 then [Toast ToastDanger ''Unauthorized request.''] else []) @
                           (if status = 500 then [Toast ToastDanger responseText] else [])))
            (\<lambda>s. if status = 200
                 then andthen (Done s [Toast ToastSuccess (''File '' @ [CHR 0x27] @ file @ [CHR 0x27] @ '' uploaded successfully.'')])
                        (\<lambda>s. andthen (getListObjects api token (hm_currentBucket s) (hm_prefixData s) s)
                           (\<lambda>s. Done (s\<lparr>hm_uploadClick := hm_uploadClick s + 1\<rparr>) []))
                 else Done s []))"

text \<open>One scaling step of the speed display.\<close>

definition scale_speed :: "string \<Rightarrow> jsnum \<times> string \<Rightarrow> jsnum \<times> string" where
  "scale_speed bigger su =
     (let q = num_div (fst su) (num_of_int 1024)
      in if num_less (num_of_int 1) q then (q, bigger) else su)"

record progress_text =
  pg_percentage :: "string option"
  pg_time :: string

text \<open>\<open>progressFunction(evt)\<close>: the event's fields and the clock are the arguments.\<close>

definition progressFunction :: "bool \<Rightarrow> int \<Rightarrow> int \<Rightarrow> int \<Rightarrow> home \<Rightarrow> home \<times> progress_text" where
  "progressFunction lengthComputable loaded all_bytes nt s =
     (let percent = math_round (num_mul (num_div (num_of_int loaded) (num_of_int all_bytes)) (num_of_int 100));
          pertime = num_div (num_of_int (nt - hm_ot s)) (num_of_int 1000);
          perload = num_of_int (loaded - hm_oloaded s);
          bspeed = num_div perload pertime;
          (speed, units) = scale_speed ''M/s'' (scale_speed ''k/s'' (bspeed, ''b/s''));
          resttime = to_fixed (num_div (num_of_int (all_bytes - loaded)) bspeed) 1;
          s1 = (if lengthComputable then s\<lparr>hm_percentage := percent\<rparr> else s)
      in (s1\<lparr>hm_ot := nt, hm_oloaded := loaded,
             hm_drawer := (if resttime = [] \<or> num_le (js_Number resttime) (num_of_int 0) then False else hm_drawer s)\<rparr>,
          \<lparr>pg_percentage = (if lengthComputable then Some (''('' @ num_str percent @ ''%)'') else None),
           pg_time = (if num_eq bspeed (num_of_int 0) then ''Upload cancelled'' else to_fixed speed 1 @ units)\<rparr>))"

section \<open>Callback contracts\<close>

interpretation list_objects: rpc_callback objects_reply
  by unfold_locales simp_all

interpretation storage_info: rpc_callback storage_reply
  by unfold_locales simp_all

interpretation server_info: rpc_callback server_reply
  by unfold_locales simp_all

section \<open>Buckets and listings\<close>

lemma chosen_named [simp]: "name \<noteq> [] \<Longrightarrow> chosen_bucket name s = Some name"
  by (simp add: chosen_bucket_def)

lemma getListObjects_named:
  "name \<noteq> [] \<Longrightarrow> getListObjects api token name pre s =
     Done (s\<lparr>hm_prefixData := pre, hm_currentBucket := name\<rparr>)
       [home_post api token (ObjectsReply name pre) ''web.ListObjects''
          [(''bucketName'', JStr name), (''prefix'', JStr (listing_prefix pre))]]"
  by (simp add: getListObjects_def)

text \<open>
  Loading the buckets: an error message is shown and nothing changes; a failed
  request changes nothing, and exactly the status 401 logs the session out and goes to the login page; a
  list with a first bucket selects it (or the bucket asked for) and asks for its objects; a null list
  selects none; an empty list, which the code does not expect, throws in both callbacks after it was
  stored, with no request and no message.
\<close>

theorem buckets_reply_cases:
  "buckets_reply api token name (Inr (Inl m)) s = Done s [Toast ToastError m] \<and>
   buckets_reply api token name (Inl status) s
     = Done s (if status = Some 401 then [DispatchFedLogOut, RouterPush (ByPath ''/fs3/login'')] else []) \<and>
   (\<exists>s'. buckets_reply api token name (Inr (Inr (Some (b # bs)))) s = Done s'
       [home_post api token (ObjectsReply (if name = [] then b else name) []) ''web.ListObjects''
          [(''bucketName'', JStr (if name = [] then b else name)), (''prefix'', JStr [])]] \<and>
     hm_buckets s' = Some (b # bs) \<and> hm_currentBucket s' = (if name = [] then b else name) \<and> hm_prefixData s' = []) \<and>
   out_state (buckets_reply api token [] (Inr (Inr None)) s) = s\<lparr>hm_buckets := None, hm_currentBucket := []\<rparr> \<and>
   buckets_reply api token name (Inr (Inr (Some []))) s = Throws TypeError (s\<lparr>hm_buckets := Some []\<rparr>) []"
  by (simp add: buckets_reply_def buckets_answered_def buckets_failed_def Let_def getListObjects_def chosen_bucket_def
      listing_prefix_def)

text \<open>
  Creating a bucket inside a folder forgets the folder: after the server's confirmation every
  listing request goes to the root of the new bucket, whatever prefix was asked for, and the bucket
  is selected; after an error the previous bucket is selected again and nothing is requested.
\<close>

theorem makeBucket_lists_root:
  assumes "name \<noteq> []" "old \<noteq> []"
  shows "(\<exists>s' cs. makeBucket_reply api token name pre old (RpcResult ()) s = Done s' cs \<and>
      hm_currentBucket s' = name \<and> hm_prefixData s' = [] \<and>
      (\<forall>b q. home_post api token (ObjectsReply b q) ''web.ListObjects''
          [(''bucketName'', JStr b), (''prefix'', JStr (listing_prefix q))] \<in> set cs \<longrightarrow> b = name \<and> q = [])) \<and>
    hm_currentBucket (out_state (makeBucket_reply api token name pre old (RpcError m) s)) = old \<and>
    requests (out_cmds (makeBucket_reply api token name pre old (RpcError m) s)) = []"
  using assms
  by (auto simp: makeBucket_reply_def makeBucket_created_def Let_def getListObjects_named getListBuckets_def home_post_def)

theorem makeBucket_lists_root_witness:
  "\<exists>s' cs. makeBucket_reply [] [] ''new'' ''photos'' ''old'' (RpcResult ()) home_init = Done s' cs \<and> hm_prefixData s' = []"
  using makeBucket_lists_root [of "''new''" "''old''" "[]" "[]" "''photos''" home_init "[]"] by auto

section \<open>Out-of-order listings\<close>

text \<open>
  The listing requests in flight. The server answers every request from the same contents; the
  network delivers the answers of an ordered connection first in, first out, and otherwise in any
  order.
\<close>

type_synonym flight = "(string \<times> string) list"

inductive browse :: "bool \<Rightarrow> (string \<Rightarrow> string \<Rightarrow> listing) \<Rightarrow> home \<Rightarrow> flight \<Rightarrow> bool"
  for ordered :: bool and contents :: "string \<Rightarrow> string \<Rightarrow> listing" where
  opened: "hm_currentBucket s = b \<Longrightarrow> hm_prefixData s = pre \<Longrightarrow> hm_listing s = contents b pre \<Longrightarrow> browse ordered contents s []"
| ask: "browse ordered contents s fl \<Longrightarrow> b \<noteq> [] \<Longrightarrow> getListObjects api token b pre s = Done s' cs \<Longrightarrow>
    browse ordered contents s' (fl @ [(b, pre)])"
| deliver: "browse ordered contents s fl \<Longrightarrow> i < length fl \<Longrightarrow> ordered \<longrightarrow> i = 0 \<Longrightarrow> fl ! i = (b, pre) \<Longrightarrow>
    objects_reply (RpcResult (contents b pre)) s = (s', cs) \<Longrightarrow> browse ordered contents s' (take i fl @ drop (Suc i) fl)"

definition shows_current :: "(string \<Rightarrow> string \<Rightarrow> listing) \<Rightarrow> home \<Rightarrow> bool" where
  "shows_current contents s \<longleftrightarrow> hm_listing s = contents (hm_currentBucket s) (hm_prefixData s)"

lemma browse_ordered:
  assumes "browse True contents s fl"
  shows "(case rev fl of [] \<Rightarrow> shows_current contents s
     | (b, pre) # _ \<Rightarrow> hm_currentBucket s = b \<and> hm_prefixData s = pre)"
  using assms
proof (induction rule: browse.induct)
  case (opened s b pre)
  then show ?case by (simp add: shows_current_def)
next
  case (ask s fl b api token pre s' cs)
  then show ?case by (auto simp: getListObjects_named)
next
  case (deliver s fl i b pre s' cs)
  then have i: "i = 0" and fl: "fl = (b, pre) # tl fl" by (cases fl; simp)+
  from deliver have s': "s' = s\<lparr>hm_listing := contents b pre\<rparr>" by simp
  show ?case
  proof (cases "rev (tl fl)")
    case Nil
    then have "fl = [(b, pre)]" using fl by simp
    with deliver.IH s' i show ?thesis by (simp add: shows_current_def)
  next
    case (Cons x xs)
    have "rev fl = rev (tl fl) @ [(b, pre)]" using fl by (metis rev.simps(2))
    with Cons deliver.IH s' i show ?thesis
      by (cases x) (simp add: drop_Suc)
  qed
qed

text \<open>
  The listing on display belongs to the selected folder when the answers come back in order: with
  no request in flight the objects are those of the current bucket and prefix.
\<close>

theorem ordered_replies_show_current:
  assumes "browse True contents s []"
  shows "hm_listing s = contents (hm_currentBucket s) (hm_prefixData s)"
  using browse_ordered [OF assms] by (simp add: shows_current_def)

text \<open>
  Nothing ties an answer to the folder it was asked for: when two answers cross, the file page
  ends up showing the objects of one bucket under the name of another, with no request in flight.
\<close>

theorem crossed_replies_show_wrong_bucket:
  assumes "contents ''a'' [] \<noteq> contents ''b'' []"
  shows "\<exists>s. browse False contents s [] \<and> hm_currentBucket s = ''b'' \<and>
    hm_listing s = contents ''a'' [] \<and> hm_listing s \<noteq> contents (hm_currentBucket s) (hm_prefixData s)"
proof -
  define s0 where "s0 = home_init\<lparr>hm_listing := contents [] []\<rparr>"
  define s1 where "s1 = s0\<lparr>hm_prefixData := [], hm_currentBucket := ''a''\<rparr>"
  define s2 where "s2 = s1\<lparr>hm_prefixData := [], hm_currentBucket := ''b''\<rparr>"
  define s3 where "s3 = s2\<lparr>hm_listing := contents ''b'' []\<rparr>"
  define s4 where "s4 = s3\<lparr>hm_listing := contents ''a'' []\<rparr>"
  have "browse False contents s0 []" by (rule opened) (simp_all add: s0_def home_init_def)
  then have "browse False contents s1 ([] @ [(''a'', [])])"
    by (rule ask) (simp_all add: getListObjects_named s1_def)
  then have "browse False contents s2 (([] @ [(''a'', [])]) @ [(''b'', [])])"
    by (rule ask) (simp_all add: getListObjects_named s2_def)
  then have "browse False contents s3 (take 1 [(''a'', []), (''b'', [])] @ drop (Suc 1) [(''a'', []), (''b'', [])])"
    by (intro deliver [of _ _ s2 _ 1 "''b''" "[]"]) (simp_all add: s3_def)
  then have "browse False contents s3 [(''a'', [])]" by simp
  then have "browse False contents s4 (take 0 [(''a'', [])] @ drop (Suc 0) [(''a'', [])])"
    by (intro deliver [of _ _ s3 _ 0 "''a''" "[]"]) (simp_all add: s4_def)
  then show ?thesis using assms by (intro exI [of _ s4]) (simp add: s4_def s3_def s2_def)
qed

theorem ordered_replies_show_current_witness:
  "hm_listing (home_init\<lparr>hm_listing := \<lparr>ls_objects = None, ls_writable = False\<rparr>\<rparr>) = \<lparr>ls_objects = None, ls_writable = False\<rparr>"
proof -
  let ?l = "\<lparr>ls_objects = None, ls_writable = False\<rparr> :: listing"
  have "browse True (\<lambda>b p. ?l) (home_init\<lparr>hm_listing := ?l\<rparr>) []" by (rule opened) simp_all
  from ordered_replies_show_current [OF this] show ?thesis .
qed

theorem crossed_replies_show_wrong_bucket_witness:
  "\<exists>s. browse False (\<lambda>b p. \<lparr>ls_objects = None, ls_writable = (b = ''a'')\<rparr>) s [] \<and> hm_currentBucket s = ''b'' \<and>
     ls_writable (hm_listing s)"
  using crossed_replies_show_wrong_bucket [of "\<lambda>b p. \<lparr>ls_objects = None, ls_writable = (b = ''a'')\<rparr>"] by force

section \<open>The progress display\<close>

lemma elapsed_seconds:
  assumes "0 < d" "d < 2 ^ 40"
  obtains r where "num_div (num_of_int d) (num_of_int 1000) = Fin r" "1 / 2000 \<le> r" "r < 2 ^ 40"
proof -
  have di: "num_of_int d = Fin (of_int d)" using assms by (intro num_of_int_small) simp
  have d: "(1 :: rat) \<le> of_int d" "(of_int d :: rat) < 2 ^ 40"
    using assms by (simp, metis of_int_less_iff of_int_numeral of_int_power)
  obtain r where r: "rnd64 (of_int d / 1000) = Fin r" "\<bar>r - of_int d / 1000\<bar> \<le> of_int d / 1000 / 2 ^ 53"
  proof (rule rnd64_near)
    show "1 / 2 ^ 53 \<le> (of_int d / 1000 :: rat)" "(of_int d / 1000 :: rat) < 2 ^ 53" using d by simp_all
  qed
  have "of_int d / 1000 / 2 ^ 53 \<le> of_int d / (2000 :: rat)" using d(1) by simp
  then have "1 / 2000 \<le> r" "r < 2 ^ 40" using r(2) d by linarith+
  with r(1) di that show ?thesis by simp
qed

lemma upload_speed:
  assumes "0 < p" "p < 2 ^ 42" "0 < d" "d < 2 ^ 40"
  obtains v where "num_div (num_of_int p) (num_div (num_of_int d) (num_of_int 1000)) = Fin v" "0 < v"
proof -
  obtain r where r: "num_div (num_of_int d) (num_of_int 1000) = Fin r" "1 / 2000 \<le> r" "r < 2 ^ 40"
    using elapsed_seconds assms by blast
  have "(0 :: rat) < 1 / 2000" by simp
  then have rp: "0 < r" using r(2) by (rule less_le_trans)
  have p: "(1 :: rat) \<le> of_int p" "(of_int p :: rat) < 2 ^ 42"
    using assms(1,2) by (simp, metis of_int_less_iff of_int_numeral of_int_power)
  have pi: "num_of_int p = Fin (of_int p)" using assms by (intro num_of_int_small) simp
  have "1 / 2 ^ 40 \<le> of_int p / r" using p r rp by (intro frac_le) simp_all
  moreover have "of_int p / r \<le> 2 ^ 42 / (1 / 2000)" using p r rp by (intro frac_le) simp_all
  moreover have "(1 :: rat) / 2 ^ 53 \<le> 1 / 2 ^ 40" "(2 :: rat) ^ 42 / (1 / 2000) < 2 ^ 53" by simp_all
  ultimately have b: "1 / 2 ^ 53 \<le> of_int p / r" "of_int p / r < 2 ^ 53" 
    by (blast intro: order.trans, blast intro: le_less_trans)
  then obtain v where v: "rnd64 (of_int p / r) = Fin v" "\<bar>v - of_int p / r\<bar> \<le> of_int p / r / 2 ^ 53"
    by (elim rnd64_near)
  have "0 < of_int p / r" using p rp by simp
  then have "0 < v" using v(2) by simp
  with v(1) pi r(1) rp that show ?thesis by simp
qed

lemma remaining_zero: "0 < v \<Longrightarrow> to_fixed (num_div (num_of_int 0) (Fin v)) 1 = ''0.0''"
  by (simp add: floor_eq_iff fixed_digits_def Let_def dec_str.simps digit_char_def)

lemma zero_text: "js_Number ''0.0'' = Fin 0" "js_Number ''NaN'' = NaN"
  by code_simp+

text \<open>
  The progress display of an upload that completes while bytes still arrive ends at 100 percent and
  closes; one whose last event brings no new byte (an empty file, or a repeated last event) computes
  zero divided by zero as the remaining time, reports the upload as cancelled and stays on screen.
\<close>

theorem progress_completion:
  assumes "0 < n" "n < 2 ^ 42" "hm_ot s < nt" "nt - hm_ot s < 2 ^ 40"
  shows "(0 \<le> hm_oloaded s \<and> hm_oloaded s < n \<longrightarrow>
      (case progressFunction True n n nt s of (s', t) \<Rightarrow>
         \<not> hm_drawer s' \<and> hm_percentage s' = Fin 100 \<and> hm_oloaded s' = n)) \<and>
    (case progressFunction c m m nt (s\<lparr>hm_oloaded := m, hm_drawer := True\<rparr>) of (s', t) \<Rightarrow>
         hm_drawer s' \<and> pg_time t = ''Upload cancelled'')"
proof (intro conjI impI)
  assume o: "0 \<le> hm_oloaded s \<and> hm_oloaded s < n"
  then have "0 < n - hm_oloaded s" "n - hm_oloaded s < 2 ^ 42" "0 < nt - hm_ot s" using assms by simp_all
  then obtain v where v: "num_div (num_of_int (n - hm_oloaded s)) (num_div (num_of_int (nt - hm_ot s)) (num_of_int 1000)) = Fin v"
    "0 < v" using upload_speed assms(4) by blast
  have "num_of_int n = Fin (of_int n)" using assms by (intro num_of_int_small) simp
  then have "num_div (num_of_int n) (num_of_int n) = Fin 1" using num_div_exact [of n 1] assms(1) by simp
  moreover have "math_round (num_mul (Fin 1) (num_of_int 100)) = Fin 100"
    using rnd64_numeral [of "Num.num.Bit0 (Num.num.Bit0 (Num.num.Bit1 (Num.num.Bit0 (Num.num.Bit0 (Num.num.Bit1 Num.num.One)))))"]
    by (simp add: floor_eq_iff)
  moreover have "to_fixed (num_div (num_of_int (n - n)) (Fin v)) 1 = ''0.0''" using remaining_zero [OF v(2)] by simp
  ultimately show "case progressFunction True n n nt s of (s', t) \<Rightarrow>
       \<not> hm_drawer s' \<and> hm_percentage s' = Fin 100 \<and> hm_oloaded s' = n"
    unfolding progressFunction_def Let_def v(1)
    by (simp add: zero_text case_prod_unfold del: num_div.simps num_mul.simps math_round.simps to_fixed.simps)
next
  obtain r where r: "num_div (num_of_int (nt - hm_ot s)) (num_of_int 1000) = Fin r" "1 / 2000 \<le> r"
    using elapsed_seconds [of "nt - hm_ot s"] assms by auto
  then have "num_div (num_of_int 0) (Fin r) = Fin 0" by auto
  moreover have "to_fixed (num_div (num_of_int 0) (Fin 0)) 1 = ''NaN''" by simp
  ultimately show "case progressFunction c m m nt (s\<lparr>hm_oloaded := m, hm_drawer := True\<rparr>) of (s', t) \<Rightarrow>
       hm_drawer s' \<and> pg_time t = ''Upload cancelled''"
    unfolding progressFunction_def Let_def using r(1)
    by (simp add: zero_text num_le_def case_prod_unfold del: num_div.simps to_fixed.simps)
qed

theorem progress_completion_witness:
  "hm_drawer (fst (progressFunction True 0 0 1500 (home_init\<lparr>hm_ot := 1000, hm_oloaded := 0, hm_drawer := True\<rparr>)))"
  using progress_completion [of 1 "home_init\<lparr>hm_ot := 1000\<rparr>" 1500 True 0]
  by (simp add: case_prod_unfold home_init_def)

end
