(* ===== verification/Browser_View.thy ===== *)
theory Browser_View
  imports Home
begin

text \<open>
  The file browser (\<open>views/minio/index.vue\<close>): the table of objects, the selection and its drawer,
  deleting, downloading and sharing objects, the breadcrumbs and the path editor, the wallet and
  platform helpers, and the display filters of the view. The formatting of dates by \<open>moment\<close>,
  \<open>Math.log\<close> and the table widget's display order are parameters.
\<close>

section \<open>State\<close>

record row =
  rw_name :: string
  rw_lastModified :: string
  rw_size :: jsnum
  rw_contentType :: string
  rw_drawShow :: bool
  rw_dropShow :: bool

record raw_deal =
  rd_timeStamp :: jsnum
  rd_rest :: json

record shown_deal =
  sd_timeStamp :: string
  sd_visible :: bool
  sd_visibleDataCid :: bool
  sd_rest :: json

record browser_view =
  bv_currentBucket :: string \<comment> \<open>property of the parent\<close>
  bv_tableData :: "row list"
  bv_drawIndex :: int
  bv_deleteDialogIndex :: "string list"
  bv_drawer :: bool
  bv_deleteDialogVisible :: bool
  bv_signShow :: bool
  bv_fullscreen :: bool
  bv_name_file :: string
  bv_form_name :: string
  bv_editNameFile :: bool
  bv_openAboutShow :: bool
  bv_currentBucketAll :: "string list"
  bv_prefixName :: string
  bv_browserNameChange :: string
  bv_presonToken :: string
  bv_shareDialog :: bool
  bv_shareObjectShow :: bool
  bv_shareFileShow :: bool
  bv_share_now :: "nat option"
  bv_share_input :: string
  bv_num_Day :: int
  bv_num_Hours :: int
  bv_num_Minutes :: int
  bv_postAdress :: string
  bv_expands :: "string list"
  bv_exChangeList :: "shown_deal option list"
  bv_changePass :: bool
  bv_addr :: string
  bv_priceAccound :: string
  bv_network_name :: string
  bv_network_unit :: string
  bv_isRouterAlive :: bool

datatype bv_tag =
    RetrieveReply
  | RemoveReply string
  | URLTokenReply
  | ZipReply string string \<comment> \<open>bucket and prefix of the archive\<close>
  | PresignedReply
  | LogoutReply
  | AliveTick
  | FocusTick
  | BlurTick
  | WalletTick string

type_synonym bv_cmd = "bv_tag cmd"

definition bv_init :: "string \<Rightarrow> browser_view" where
  "bv_init currentBucket =
     \<lparr>bv_currentBucket = currentBucket, bv_tableData = [], bv_drawIndex = 0, bv_deleteDialogIndex = [],
      bv_drawer = False, bv_deleteDialogVisible = False, bv_signShow = False, bv_fullscreen = False,
      bv_name_file = [], bv_form_name = [], bv_editNameFile = True, bv_openAboutShow = False,
      bv_currentBucketAll = [], bv_prefixName = [], bv_browserNameChange = [], bv_presonToken = [],
      bv_shareDialog = False, bv_shareObjectShow = True, bv_shareFileShow = False, bv_share_now = None,
      bv_share_input = [], bv_num_Day = 5, bv_num_Hours = 0, bv_num_Minutes = 0, bv_postAdress = [],
      bv_expands = [], bv_exChangeList = [], bv_changePass = False, bv_addr = [], bv_priceAccound = ''0'',
      bv_network_name = [], bv_network_unit = ''0'', bv_isRouterAlive = True\<rparr>"

definition bv_post :: "string \<Rightarrow> string \<Rightarrow> bv_tag \<Rightarrow> string \<Rightarrow> (string \<times> json) list \<Rightarrow> bv_cmd" where
  "bv_post api token t meth params = Request t (axios_post (api @ ''/minio/webrpc'') (rpc_body meth params) token)"

section \<open>The table and the selection\<close>

definition row_of :: "(string \<Rightarrow> string) \<Rightarrow> s3_object \<Rightarrow> row" where
  "row_of moment_format item =
     \<lparr>rw_name = ob_name item, rw_lastModified = moment_format (ob_lastModified item), rw_size = ob_size item,
      rw_contentType = ob_contentType item, rw_drawShow = True, rw_dropShow = False\<rparr>"

definition aboutListData :: "(string \<Rightarrow> string) \<Rightarrow> listing \<Rightarrow> browser_view \<Rightarrow> browser_view" where
  "aboutListData moment_format aboutListObjects s =
     s\<lparr>bv_tableData := (case ls_objects aboutListObjects of None \<Rightarrow> [] | Some objs \<Rightarrow> map (row_of moment_format) objs)\<rparr>"

definition drawPlayClose :: "browser_view \<Rightarrow> browser_view" where
  "drawPlayClose s =
     s\<lparr>bv_tableData := map (\<lambda>r. r\<lparr>rw_drawShow := True\<rparr>) (bv_tableData s), bv_drawIndex := 0,
       bv_deleteDialogIndex := [], bv_drawer := False\<rparr>"

text \<open>Counting and listing the selected rows, in table order.\<close>

fun count_selected :: "row list \<Rightarrow> int \<Rightarrow> string list \<Rightarrow> int \<times> string list" where
  "count_selected [] n names = (n, names)"
| "count_selected (r # rs) n names =
     (if \<not> rw_drawShow r then count_selected rs (n + 1) (names @ [rw_name r]) else count_selected rs n names)"

definition drawPlay :: "nat \<Rightarrow> bool \<Rightarrow> browser_view \<Rightarrow> (browser_view, bv_cmd) outcome" where
  "drawPlay index now s =
     (if index < length (bv_tableData s) then
        (let rows = (bv_tableData s)[index := (bv_tableData s ! index)\<lparr>rw_drawShow := \<not> now\<rparr>];
             (n, names) = count_selected rows 0 [];
             s1 = s\<lparr>bv_tableData := rows, bv_drawIndex := n, bv_deleteDialogIndex := names\<rparr>
         in Done (if n < 1 then drawPlayClose s1 else s1\<lparr>bv_drawer := True\<rparr>) [])
      else Throws TypeError s [])"

text \<open>\<open>actClient(index, now)\<close>: every menu closes, and with \<open>now\<close> the one at \<open>index\<close> toggles.\<close>

definition actClient :: "nat \<Rightarrow> bool \<Rightarrow> browser_view \<Rightarrow> (browser_view, bv_cmd) outcome" where
  "actClient index now s =
     (let rows = bv_tableData s
      in if rows \<noteq> [] \<and> length rows \<le> index then Throws TypeError s []
         else let closed = map (\<lambda>r. r\<lparr>rw_dropShow := False\<rparr>) rows;
                  rows' = (if rows \<noteq> [] \<and> now
                           then closed[index := (closed ! index)\<lparr>rw_dropShow := \<not> rw_dropShow (rows ! index)\<rparr>]
                           else closed);
                  s1 = s\<lparr>bv_tableData := rows'\<rparr>
              in if now then Done ((drawPlayClose s1)\<lparr>bv_signShow := False\<rparr>) [Emit ''getDialogClose'' [JBool False, JBool False]]
                 else Done (s1\<lparr>bv_signShow := False\<rparr>) [])"

definition deleteBtn :: "string \<Rightarrow> browser_view \<Rightarrow> browser_view" where
  "deleteBtn name s = s\<lparr>bv_deleteDialogVisible := True, bv_deleteDialogIndex := [name]\<rparr>"

definition getRemoveObject :: "string \<Rightarrow> string \<Rightarrow> string \<Rightarrow> browser_view \<Rightarrow> bv_cmd" where
  "getRemoveObject api token obj s =
     bv_post api token (RemoveReply obj) ''web.RemoveObject''
       [(''bucketName'', JStr (bv_currentBucket s)), (''objects'', JArr [JStr obj])]"

definition deleteListFun :: "string \<Rightarrow> string \<Rightarrow> browser_view \<Rightarrow> browser_view \<times> bv_cmd list" where
  "deleteListFun api token s =
     (drawPlayClose s, map (\<lambda>item. getRemoveObject api token item s) (bv_deleteDialogIndex s))"

text \<open>
  \<open>tableData.map((item, index) => { if (obj == item.name) tableData.splice(index, 1) })\<close>: \<open>map\<close> visits the
  positions below the original length and skips those that no longer exist.
\<close>

fun remove_while_mapping :: "string \<Rightarrow> nat \<Rightarrow> nat \<Rightarrow> row list \<Rightarrow> row list" where
  "remove_while_mapping obj 0 index rows = rows"
| "remove_while_mapping obj (Suc left) index rows =
     remove_while_mapping obj left (Suc index)
       (if index < length rows \<and> obj = rw_name (rows ! index) then js_splice rows (int index) 1 else rows)"

definition object_of :: "row \<Rightarrow> s3_object" where
  "object_of r =
     \<lparr>ob_name = rw_name r, ob_lastModified = rw_lastModified r, ob_size = rw_size r, ob_contentType = rw_contentType r\<rparr>"

text \<open>The callback; the second component is what the parent receives with \<open>getRemoveObject\<close>.\<close>

fun remove_reply :: "string \<Rightarrow> unit rpc_reply \<Rightarrow> browser_view \<times> s3_object list option \<Rightarrow> (browser_view \<times> s3_object list option) \<times> bv_cmd list" where
  "remove_reply obj (RpcError m) s = (s, [Toast ToastError m])"
| "remove_reply obj (RpcFailure c) s = (s, [])"
| "remove_reply obj (RpcResult _) s =
     (let rows = remove_while_mapping obj (length (bv_tableData (fst s))) 0 (bv_tableData (fst s))
      in (((fst s)\<lparr>bv_tableData := rows, bv_deleteDialogVisible := False\<rparr>, Some (map object_of rows)),
          [Emit ''getRemoveObject'' []]))"

text \<open>
  The comparators of \<open>changeTableSort\<close> subtract the two fields: on texts that are not numbers the
  difference is \<open>NaN\<close>, which a sort treats as equal.
\<close>

definition sort_key :: "string \<Rightarrow> row \<Rightarrow> jsnum" where
  "sort_key fieldName r =
     (if fieldName = ''size'' then rw_size r
      else if fieldName = ''name'' then js_Number (rw_name r)
      else if fieldName = ''lastModified'' then js_Number (rw_lastModified r) else NaN)"

definition sort_before :: "string \<Rightarrow> string \<Rightarrow> row \<Rightarrow> row \<Rightarrow> bool" where
  "sort_before fieldName order_text a b =
     (let d = (if order_text = ''descending'' then num_sub (sort_key fieldName b) (sort_key fieldName a)
               else num_sub (sort_key fieldName a) (sort_key fieldName b))
      in num_less d (Fin 0))"

fun insert_row :: "(row \<Rightarrow> row \<Rightarrow> bool) \<Rightarrow> row \<Rightarrow> row list \<Rightarrow> row list" where
  "insert_row before r [] = [r]"
| "insert_row before r (x # xs) = (if before r x then r # x # xs else x # insert_row before r xs)"

definition changeTableSort :: "string \<Rightarrow> string \<Rightarrow> browser_view \<Rightarrow> browser_view" where
  "changeTableSort fieldName order_text s =
     s\<lparr>bv_tableData := fold (insert_row (sort_before fieldName order_text)) (bv_tableData s) []\<rparr>"

section \<open>Downloading and sharing\<close>

definition downloadFun :: "string \<Rightarrow> string \<Rightarrow> browser_view \<Rightarrow> browser_view \<times> bv_cmd list" where
  "downloadFun api token s = (s, [bv_post api token URLTokenReply ''web.CreateURLToken'' []])"

definition first_crumb :: "browser_view \<Rightarrow> string" where
  "first_crumb s = (case bv_currentBucketAll s of [] \<Rightarrow> ''undefined'' | b # _ \<Rightarrow> b)"

definition first_selected :: "browser_view \<Rightarrow> string" where
  "first_selected s = (case bv_deleteDialogIndex s of [] \<Rightarrow> ''undefined'' | n # _ \<Rightarrow> n)"

definition getDownload :: "string \<Rightarrow> browser_view \<Rightarrow> bv_cmd list" where
  "getDownload api s =
     (let requestUrl = api @ ''/minio/download/'' @ first_crumb s @ ''/'' @ first_selected s @ ''?token='' @ bv_presonToken s;
          requestZipUrl = api @ ''/minio/zip?token='' @ bv_presonToken s
      in if bv_drawIndex s > 1
         then [Request (ZipReply (first_crumb s) (bv_prefixName s))
                 \<lparr>req_method = ''POST'', req_url = requestZipUrl,
                  req_body = JObj [(''bucketName'', JStr (first_crumb s)),
                    (''objects'', JArr (map JStr (bv_deleteDialogIndex s))), (''prefix'', JStr (bv_prefixName s))],
                  req_auth = None\<rparr>]
         else [Navigate requestUrl (first_crumb s)])"

fun urltoken_reply :: "string \<Rightarrow> string rpc_reply \<Rightarrow> browser_view \<Rightarrow> browser_view \<times> bv_cmd list" where
  "urltoken_reply api (RpcError m) s = (s, [Toast ToastError m])"
| "urltoken_reply api (RpcFailure c) s = (s, [])"
| "urltoken_reply api (RpcResult tok) s =
     (let s1 = s\<lparr>bv_presonToken := tok\<rparr> in (drawPlayClose s1, getDownload api s1))"

definition zip_name :: "string \<Rightarrow> string \<Rightarrow> string" where
  "zip_name bucketName pre =
     bucketName @ (if length pre > 1 then ''-'' else []) @ js_slice pre 0 (- 1) @ ''.zip''"

definition zip_reply :: "string \<Rightarrow> string \<Rightarrow> int \<Rightarrow> string \<Rightarrow> bv_cmd list" where
  "zip_reply bucketName pre status blobUrl =
     (if status = 200 then [Navigate blobUrl (zip_name bucketName pre)] else [])"

definition expiry :: "browser_view \<Rightarrow> int" where
  "expiry s = bv_num_Day s * 24 * 60 * 60 + bv_num_Hours s * 60 * 60 + bv_num_Minutes s * 60"

definition shared_message :: "browser_view \<Rightarrow> string" where
  "shared_message s =
     ''Object shared. Expires in '' @ int_str (bv_num_Day s) @ '' days '' @ int_str (bv_num_Hours s) @ '' hours '' @
     int_str (bv_num_Minutes s) @ '' minutes''"

definition getPresignedGet :: "string \<Rightarrow> string \<Rightarrow> string \<Rightarrow> browser_view \<Rightarrow> (browser_view, bv_cmd) outcome" where
  "getPresignedGet api token host s =
     andthen (Done s [Toast ToastSuccess (shared_message s)])
       (\<lambda>s. case bv_share_now s of
              None \<Rightarrow> Throws TypeError s []
            | Some i \<Rightarrow>
                if i < length (bv_tableData s)
                then Done s [bv_post api token PresignedReply ''web.PresignedGet''
                       [(''host'', JStr host), (''bucket'', JStr (bv_currentBucket s)),
                        (''object'', JStr (rw_name (bv_tableData s ! i))), (''expiry'', JInt (expiry s))]]
                else Throws TypeError s [])"

fun presigned_reply :: "string \<Rightarrow> string rpc_reply \<Rightarrow> browser_view \<Rightarrow> browser_view \<times> bv_cmd list" where
  "presigned_reply protocol (RpcError m) s = (s, [Toast ToastError m])"
| "presigned_reply protocol (RpcFailure c) s = (s, [])"
| "presigned_reply protocol (RpcResult url) s =
     (s\<lparr>bv_share_input := protocol @ ''//'' @ url, bv_shareDialog := True\<rparr>, [])"

definition shareBtn :: "string \<Rightarrow> string \<Rightarrow> string \<Rightarrow> nat \<Rightarrow> browser_view \<Rightarrow> (browser_view, bv_cmd) outcome" where
  "shareBtn api token host index s =
     andthen (getPresignedGet api token host (s\<lparr>bv_share_now := Some index\<rparr>))
       (\<lambda>s. Done (s\<lparr>bv_shareDialog := True, bv_shareObjectShow := True, bv_shareFileShow := False\<rparr>) [])"

definition ShareToFil :: "row \<Rightarrow> browser_view \<Rightarrow> browser_view" where
  "ShareToFil now s =
     s\<lparr>bv_shareDialog := True, bv_shareObjectShow := False, bv_shareFileShow := True,
       bv_postAdress := bv_currentBucket s @ ''/'' @ rw_name now\<rparr>"

definition bv_getshareDialog :: "bool \<Rightarrow> browser_view \<Rightarrow> browser_view" where
  "bv_getshareDialog v s = s\<lparr>bv_shareDialog := v\<rparr>"

section \<open>Breadcrumbs and the path editor\<close>

definition crumb_prefix :: "string list \<Rightarrow> string" where
  "crumb_prefix crumbs = join ''/'' (js_slice_from crumbs 1)"

definition emit_list :: "browser_view \<Rightarrow> bv_cmd" where
  "emit_list s = Emit ''getListObjects'' [JStr (bv_currentBucket s), JStr (bv_prefixName s)]"

definition buckerAdress :: "nat \<Rightarrow> browser_view \<Rightarrow> browser_view \<times> bv_cmd list" where
  "buckerAdress index s =
     (let s1 = s\<lparr>bv_prefixName := (if index \<noteq> 0 then join ''/'' (js_slice (bv_currentBucketAll s) 1 (int index + 1)) else []),
                 bv_currentBucketAll := js_slice (bv_currentBucketAll s) 0 (int index + 1)\<rparr>
      in (s1, [emit_list s1]))"

definition curListFolder :: "string \<Rightarrow> browser_view \<Rightarrow> browser_view \<times> bv_cmd list" where
  "curListFolder name s =
     (let floder = js_slice name 0 (int (length name) - 1);
          crumbs = bv_currentBucketAll s @ [js_replace_first floder (bv_prefixName s @ ''/'') []];
          s1 = s\<lparr>bv_currentBucketAll := crumbs, bv_prefixName := crumb_prefix crumbs\<rparr>
      in (s1, [emit_list s1]))"

definition editFun :: "browser_view \<Rightarrow> browser_view \<times> bv_cmd list" where
  "editFun s =
     (s\<lparr>bv_editNameFile := False, bv_browserNameChange := join ''/'' (bv_currentBucketAll s),
        bv_name_file := join ''/'' (bv_currentBucketAll s) @ ''/''\<rparr>, [NextTick FocusTick])"

definition editFileFun :: "browser_view \<Rightarrow> browser_view" where
  "editFileFun s = s\<lparr>bv_editNameFile := True\<rparr>"

definition bv_getServer :: "browser_view \<Rightarrow> browser_view \<times> bv_cmd list" where
  "bv_getServer s =
     (drawPlayClose (s\<lparr>bv_form_name := []\<rparr>), [Emit ''getaboutServer'' [JStr (bv_form_name s), JBool False]])"

definition bv_getDialogClose :: "browser_view \<Rightarrow> browser_view \<times> bv_cmd list" where
  "bv_getDialogClose s = (s\<lparr>bv_form_name := []\<rparr>, [Emit ''getDialogClose'' [JBool False]])"

text \<open>Submitting the edited path: its non-empty pieces are the new breadcrumbs.\<close>

definition path_pieces :: "string \<Rightarrow> string list" where
  "path_pieces name_file = filter (\<lambda>item. item \<noteq> []) (split_on CHR ''/'' name_file)"

definition submit_path :: "browser_view \<Rightarrow> browser_view \<times> bv_cmd list" where
  "submit_path s =
     (let crumbs = path_pieces (bv_name_file s);
          s1 = s\<lparr>bv_currentBucketAll := crumbs, bv_prefixName := crumb_prefix crumbs\<rparr>
      in (s1,
          if crumbs \<noteq> [] \<and> hd crumbs = bv_currentBucket s then [emit_list s1]
          else [Emit ''getaboutServer'' [(case crumbs of [] \<Rightarrow> JUndef | b # _ \<Rightarrow> JStr b), JBool False,
                  JStr (bv_prefixName s1), JStr (bv_browserNameChange s1)]]))"

definition blur_tick :: "browser_view \<Rightarrow> browser_view" where
  "blur_tick s = s\<lparr>bv_editNameFile := True\<rparr>"

definition onkeydown :: "int \<Rightarrow> browser_view \<Rightarrow> browser_view \<times> bv_cmd list" where
  "onkeydown keyCode s =
     (if keyCode = 13 then
        (let c1 = (if \<not> bv_editNameFile s then [NextTick BlurTick] else []);
             (s2, c2) = (if bv_form_name s \<noteq> [] then bv_getServer s else (s, []));
             (s3, c3) = (if bv_name_file s2 \<noteq> [] \<and> \<not> bv_editNameFile s2 then submit_path s2 else (s2, []))
         in (s3, c1 @ c2 @ c3))
      else (s, []))"

section \<open>Watchers and small handlers\<close>

definition watch_currentBucket :: "string \<Rightarrow> browser_view \<Rightarrow> browser_view" where
  "watch_currentBucket b s = s\<lparr>bv_currentBucket := b, bv_currentBucketAll := split_on CHR ''/'' b\<rparr>"

definition watch_slideListClick :: "browser_view \<Rightarrow> (browser_view, bv_cmd) outcome" where
  "watch_slideListClick s =
     actClient 0 False (drawPlayClose (s\<lparr>bv_currentBucketAll := split_on CHR ''/'' (bv_currentBucket s), bv_prefixName := []\<rparr>))"

definition watch_addFileClick :: "browser_view \<Rightarrow> (browser_view, bv_cmd) outcome" where
  "watch_addFileClick s = actClient 0 False s"

definition watch_uploadClick :: "browser_view \<Rightarrow> browser_view" where
  "watch_uploadClick s = drawPlayClose s"

definition watch_dialogFormVisible :: "bool \<Rightarrow> bv_cmd list" where
  "watch_dialogFormVisible visible = (if visible then [NextTick FocusTick] else [])"

definition bv_mounted :: "(string \<Rightarrow> string) \<Rightarrow> listing \<Rightarrow> browser_view \<Rightarrow> browser_view" where
  "bv_mounted moment_format aboutListObjects s =
     (aboutListData moment_format aboutListObjects s)\<lparr>bv_currentBucketAll := split_on CHR ''/'' (bv_currentBucket s)\<rparr>"

definition bv_reload :: "browser_view \<Rightarrow> browser_view \<times> bv_cmd list" where
  "bv_reload s = (s\<lparr>bv_isRouterAlive := False\<rparr>, [NextTick AliveTick])"

definition bv_alive_tick :: "browser_view \<Rightarrow> browser_view" where
  "bv_alive_tick s = s\<lparr>bv_isRouterAlive := True\<rparr>"

definition openAbout :: "browser_view \<Rightarrow> browser_view" where
  "openAbout s = s\<lparr>bv_openAboutShow := \<not> bv_openAboutShow s\<rparr>"

definition signBtn :: "browser_view \<Rightarrow> browser_view" where
  "signBtn s = s\<lparr>bv_signShow := \<not> bv_signShow s\<rparr>"

definition getChangePass :: "bool \<Rightarrow> browser_view \<Rightarrow> browser_view" where
  "getChangePass dialog s = s\<lparr>bv_changePass := dialog\<rparr>"

definition formatter :: "row \<Rightarrow> string" where
  "formatter r = rw_lastModified r"

text \<open>The first of the full-screen calls the browser has, if any.\<close>

definition handleFullScreen :: "string list \<Rightarrow> browser_view \<Rightarrow> browser_view \<times> bv_cmd list" where
  "handleFullScreen available s =
     (let wanted = (if bv_fullscreen s
            then [''exitFullscreen'', ''webkitCancelFullScreen'', ''mozCancelFullScreen'', ''msExitFullscreen'']
            else [''requestFullscreen'', ''webkitRequestFullScreen'', ''mozRequestFullScreen'', ''msRequestFullscreen''])
      in (s\<lparr>bv_fullscreen := \<not> bv_fullscreen s\<rparr>,
          map DomCall (take 1 (filter (\<lambda>f. f \<in> set available) wanted))))"

definition bv_logout :: "string \<Rightarrow> string \<Rightarrow> browser_view \<Rightarrow> browser_view \<times> bv_cmd list" where
  "bv_logout api token s = (s, [bv_post api token LogoutReply ''web.GetDiscoveryDoc'' []])"

fun bv_logout_reply :: "unit rpc_reply \<Rightarrow> page \<Rightarrow> page \<times> bv_cmd list" where
  "bv_logout_reply (RpcError m) p = (p, [Toast ToastError m])"
| "bv_logout_reply (RpcFailure c) p = (p, [])"
| "bv_logout_reply (RpcResult _) p = (fst (FedLogOut p), [DispatchFedLogOut, RouterReplace (ByName ''login'')])"

section \<open>The deals of an object\<close>

definition tableJson :: "string \<Rightarrow> string \<Rightarrow> string \<Rightarrow> browser_view \<Rightarrow> browser_view \<times> bv_cmd list" where
  "tableJson api token name s =
     (s\<lparr>bv_exChangeList := []\<rparr>,
      [Request RetrieveReply (axios_get (api @ ''/minio/retrieve/'' @ bv_currentBucket s @ ''/'' @ name) (Some token))])"

definition exChange :: "string \<Rightarrow> string \<Rightarrow> row \<Rightarrow> nat \<Rightarrow> browser_view \<Rightarrow> browser_view \<times> bv_cmd list" where
  "exChange api token r expanded s =
     (if expanded \<noteq> 0 then tableJson api token (rw_name r) (s\<lparr>bv_expands := [rw_name r]\<rparr>)
      else (s\<lparr>bv_expands := []\<rparr>, []))"

definition show_deal :: "(jsnum \<Rightarrow> string) \<Rightarrow> raw_deal \<Rightarrow> shown_deal" where
  "show_deal moment_ms d =
     \<lparr>sd_timeStamp = moment_ms (num_div (rd_timeStamp d) (num_of_int 1000)), sd_visible = False,
      sd_visibleDataCid = False, sd_rest = rd_rest d\<rparr>"

fun retrieve_reply :: "(jsnum \<Rightarrow> string) \<Rightarrow> raw_deal option list rest_reply \<Rightarrow> browser_view \<Rightarrow> browser_view \<times> bv_cmd list" where
  "retrieve_reply moment_ms (RestSuccess deals) s =
     (s\<lparr>bv_exChangeList := map (map_option (show_deal moment_ms)) deals\<rparr>, [])"
| "retrieve_reply moment_ms (RestRefused m) s = (s, [Toast ToastError m])"
| "retrieve_reply moment_ms (RestFailure c) s = (s, [])"

text \<open>\<open>copyLink\<close>: \<open>execCommand\<close> copies, reports failure, or throws (\<open>None\<close>).\<close>

definition copyLink :: "string \<Rightarrow> bool option \<Rightarrow> bv_cmd list" where
  "copyLink txt successful =
     [DomCall (''append textarea '' @ txt), DomCall ''select''] @
     (if successful = Some True then [Toast ToastSuccess ''Link copied to clipboard!''] else []) @
     [DomCall ''remove textarea'']"

section \<open>Callback contracts\<close>

interpretation remove_object: rpc_callback "remove_reply obj" for obj
  by unfold_locales simp_all

interpretation url_token: rpc_callback "urltoken_reply api" for api
  by unfold_locales simp_all

interpretation presigned: rpc_callback "presigned_reply protocol" for protocol
  by unfold_locales simp_all

interpretation bv_discovery: rpc_callback bv_logout_reply
  by unfold_locales simp_all

section \<open>The selection\<close>

definition selected :: "browser_view \<Rightarrow> string list" where
  "selected s = map rw_name (filter (\<lambda>r. \<not> rw_drawShow r) (bv_tableData s))"

lemma count_selected_eq:
  "count_selected rs n names =
     (n + int (length (filter (\<lambda>r. \<not> rw_drawShow r) rs)), names @ map rw_name (filter (\<lambda>r. \<not> rw_drawShow r) rs))"
  by (induction rs arbitrary: n names) auto

lemma selected_close [simp]: "selected (drawPlayClose s) = []"
  by (simp add: selected_def drawPlayClose_def filter_empty_conv)

lemma draw_shown_id: "rw_drawShow r \<Longrightarrow> r\<lparr>rw_drawShow := True\<rparr> = r"
  by (cases r) simp

text \<open>The fields after a click, in both cases.\<close>

lemma drawPlay_result:
  fixes now :: bool
  assumes "index < length (bv_tableData s)"
  defines "rows \<equiv> (bv_tableData s)[index := (bv_tableData s ! index)\<lparr>rw_drawShow := \<not> now\<rparr>]"
  shows "\<exists>s'. drawPlay index now s = Done s' [] \<and> bv_tableData s' = rows \<and>
    bv_drawIndex s' = int (length (selected s')) \<and> bv_deleteDialogIndex s' = selected s' \<and>
    (bv_drawer s' \<longleftrightarrow> selected s' \<noteq> [])"
proof -
  let ?sel = "filter (\<lambda>r. \<not> rw_drawShow r) rows"
  let ?s1 = "s\<lparr>bv_tableData := rows, bv_drawIndex := int (length ?sel), bv_deleteDialogIndex := map rw_name ?sel\<rparr>"
  have d: "drawPlay index now s = Done (if ?sel = [] then drawPlayClose ?s1 else ?s1\<lparr>bv_drawer := True\<rparr>) []"
    using assms(1) by (simp add: drawPlay_def Let_def count_selected_eq del: filter.simps flip: rows_def)
  show ?thesis
  proof (cases "?sel = []")
    case True
    then have "\<forall>r \<in> set rows. rw_drawShow r" by (simp add: filter_empty_conv)
    then have "map (\<lambda>r. r\<lparr>rw_drawShow := True\<rparr>) rows = rows" by (intro map_idI) (simp add: draw_shown_id)
    with d True show ?thesis by (simp add: drawPlayClose_def selected_def)
  next
    case False
    with d show ?thesis by (simp add: selected_def)
  qed
qed

text \<open>
  C12: the drawer always shows the selection: after a click that selects or deselects any row, the
  counter, the list the buttons work on, and the drawer agree with the rows that are marked, in table
  order; the clicked row is marked as asked, the others keep their marks, no row is renamed or moved.
\<close>

theorem drawPlay_consistent:
  assumes "index < length (bv_tableData s)"
  shows "\<exists>s'. drawPlay index now s = Done s' [] \<and> bv_drawIndex s' = int (length (selected s')) \<and>
    bv_deleteDialogIndex s' = selected s' \<and> (bv_drawer s' \<longleftrightarrow> selected s' \<noteq> []) \<and>
    map rw_name (bv_tableData s') = map rw_name (bv_tableData s) \<and>
    (\<forall>j < length (bv_tableData s). rw_drawShow (bv_tableData s' ! j) =
       (if j = index then \<not> now else rw_drawShow (bv_tableData s ! j)))"
proof -
  obtain s' where s': "drawPlay index now s = Done s' []"
    "bv_tableData s' = (bv_tableData s)[index := (bv_tableData s ! index)\<lparr>rw_drawShow := \<not> now\<rparr>]"
    "bv_drawIndex s' = int (length (selected s'))" "bv_deleteDialogIndex s' = selected s'"
    "bv_drawer s' \<longleftrightarrow> selected s' \<noteq> []"
    using drawPlay_result [OF assms] by blast
  have "map rw_name (bv_tableData s') = map rw_name (bv_tableData s)"
    using assms s'(2) by (intro nth_equalityI) (auto simp: nth_list_update)
  with assms s' show ?thesis by (auto simp: nth_list_update)
qed

definition sample_rows :: "row list" where
  "sample_rows = map (\<lambda>n. row_of id \<lparr>ob_name = n, ob_lastModified = [], ob_size = Fin 1, ob_contentType = ''text/plain''\<rparr>)
     [''a.txt'', ''b.txt'', ''c.txt'']"

theorem drawPlay_consistent_witness:
  "\<exists>s'. drawPlay 1 True ((bv_init ''bucket'')\<lparr>bv_tableData := sample_rows\<rparr>) = Done s' [] \<and> bv_deleteDialogIndex s' = selected s'"
  using drawPlay_consistent [of 1 "(bv_init ''bucket'')\<lparr>bv_tableData := sample_rows\<rparr>" True]
  by (force simp: sample_rows_def)

text \<open>
  Entering a folder leaves the selection behind: the new listing marks no row, but the drawer, its
  counter and the list that the delete and download buttons work on are those of the folder left.
\<close>

theorem folder_keeps_selection:
  assumes "bv_drawer s" "bv_deleteDialogIndex s = names" "bv_drawIndex s = n"
  shows "\<exists>s'. s' = aboutListData fmt l (fst (curListFolder folder s)) \<and>
    selected s' = [] \<and> bv_drawer s' \<and> bv_drawIndex s' = n \<and>
    snd (deleteListFun api token s') = map (\<lambda>item. getRemoveObject api token item s) names"
  using assms
  by (auto simp: aboutListData_def curListFolder_def Let_def deleteListFun_def selected_def getRemoveObject_def
      row_of_def filter_empty_conv split: option.split)

theorem folder_keeps_selection_witness:
  "bv_drawer (aboutListData id \<lparr>ls_objects = None, ls_writable = True\<rparr>
     (fst (curListFolder ''photos/'' ((bv_init ''b'')\<lparr>bv_drawer := True, bv_deleteDialogIndex := [''a.txt''], bv_drawIndex := 1\<rparr>))))"
  using folder_keeps_selection [of "(bv_init ''b'')\<lparr>bv_drawer := True, bv_deleteDialogIndex := [''a.txt''], bv_drawIndex := 1\<rparr>"
      "[''a.txt'']" 1 id "\<lparr>ls_objects = None, ls_writable = True\<rparr>" "''photos/''" "[]" "[]"] by simp

section \<open>Deleting\<close>

lemma remove_while_mapping_done:
  "\<forall>r \<in> set (drop i rows). rw_name r \<noteq> obj \<Longrightarrow> remove_while_mapping obj n i rows = rows"
proof (induction n arbitrary: i)
  case 0
  show ?case by simp
next
  case (Suc n)
  have "\<forall>r \<in> set (drop (Suc i) rows). rw_name r \<noteq> obj"
    using Suc.prems set_drop_subset_set_drop [of i "Suc i" rows] by auto
  moreover have "\<not> (i < length rows \<and> obj = rw_name (rows ! i))"
    using Suc.prems by (metis Cons_nth_drop_Suc list.set_intros(1))
  ultimately show ?case using Suc.IH [of "Suc i"] by (simp only: remove_while_mapping.simps if_False)
qed

lemma remove_while_mapping_distinct:
  assumes "distinct (map rw_name (pre @ rows))" "\<forall>r \<in> set pre. rw_name r \<noteq> obj" "length rows \<le> n"
  shows "remove_while_mapping obj n (length pre) (pre @ rows) = pre @ filter (\<lambda>r. rw_name r \<noteq> obj) rows"
  using assms
proof (induction rows arbitrary: pre n)
  case Nil
  then show ?case by (simp add: remove_while_mapping_done)
next
  case (Cons r rows)
  then obtain m where n: "n = Suc m" "length rows \<le> m" by (cases n) auto
  show ?case
  proof (cases "rw_name r = obj")
    case True
    then have none: "\<forall>x \<in> set rows. rw_name x \<noteq> obj" using Cons.prems(1) by (auto simp: image_iff)
    have "js_splice (pre @ r # rows) (int (length pre)) 1 = pre @ rows"
      by (simp add: js_splice_def Let_def)
    moreover have "remove_while_mapping obj m (Suc (length pre)) (pre @ rows) = pre @ rows"
    proof (rule remove_while_mapping_done)
      have "set (drop (Suc (length pre)) (pre @ rows)) \<subseteq> set rows" by (auto dest: in_set_dropD)
      with none show "\<forall>x \<in> set (drop (Suc (length pre)) (pre @ rows)). rw_name x \<noteq> obj" by blast
    qed
    moreover have "filter (\<lambda>x. rw_name x \<noteq> obj) rows = rows" using none by (simp add: filter_id_conv)
    ultimately show ?thesis using n True by simp
  next
    case False
    have "remove_while_mapping obj m (length (pre @ [r])) ((pre @ [r]) @ rows) = (pre @ [r]) @ filter (\<lambda>x. rw_name x \<noteq> obj) rows"
      using Cons.prems False n(2) by (intro Cons.IH) auto
    with False n show ?thesis by simp
  qed
qed

text \<open>
  A confirmed deletion removes exactly the object: although the callback splices the table while it
  maps over it, with the distinct names a listing has the rows left are those of the other objects, in
  order, and the parent receives them; a refused or failed deletion changes nothing.
\<close>

theorem remove_reply_filters:
  assumes "distinct (map rw_name (bv_tableData s))"
  shows "(case remove_reply obj (RpcResult ()) (s, parent) of ((s', listing'), cs) \<Rightarrow>
      bv_tableData s' = filter (\<lambda>r. rw_name r \<noteq> obj) (bv_tableData s) \<and>
      listing' = Some (map object_of (bv_tableData s')) \<and> \<not> bv_deleteDialogVisible s' \<and> distinct (map rw_name (bv_tableData s'))) \<and>
    (\<not> rpc_ok r \<longrightarrow> fst (remove_reply obj r (s, parent)) = (s, parent))"
proof (intro conjI impI)
  have rows: "remove_while_mapping obj (length (bv_tableData s)) 0 (bv_tableData s)
      = filter (\<lambda>r. rw_name r \<noteq> obj) (bv_tableData s)"
    using remove_while_mapping_distinct [of "[]" "bv_tableData s" obj "length (bv_tableData s)"] assms by simp
  show "case remove_reply obj (RpcResult ()) (s, parent) of ((s', listing'), cs) \<Rightarrow>
      bv_tableData s' = filter (\<lambda>r. rw_name r \<noteq> obj) (bv_tableData s) \<and>
      listing' = Some (map object_of (bv_tableData s')) \<and> \<not> bv_deleteDialogVisible s' \<and> distinct (map rw_name (bv_tableData s'))"
    using assms by (simp add: rows Let_def distinct_map_filter)
qed (rule remove_object.unsuccessful_keeps_state)

theorem remove_reply_filters_witness:
  "map rw_name (bv_tableData (fst (fst (remove_reply ''b.txt'' (RpcResult ()) ((bv_init ''bucket'')\<lparr>bv_tableData := sample_rows\<rparr>, None)))))
     = [''a.txt'', ''c.txt'']"
  using remove_reply_filters [of "(bv_init ''bucket'')\<lparr>bv_tableData := sample_rows\<rparr>" "''b.txt''" None "RpcFailure None"]
  by (simp add: sample_rows_def row_of_def case_prod_unfold)

text \<open>
  The delete icon of the row displayed at position \<open>i\<close>: the template indexes \<open>tableData\<close> with the
  position in the table widget's own, possibly sorted, order.
\<close>

definition click_delete :: "nat \<Rightarrow> browser_view \<Rightarrow> browser_view" where
  "click_delete i s = deleteBtn (rw_name (bv_tableData s ! i)) s"

text \<open>
  The delete icon names the wrong object once the table is sorted: for any order in which the widget
  displays the rows, the icons of all rows name the displayed objects only if that order is the order
  of the unsorted table. (The columns are sortable and the widget does not reorder its data.)
\<close>

theorem delete_icon_follows_table_order:
  assumes "length displayed = length (bv_tableData s)"
  shows "(\<forall>i < length displayed. bv_deleteDialogIndex (click_delete i s) = [rw_name (displayed ! i)]) \<longleftrightarrow>
    map rw_name displayed = map rw_name (bv_tableData s)"
  using assms by (auto simp: click_delete_def deleteBtn_def list_eq_iff_nth_eq)

theorem delete_icon_follows_table_order_witness:
  "\<exists>i < 3. bv_deleteDialogIndex (click_delete i ((bv_init ''bucket'')\<lparr>bv_tableData := sample_rows\<rparr>)) \<noteq> [rw_name (rev sample_rows ! i)]"
proof -
  let ?s = "(bv_init ''bucket'')\<lparr>bv_tableData := sample_rows\<rparr>"
  have "length (rev sample_rows) = 3" "map rw_name (rev sample_rows) \<noteq> map rw_name (bv_tableData ?s)"
    by (simp_all add: sample_rows_def row_of_def)
  moreover have "length (rev sample_rows) = length (bv_tableData ?s)" by simp
  ultimately show ?thesis using delete_icon_follows_table_order [of "rev sample_rows" ?s] by auto
qed

section \<open>Folders\<close>

text \<open>The breadcrumbs and the prefix agree, and no folder has an empty name.\<close>

definition crumbs_ok :: "browser_view \<Rightarrow> bool" where
  "crumbs_ok s \<longleftrightarrow> bv_currentBucketAll s \<noteq> [] \<and> [] \<notin> set (tl (bv_currentBucketAll s)) \<and>
     bv_prefixName s = crumb_prefix (bv_currentBucketAll s)"

definition folder_key :: "string \<Rightarrow> string \<Rightarrow> string" where
  "folder_key pre x = (if pre = [] then x @ ''/'' else pre @ ''/'' @ x @ ''/'')"

lemma folder_name:
  assumes "x \<noteq> []" "CHR ''/'' \<notin> set x"
  shows "js_replace_first (js_slice (folder_key pre x) 0 (int (length (folder_key pre x)) - 1)) (pre @ ''/'') [] = x"
proof (cases "pre = []")
  case True
  have "\<not> (\<exists>a b. x = a @ ''/'' @ b)" using assms(2) by auto
  with True show ?thesis by (simp only: js_slice_drop_last) (simp add: folder_key_def js_replace_first_absent)
next
  case False
  then have "js_slice (folder_key pre x) 0 (int (length (folder_key pre x)) - 1) = (pre @ ''/'') @ x"
    by (simp only: js_slice_drop_last) (simp add: folder_key_def butlast_append)
  then show ?thesis by (simp only: js_replace_first_prefix) simp
qed

text \<open>Entering a folder, and clicking a crumb.\<close>

lemma enter_folder:
  assumes "crumbs_ok s" "x \<noteq> []" "CHR ''/'' \<notin> set x"
  defines "s1 \<equiv> fst (curListFolder (folder_key (bv_prefixName s) x) s)"
  shows "s1 = s\<lparr>bv_currentBucketAll := bv_currentBucketAll s @ [x], bv_prefixName := join ''/'' (tl (bv_currentBucketAll s) @ [x])\<rparr>"
    and "crumbs_ok s1"
proof -
  show s1: "s1 = s\<lparr>bv_currentBucketAll := bv_currentBucketAll s @ [x], bv_prefixName := join ''/'' (tl (bv_currentBucketAll s) @ [x])\<rparr>"
    using folder_name [OF assms(2,3), of "bv_prefixName s"] assms(1)
    by (simp add: s1_def curListFolder_def Let_def crumb_prefix_def js_slice_from_1 crumbs_ok_def)
  show "crumbs_ok s1" using assms(1,2) by (simp add: s1 crumbs_ok_def crumb_prefix_def js_slice_from_1)
qed

lemma click_crumb:
  assumes "crumbs_ok s" "i < length (bv_currentBucketAll s)"
  defines "s1 \<equiv> fst (buckerAdress i s)"
  shows "s1 = s\<lparr>bv_currentBucketAll := take (Suc i) (bv_currentBucketAll s), bv_prefixName := join ''/'' (take i (tl (bv_currentBucketAll s)))\<rparr>"
    and "crumbs_ok s1"
proof -
  show s1: "s1 = s\<lparr>bv_currentBucketAll := take (Suc i) (bv_currentBucketAll s), bv_prefixName := join ''/'' (take i (tl (bv_currentBucketAll s)))\<rparr>"
    using js_slice_prefix [of "bv_currentBucketAll s" "Suc i"] js_slice_tail [of "bv_currentBucketAll s" i]
    by (simp add: s1_def buckerAdress_def Let_def add.commute)
  obtain b cs where "bv_currentBucketAll s = b # cs" using assms(2) by (cases "bv_currentBucketAll s") auto
  with assms(1) show "crumbs_ok s1"
    by (auto simp: s1 crumbs_ok_def crumb_prefix_def js_slice_from_1 dest: in_set_takeD)
qed

text \<open>
  C10: going into a folder and back: clicking the folder \<open>x\<close> of the current prefix appends one crumb, asks
  the parent for exactly that folder's path, and keeps prefix and breadcrumbs in agreement; clicking the
  previous crumb afterwards restores both and asks for the previous path.
\<close>

theorem folder_round_trip:
  assumes "crumbs_ok s" "x \<noteq> []" "CHR ''/'' \<notin> set x"
  defines "pre \<equiv> bv_prefixName s"
  defines "s1 \<equiv> fst (curListFolder (folder_key pre x) s)"
  defines "s2 \<equiv> fst (buckerAdress (length (bv_currentBucketAll s) - 1) s1)"
  shows "crumbs_ok s1 \<and> bv_currentBucketAll s1 = bv_currentBucketAll s @ [x] \<and>
    listing_prefix (bv_prefixName s1) = folder_key pre x \<and>
    snd (curListFolder (folder_key pre x) s) = [Emit ''getListObjects'' [JStr (bv_currentBucket s), JStr (bv_prefixName s1)]] \<and>
    s2 = s \<and> snd (buckerAdress (length (bv_currentBucketAll s) - 1) s1)
      = [Emit ''getListObjects'' [JStr (bv_currentBucket s), JStr pre]]"
proof -
  obtain b cs where bc: "bv_currentBucketAll s = b # cs" "[] \<notin> set cs" "pre = join ''/'' cs"
    using assms(1) by (cases "bv_currentBucketAll s") (auto simp: crumbs_ok_def crumb_prefix_def js_slice_from_1 pre_def)
  have pre_nil: "pre = [] \<longleftrightarrow> cs = []"
    using bc(2,3) by (cases "(''/'', cs)" rule: join.cases) auto
  have s1: "s1 = s\<lparr>bv_currentBucketAll := b # cs @ [x], bv_prefixName := join ''/'' (cs @ [x])\<rparr>" and ok1: "crumbs_ok s1"
    using enter_folder [OF assms(1-3)] by (simp_all add: s1_def pre_def bc(1))
  have "crumbs_ok s1" by (rule ok1)
  moreover have "listing_prefix (bv_prefixName s1) = folder_key pre x"
    using assms(2) pre_nil bc(3) by (simp add: s1 listing_prefix_def folder_key_def join_snoc_if)
  moreover have s2: "s2 = s"
    using click_crumb(1) [OF ok1, of "length cs"] bc pre_nil by (cases s) (simp add: s2_def s1 pre_def)
  moreover have "snd (buckerAdress (length (bv_currentBucketAll s) - 1) s1) = [emit_list s2]"
    by (simp add: s2_def buckerAdress_def Let_def)
  moreover have "snd (curListFolder (folder_key pre x) s) = [emit_list s1]"
    by (simp add: s1_def curListFolder_def Let_def)
  ultimately show ?thesis by (simp add: s1 bc(1) emit_list_def pre_def)
qed

theorem folder_round_trip_witness:
  "bv_prefixName (fst (curListFolder ''photos/2021/'' ((bv_init ''b'')\<lparr>bv_currentBucketAll := [''b'', ''photos''], bv_prefixName := ''photos''\<rparr>)))
     = ''photos/2021''"
proof -
  let ?s = "(bv_init ''b'')\<lparr>bv_currentBucketAll := [''b'', ''photos''], bv_prefixName := ''photos''\<rparr>"
  have "crumbs_ok ?s" by (simp add: crumbs_ok_def crumb_prefix_def js_slice_from_1)
  from folder_round_trip [OF this, of "''2021''"] show ?thesis by (simp add: folder_key_def listing_prefix_def split: if_splits)
qed

section \<open>Archives and links\<close>

text \<open>
  Downloading several objects asks for one archive with exactly the selected names and the current
  bucket and prefix, one object for a direct link; the archive inside a folder is named after the folder
  with its last character missing, because the name is cut as if the prefix ended in a slash.
\<close>

theorem download_selection:
  assumes "bv_currentBucketAll s = b # cs" "bv_deleteDialogIndex s = n # ns"
  shows "(bv_drawIndex s > 1 \<longrightarrow> requests (snd (urltoken_reply api (RpcResult tok) s)) =
      [(ZipReply b (bv_prefixName s), \<lparr>req_method = ''POST'', req_url = api @ ''/minio/zip?token='' @ tok,
         req_body = JObj [(''bucketName'', JStr b), (''objects'', JArr (map JStr (n # ns))), (''prefix'', JStr (bv_prefixName s))],
         req_auth = None\<rparr>)]) \<and>
    (bv_drawIndex s \<le> 1 \<longrightarrow> snd (urltoken_reply api (RpcResult tok) s) =
      [Navigate (api @ ''/minio/download/'' @ b @ ''/'' @ n @ ''?token='' @ tok) b]) \<and>
    (1 < length pre \<longrightarrow> zip_reply b pre 200 url = [Navigate url (b @ ''-'' @ butlast pre @ ''.zip'')])"
  using assms js_slice_minus_one [of pre]
  by (simp add: getDownload_def first_crumb_def first_selected_def Let_def zip_reply_def zip_name_def)

theorem download_selection_witness:
  "zip_reply ''b'' ''photos'' 200 ''blob:1'' = [Navigate ''blob:1'' ''b-photo.zip'']"
  using download_selection [of "(bv_init ''b'')\<lparr>bv_currentBucketAll := [''b''], bv_deleteDialogIndex := [''a'']\<rparr>" "''b''" "[]" "''a''" "[]"
      "[]" "[]" "''photos''" "''blob:1''"] by simp

text \<open>
  Submitting the edited path: its non-empty pieces become the breadcrumbs; when the first is the
  current bucket the listing of the rest is requested, otherwise the parent is asked to create the bucket
  named by the first piece, with the whole old path, not the old bucket, as the name to fall back to.
\<close>

theorem submit_path_targets:
  assumes "bv_editNameFile s = False" "bv_form_name s = []" "path_pieces (bv_name_file s) = b # cs"
  shows "\<exists>s'. fst (onkeydown 13 s) = s' \<and> crumbs_ok s' \<and> bv_currentBucketAll s' = b # cs \<and>
    snd (onkeydown 13 s) = [NextTick BlurTick,
      (if b = bv_currentBucket s then Emit ''getListObjects'' [JStr b, JStr (join ''/'' cs)]
       else Emit ''getaboutServer'' [JStr b, JBool False, JStr (join ''/'' cs), JStr (bv_browserNameChange s)])]"
proof -
  have ne: "bv_name_file s \<noteq> []" using assms(3) by (auto simp: path_pieces_def)
  have "[] \<notin> set (b # cs)" using assms(3) unfolding path_pieces_def by (auto simp: filter_eq_Cons_iff)
  then show ?thesis
    using assms ne
    by (simp add: onkeydown_def Let_def submit_path_def crumbs_ok_def crumb_prefix_def js_slice_from_1 emit_list_def)
qed

theorem submit_path_targets_witness:
  "snd (onkeydown 13 ((bv_init ''b'')\<lparr>bv_editNameFile := False, bv_name_file := ''new/docs/'', bv_browserNameChange := ''b/photos''\<rparr>))
     = [NextTick BlurTick, Emit ''getaboutServer'' [JStr ''new'', JBool False, JStr ''docs'', JStr ''b/photos'']]"
  using submit_path_targets [of "(bv_init ''b'')\<lparr>bv_editNameFile := False, bv_name_file := ''new/docs/'', bv_browserNameChange := ''b/photos''\<rparr>"
      "''new''" "[''docs'']"]
  by (simp add: bv_init_def path_pieces_def)

lemma presigned_expiry:
  "bv_share_now s = Some i \<Longrightarrow> i < length (bv_tableData s) \<Longrightarrow>
   \<exists>c. getPresignedGet api token host s = Done s [Toast ToastSuccess (shared_message s), c]"
  by (simp add: getPresignedGet_def)

end
