(* ===== verification/View_Helpers.thy ===== *)
theory View_Helpers
  imports Browser_View
begin

text \<open>
  The remaining parts of the file browser (\<open>views/minio/index.vue\<close>): the icon of a row (template),
  the filters \<open>formatbytes\<close>, \<open>slideName\<close> and \<open>hiddAddress\<close>, the wallet handlers and the
  platform helpers. The wallet library, \<open>Math.log\<close> and \<open>Math.random\<close> are parameters.
\<close>

section \<open>The icon of a row\<close>

datatype row_kind = TextRow | ImageRow | ZipRow | ExcelRow | PdfRow | MediaRow | WordRow | PptRow | SlidesRow | FolderRow | OtherRow

definition contains :: "string \<Rightarrow> string \<Rightarrow> bool" where
  "contains s pat \<longleftrightarrow> js_indexOf s pat \<ge> 0"

text \<open>The \<open>v-if\<close> / \<open>v-else-if\<close> chain of the name column.\<close>

definition row_kind_of :: "row \<Rightarrow> row_kind" where
  "row_kind_of r =
     (let ct = rw_contentType r; nm = rw_name r
      in if contains ct ''text'' then TextRow
         else if contains ct ''image'' then ImageRow
         else if contains ct ''zip'' then ZipRow
         else if contains nm ''xlsx'' \<or> contains ct ''excel'' then ExcelRow
         else if contains nm ''pdf'' then PdfRow
         else if contains ct ''video'' \<or> contains ct ''audio'' then MediaRow
         else if contains nm ''doc'' then WordRow
         else if contains nm ''ppt'' then PptRow
         else if contains nm ''powerpoint'' \<or> contains nm ''presentation'' then SlidesRow
         else if ct = [] then FolderRow
         else OtherRow)"

text \<open>Only a row shown as a folder can be entered by a click.\<close>

definition row_opens :: "row \<Rightarrow> bool" where
  "row_opens r \<longleftrightarrow> row_kind_of r = FolderRow"

section \<open>Filters of the view\<close>

definition byte_sizes :: "string list" where
  "byte_sizes = [''bytes'', ''KB'', ''MB'', ''GB'', ''TB'', ''PB'', ''EB'', ''ZB'', ''YB'']"

text \<open>\<open>sizes[i]\<close>: anything but a position of the array is \<open>undefined\<close>.\<close>

definition size_name :: "jsnum \<Rightarrow> string" where
  "size_name i =
     (case i of
        Fin x \<Rightarrow> if of_int \<lfloor>x\<rfloor> = x \<and> 0 \<le> x \<and> \<lfloor>x\<rfloor> < int (length byte_sizes) then byte_sizes ! nat \<lfloor>x\<rfloor> else ''undefined''
      | _ \<Rightarrow> ''undefined'')"

text \<open>\<open>Math.pow(1000, i)\<close> for the integral exponents \<open>floor\<close> gives.\<close>

definition pow_1000 :: "jsnum \<Rightarrow> jsnum" where
  "pow_1000 i =
     (case i of Fin x \<Rightarrow> rnd64 (pow10 (3 * \<lfloor>x\<rfloor>)) | PInf \<Rightarrow> PInf | NInf \<Rightarrow> Fin 0 | NaN \<Rightarrow> NaN)"

definition formatbytes :: "(jsnum \<Rightarrow> jsnum) \<Rightarrow> jsnum \<Rightarrow> string" where
  "formatbytes math_log bytes =
     (if bytes = Fin 0 then ''0 B''
      else let k = num_of_int 1000; i = math_floor (num_div (math_log bytes) (math_log k))
           in to_precision (num_div bytes (pow_1000 i)) 3 @ '' '' @ size_name i)"

definition slideName :: "string \<Rightarrow> string \<Rightarrow> string" where
  "slideName prefixName name =
     (if name = [] then ''-''
      else if prefixName \<noteq> [] then js_replace_first name (prefixName @ ''/'') [] else name)"

definition hiddAddress :: "string \<Rightarrow> string" where
  "hiddAddress val =
     (if val \<noteq> [] then js_substring val 0 6 @ ''...'' @ js_substring val (int (length val) - 4) (int (length val)) else ''-'')"

section \<open>The wallet\<close>

text \<open>\<open>signFun\<close>: the module it calls is no longer imported.\<close>

definition signFun :: "browser_view \<Rightarrow> (browser_view, bv_cmd) outcome" where
  "signFun s = (if bv_addr s = [] then Throws ReferenceError s [] else Done s [])"

definition wallet_connected :: "string \<Rightarrow> browser_view \<Rightarrow> browser_view" where
  "wallet_connected addr s = s\<lparr>bv_addr := addr\<rparr>"

definition wallet_balance :: "string \<Rightarrow> browser_view \<Rightarrow> browser_view" where
  "wallet_balance balanceAll s = s\<lparr>bv_priceAccound := to_fixed (js_Number balanceAll) 4\<rparr>"

definition network_of :: "int \<Rightarrow> string \<times> string" where
  "network_of netId =
     (if netId = 1 then (''mainnet'', ''ETH'')
      else if netId = 3 then (''ropsten'', ''ETH'')
      else if netId = 4 then (''rinkeby'', ''ETH'')
      else if netId = 5 then (''goerli'', ''ETH'')
      else if netId = 42 then (''kovan'', ''ETH'')
      else if netId = 999 then (''NBAI'', ''NBAI'')
      else ([], []))"

definition wallet_network :: "int \<Rightarrow> browser_view \<Rightarrow> browser_view" where
  "wallet_network netId s =
     (let (name, u) = network_of netId in s\<lparr>bv_network_name := name, bv_network_unit := u\<rparr>)"

text \<open>The listeners of \<open>fn\<close>; the boolean tells whether \<open>walletInfo\<close> is called.\<close>

definition accounts_changed :: "page \<Rightarrow> string list \<Rightarrow> browser_view \<Rightarrow> browser_view \<times> bool" where
  "accounts_changed p accounts s =
     (case getItem (session p) ''addrWeb'' of
        Some (_ # _) \<Rightarrow> (s\<lparr>bv_addr := (case accounts of [] \<Rightarrow> [] | a # _ \<Rightarrow> a)\<rparr>, True)
      | _ \<Rightarrow> (s, False))"

definition network_changed :: "browser_view \<Rightarrow> browser_view \<times> bool" where
  "network_changed s = (s, True)"

definition nonce_message :: "jsnum \<Rightarrow> string" where
  "nonce_message math_random =
     ''I am signing my one-time nonce: '' @ num_str (math_floor (num_mul math_random (num_of_int 1000000)))"

definition qm_failed :: "string \<Rightarrow> bv_cmd list" where
  "qm_failed m = [Toast ToastError m]"

definition signOutFun :: "browser_view \<times> page \<Rightarrow> browser_view \<times> page" where
  "signOutFun sp = ((fst sp)\<lparr>bv_addr := []\<rparr>, (snd sp)\<lparr>session := removeItem ''addrWeb'' (session (snd sp))\<rparr>)"

record transaction =
  tx_from :: string
  tx_to :: string
  tx_value :: string

definition send :: "browser_view \<Rightarrow> transaction option" where
  "send s =
     (if bv_addr s = [] then None
      else Some \<lparr>tx_from = bv_addr s, tx_to = ''0x2bf5306C14A93DC366A7C69B1b795b9C14C665e5'', tx_value = ''1000000000000000000''\<rparr>)"

section \<open>The platform\<close>

definition windows_versions :: "(string \<times> string \<times> string) list" where
  "windows_versions =
     [(''Windows NT 5.0'', ''Windows 2000'', ''Win2000''), (''Windows NT 5.1'', ''Windows XP'', ''WinXP''),
      (''Windows NT 5.2'', ''Windows 2003'', ''Win2003''), (''Windows NT 6.0'', ''Windows Vista'', ''WinVista''),
      (''Windows NT 6.1'', ''Windows 7'', ''Win7''), (''Windows NT 10'', ''Windows 10'', ''Win10'')]"

fun windows_name :: "(string \<times> string \<times> string) list \<Rightarrow> string \<Rightarrow> string" where
  "windows_name [] ua = ''other''"
| "windows_name ((a, b, name) # rest) ua =
     (if js_indexOf ua a > -1 \<or> js_indexOf ua b > -1 then name else windows_name rest ua)"

definition getOS :: "string \<Rightarrow> string \<Rightarrow> string" where
  "getOS platform sUserAgent =
     (let isWin = (platform = ''Win32'' \<or> platform = ''Windows'');
          isMac = (platform \<in> {''Mac68K'', ''MacPPC'', ''Macintosh'', ''MacIntel''})
      in if isMac then ''Mac''
         else if platform = ''X11'' \<and> \<not> isWin \<and> \<not> isMac then ''Unix''
         else if js_indexOf platform ''Linux'' > -1 then ''Linux''
         else if isWin then windows_name windows_versions sUserAgent
         else ''other'')"

definition version_char :: "char \<Rightarrow> bool" where
  "version_char c \<longleftrightarrow> is_digit c \<or> c = CHR ''.''"

text \<open>
  The first match of \<open>pat([\d.]+)\<close>, with \<open>any\<close> one more character of any kind before the group, and
  a text required somewhere after the group: the version it captures.
\<close>

fun match_version :: "string \<Rightarrow> nat \<Rightarrow> string \<Rightarrow> string \<Rightarrow> string option" where
  "match_version pat any later [] = None"
| "match_version pat any later (c # cs) =
     (let r = drop (length pat) (c # cs); v = takeWhile version_char (drop any r)
      in if starts_with pat (c # cs) \<and> any \<le> length r \<and> v \<noteq> [] \<and> 0 \<le> js_indexOf (drop (any + length v) r) later
         then Some v else match_version pat any later cs)"

fun first_browser :: "(string \<times> string \<times> nat \<times> string) list \<Rightarrow> string \<Rightarrow> string" where
  "first_browser [] ua = ''Unknown browser''"
| "first_browser ((name, pat, any, later) # rest) ua =
     (case match_version pat any later ua of Some v \<Rightarrow> name @ '' '' @ v | None \<Rightarrow> first_browser rest ua)"

definition Browse :: "string \<Rightarrow> string" where
  "Browse userAgent =
     first_browser [(''IE'', ''msie '', 0, []), (''firefox'', ''firefox/'', 0, []), (''chrome'', ''chrome/'', 0, []),
       (''opera'', ''opera'', 1, []), (''safari'', ''version/'', 0, ''safari'')] (map lower userAgent)"

section \<open>Facts\<close>

lemma contains_iff: "contains s pat \<longleftrightarrow> (\<exists>a b. s = a @ pat @ b)"
  by (simp add: contains_def js_indexOf_nonneg)

text \<open>
  A folder whose name contains one of the words the icons look for cannot be opened: an entry without a
  content type is shown as a folder, and enters it on a click, exactly when its whole path contains none
  of xlsx, pdf, doc, ppt, powerpoint and presentation.
\<close>

theorem folder_opens_iff:
  assumes "rw_contentType r = []"
  shows "row_opens r \<longleftrightarrow>
    (\<forall>w \<in> {''xlsx'', ''pdf'', ''doc'', ''ppt'', ''powerpoint'', ''presentation''}. \<not> (\<exists>a b. rw_name r = a @ w @ b))"
proof -
  have "\<not> contains [] w" if "w \<noteq> []" for w using that by (simp add: contains_iff)
  then show ?thesis
    using assms by (simp add: row_opens_def row_kind_of_def Let_def flip: contains_iff)
qed

theorem folder_opens_iff_witness:
  "\<not> row_opens (row_of id \<lparr>ob_name = ''docs/'', ob_lastModified = [], ob_size = Fin 0, ob_contentType = []\<rparr>)"
proof -
  let ?r = "row_of id \<lparr>ob_name = ''docs/'', ob_lastModified = [], ob_size = Fin 0, ob_contentType = []\<rparr>"
  have "rw_contentType ?r = []" "rw_name ?r = [] @ ''doc'' @ ''s/''" by (simp_all add: row_of_def)
  then show ?thesis using folder_opens_iff [of ?r] by blast
qed

lemma slideName_relative:
  "pre \<noteq> [] \<Longrightarrow> slideName pre (pre @ ''/'' @ x) = (if pre @ ''/'' @ x = [] then ''-'' else x)"
  using js_replace_first_prefix [of "pre @ ''/''" x "[]"] by (simp add: slideName_def)

lemma hiddAddress_length: "10 \<le> length a \<Longrightarrow> length (hiddAddress a) = 13"
  by (auto simp: hiddAddress_def js_substring_def Let_def)

lemma send_needs_account: "send s = None \<longleftrightarrow> bv_addr s = []"
  by (simp add: send_def)

end
