(* ===== verification/Share_Dialog.thy ===== *)
theory Share_Dialog
  imports Browser_View
begin

text \<open>
  The sharing dialog (\<open>components/shareDialog.vue\<close>): the link with its expiry, the deal forms (online
  and offline) with their field sanitisers, the tags, and the provider table that pages through the
  miners of a location; and the retrieval dialog (\<open>components/retrievalDialog.vue\<close>).
\<close>

section \<open>State\<close>

record online_form =
  of_minerId :: string
  of_price :: string
  of_duration :: string
  of_verified :: string
  of_fastRetirval :: string
  of_dealCID :: string

record offline_form =
  ff_task_name :: string
  ff_desc :: string
  ff_tags :: "string list"
  ff_curated_dataset :: string
  ff_type :: string
  ff_OpenBidType :: int
  ff_bidDay :: string
  ff_min_price :: string
  ff_max_price :: string
  ff_providerId :: string
  ff_providerId_tips :: bool

record miner =
  mn_id :: string
  mn_status :: string
  mn_score :: int

record share_dialog =
  sd_shareDialog :: bool
  sd_shareFileShow :: bool
  sd_shareFileShowMobile :: bool
  sd_postAdress :: string
  sd_sendApi :: int
  sd_share_input :: string
  sd_online :: online_form
  sd_offline :: offline_form
  sd_activeOn :: string
  sd_tableData :: "miner list"
  sd_loading :: bool
  sd_loadSign :: bool
  sd_page :: int
  sd_total :: jsnum
  sd_parentLi :: string
  sd_parentName :: string
  sd_radio :: string
  sd_name :: string
  sd_nameOffline :: string
  sd_inputVisibleTask :: bool
  sd_inputValueTask :: string
  sd_finishTransaction :: bool
  sd_taskName :: string

datatype share_tag = DealReply | OfflineReply | MinersReply string | MoreReply string | QrTick | TagFocusTick

type_synonym share_cmd = "share_tag cmd"

definition online_init :: online_form where
  "online_init =
     \<lparr>of_minerId = [], of_price = [], of_duration = [], of_verified = ''2'', of_fastRetirval = ''1'', of_dealCID = []\<rparr>"

definition offline_init :: offline_form where
  "offline_init =
     \<lparr>ff_task_name = [], ff_desc = [], ff_tags = [], ff_curated_dataset = [], ff_type = ''regular'', ff_OpenBidType = 1,
      ff_bidDay = [], ff_min_price = [], ff_max_price = [], ff_providerId = [], ff_providerId_tips = False\<rparr>"

definition locationOptions :: "(string \<times> string) list" where
  "locationOptions =
     [(''1-0'', ''Global''), (''1-1'', ''Asia''), (''1-2'', ''Africa''), (''1-3'', ''North America''),
      (''1-4'', ''South America''), (''1-5'', ''Europe''), (''1-6'', ''Oceania'')]"

definition share_init :: "string \<Rightarrow> int \<Rightarrow> share_dialog" where
  "share_init postAdress sendApi =
     \<lparr>sd_shareDialog = False, sd_shareFileShow = False, sd_shareFileShowMobile = False, sd_postAdress = postAdress,
      sd_sendApi = sendApi, sd_share_input = [], sd_online = online_init, sd_offline = offline_init,
      sd_activeOn = ''online'', sd_tableData = [], sd_loading = False, sd_loadSign = False, sd_page = 0,
      sd_total = Fin 0, sd_parentLi = [], sd_parentName = [], sd_radio = ''1'', sd_name = ''Please select Provider ID'',
      sd_nameOffline = ''Please select Provider ID'', sd_inputVisibleTask = False, sd_inputValueTask = [],
      sd_finishTransaction = False, sd_taskName = []\<rparr>"

section \<open>Field sanitisers\<close>

text \<open>\<open>value.replace(/^\D*(\d*(?:\.\d{0,20})?).*$/g, '$1')\<close> on a line of text.\<close>

definition clean_price :: "string \<Rightarrow> string" where
  "clean_price v =
     (let r = dropWhile (\<lambda>c. \<not> is_digit c) v; ip = takeWhile is_digit r; rest = dropWhile is_digit r
      in ip @ (if rest \<noteq> [] \<and> hd rest = CHR ''.'' then ''.'' @ take 20 (takeWhile is_digit (tl rest)) else []))"

text \<open>\<open>value.replace(/^(0+)|[^\d]+/g, '')\<close>: leading zeros and everything that is not a digit go.\<close>

definition clean_duration :: "string \<Rightarrow> string" where
  "clean_duration v = filter is_digit (dropWhile (\<lambda>c. c = CHR ''0'') v)"

section \<open>Tags\<close>

text \<open>\<open>uniqueNew\<close>: the filter keeps a value the first time the map has not seen it.\<close>

fun unique_from :: "string set \<Rightarrow> string list \<Rightarrow> string list" where
  "unique_from res [] = []"
| "unique_from res (x # xs) = (if x \<in> res then unique_from res xs else x # unique_from (insert x res) xs)"

definition uniqueNew :: "string list \<Rightarrow> string list" where
  "uniqueNew arr = unique_from {} arr"

definition set_tags :: "string list \<Rightarrow> share_dialog \<Rightarrow> share_dialog" where
  "set_tags ts s = s\<lparr>sd_offline := (sd_offline s)\<lparr>ff_tags := ts\<rparr>\<rparr>"

definition handleTagsClose :: "string \<Rightarrow> share_dialog \<Rightarrow> share_dialog" where
  "handleTagsClose tag s =
     (let ts = ff_tags (sd_offline s) in set_tags (js_splice ts (array_indexOf ts tag) 1) s)"

definition showInputTask :: "share_dialog \<Rightarrow> share_dialog \<times> share_cmd list" where
  "showInputTask s =
     (if length (ff_tags (sd_offline s)) < 5 then (s\<lparr>sd_inputVisibleTask := True\<rparr>, [NextTick TagFocusTick]) else (s, []))"

definition handleInputConfirmTask :: "share_dialog \<Rightarrow> share_dialog" where
  "handleInputConfirmTask s =
     (let s1 = (if sd_inputValueTask s \<noteq> [] then set_tags (uniqueNew (ff_tags (sd_offline s) @ [sd_inputValueTask s])) s else s)
      in s1\<lparr>sd_inputVisibleTask := False, sd_inputValueTask := []\<rparr>)"

text \<open>Typing into the tag field, which exists while it is visible and takes fifteen characters.\<close>

definition type_tag :: "string \<Rightarrow> share_dialog \<Rightarrow> share_dialog" where
  "type_tag v s = (if sd_inputVisibleTask s then s\<lparr>sd_inputValueTask := take 15 v\<rparr> else s)"

section \<open>The deal forms\<close>

definition required :: "string \<Rightarrow> bool" where
  "required v \<longleftrightarrow> v \<noteq> []"

definition online_valid :: "online_form \<Rightarrow> bool" where
  "online_valid f \<longleftrightarrow> required (of_minerId f) \<and> required (of_price f) \<and> required (of_duration f)"

text \<open>\<open>String(duration*24*60*2)\<close>: days to epochs of thirty seconds.\<close>

definition epochs_text :: "string \<Rightarrow> string" where
  "epochs_text duration =
     num_str (num_mul (num_mul (num_mul (js_Number duration) (num_of_int 24)) (num_of_int 60)) (num_of_int 2))"

definition deal_body :: "online_form \<Rightarrow> json" where
  "deal_body f =
     JObj [(''VerifiedDeal'', JStr (if of_verified f = ''2'' then ''false'' else ''true'')),
           (''FastRetrieval'', JStr (if of_fastRetirval f = ''2'' then ''false'' else ''true'')),
           (''MinerId'', JStr (of_minerId f)), (''Price'', JStr (of_price f)),
           (''Duration'', JStr (epochs_text (of_duration f)))]"

definition share_submitForm :: "string \<Rightarrow> string \<Rightarrow> share_dialog \<Rightarrow> share_dialog \<times> share_cmd list" where
  "share_submitForm api token s =
     (if online_valid (sd_online s)
      then (s, [Request DealReply
             (axios_post (api @ (if sd_sendApi s = 1 then ''/minio/deals/'' else ''/minio/deal/'') @ sd_postAdress s)
                (deal_body (sd_online s)) token)])
      else (s, []))"

fun deal_reply :: "string rest_reply \<Rightarrow> share_dialog \<Rightarrow> share_dialog \<times> share_cmd list" where
  "deal_reply (RestSuccess dealCid) s =
     (s\<lparr>sd_online := (sd_online s)\<lparr>of_dealCID := dealCid\<rparr>\<rparr>, [Toast ToastSuccess ''Transaction has been successfully sent.''])"
| "deal_reply (RestRefused m) s = (s, [Toast ToastError m])"
| "deal_reply (RestFailure c) s = (s, [])"

definition offline_common :: "offline_form \<Rightarrow> (string \<times> json) list" where
  "offline_common f =
     [(''Task_Name'', JStr (ff_task_name f)), (''Curated_Dataset'', JStr (ff_curated_dataset f)),
      (''Description'', JStr (ff_desc f)), (''Is_Public'', JStr (int_str (ff_OpenBidType f))),
      (''Type'', JStr (ff_type f)), (''Tags'', JStr (join '','' (ff_tags f)))]"

definition offline_request :: "string \<Rightarrow> string \<Rightarrow> share_dialog \<Rightarrow> (string \<times> json) list \<Rightarrow> share_cmd" where
  "offline_request api token s extra =
     Request OfflineReply (axios_post (api @ ''/minio/offlinedeals/'' @ sd_postAdress s)
       (JObj (offline_common (sd_offline s) @ extra)) token)"

definition set_tips :: "bool \<Rightarrow> share_dialog \<Rightarrow> share_dialog" where
  "set_tips b s = s\<lparr>sd_offline := (sd_offline s)\<lparr>ff_providerId_tips := b\<rparr>\<rparr>"

definition submitofflineForm :: "string \<Rightarrow> string \<Rightarrow> share_dialog \<Rightarrow> share_dialog \<times> share_cmd list" where
  "submitofflineForm api token s =
     (let f = sd_offline s
      in if \<not> required (ff_task_name f) then (s, [])
         else if ff_OpenBidType f = 1
         then (s, [offline_request api token s
                [(''Expire_Days'', JStr (ff_bidDay f)), (''Max_Price'', JStr (ff_max_price f)), (''Min_Price'', JStr (ff_min_price f))]])
         else if ff_providerId f = [] then (set_tips True s, [])
         else (set_tips False s, [offline_request api token s [(''Miner_Id'', JStr (ff_providerId f))]]))"

fun offline_reply :: "string rest_reply \<Rightarrow> share_dialog \<Rightarrow> share_dialog \<times> share_cmd list" where
  "offline_reply (RestSuccess taskname) s = (s\<lparr>sd_taskName := taskname, sd_finishTransaction := True\<rparr>, [])"
| "offline_reply (RestRefused m) s = (s, [Toast ToastError m])"
| "offline_reply (RestFailure c) s = (s, [])"

text \<open>
  Changing the tab resets the online form through its reference, which exists only when that form is on
  the page.
\<close>

definition handleClick :: "bool \<Rightarrow> string \<Rightarrow> share_dialog \<Rightarrow> (share_dialog, share_cmd) outcome" where
  "handleClick form_rendered tab s =
     (let s1 = s\<lparr>sd_activeOn := tab\<rparr>
      in if form_rendered
         then Done (s1\<lparr>sd_online := online_init\<lparr>of_dealCID := of_dealCID (sd_online s)\<rparr>\<rparr>) []
         else Throws TypeError s1 [])"

section \<open>Providers\<close>

definition miners_url :: "string \<Rightarrow> string \<Rightarrow> int \<Rightarrow> string" where
  "miners_url base location offset =
     base @ ''miners?location='' @ location @ ''&status=&sort_by=score&order=ascending&limit=20&offset='' @ int_str offset"

definition open_location :: "string \<Rightarrow> string \<Rightarrow> string \<Rightarrow> share_dialog \<Rightarrow> share_dialog \<times> share_cmd list" where
  "open_location base li location s =
     (s\<lparr>sd_tableData := [], sd_loading := True, sd_page := 0, sd_total := Fin 1, sd_parentLi := li, sd_parentName := location\<rparr>,
      [Request (MinersReply location) (axios_get (miners_url base location 0) None)])"

definition handleOpenSubmenu :: "string \<Rightarrow> string \<Rightarrow> share_dialog \<Rightarrow> share_dialog \<times> share_cmd list" where
  "handleOpenSubmenu base key s = open_location base key key s"

definition handleOpen :: "string \<Rightarrow> string \<Rightarrow> share_dialog \<Rightarrow> share_dialog \<times> share_cmd list" where
  "handleOpen base key s =
     (if 0 \<le> js_indexOf key ''-''
      then open_location base key (case map_of locationOptions key of Some v \<Rightarrow> v | None \<Rightarrow> sd_parentName s) s
      else (s, []))"

text \<open>The first page: the miners and how many there are.\<close>

definition miners_reply :: "(int option + (miner list \<times> int)) \<Rightarrow> share_dialog \<Rightarrow> share_dialog" where
  "miners_reply r s =
     (case r of
        Inl c \<Rightarrow> s\<lparr>sd_loading := False\<rparr>
      | Inr (ms, total_items) \<Rightarrow>
          (let s1 = s\<lparr>sd_tableData := ms, sd_loading := False, sd_loadSign := True\<rparr>
           in if total_items > 20 then s1\<lparr>sd_total := num_div (num_of_int total_items) (num_of_int 20)\<rparr> else s1))"

definition loadMore :: "string \<Rightarrow> share_dialog \<Rightarrow> share_dialog \<times> share_cmd list" where
  "loadMore base s =
     (if sd_loadSign s then
        (let s1 = s\<lparr>sd_loadSign := False, sd_page := sd_page s + 1\<rparr>
         in if num_le (sd_total s1) (num_of_int (sd_page s1)) then (s1, [])
            else (s1\<lparr>sd_loading := True\<rparr>,
                  [Request (MoreReply (sd_parentName s1))
                     (axios_get (miners_url base (sd_parentName s1) (sd_page s1 * 20)) None)]))
      else (s, []))"

definition more_reply :: "(int option + miner list) \<Rightarrow> share_dialog \<Rightarrow> share_dialog" where
  "more_reply r s =
     (case r of
        Inl c \<Rightarrow> s\<lparr>sd_loading := False\<rparr>
      | Inr ms \<Rightarrow> s\<lparr>sd_tableData := sd_tableData s @ ms, sd_loading := False, sd_loadSign := True\<rparr>)"

text \<open>A row of the table becomes current; \<open>None\<close> when the current row is cleared.\<close>

definition handleCurrentChange :: "miner option \<Rightarrow> share_dialog \<Rightarrow> share_dialog" where
  "handleCurrentChange val s =
     (case val of
        None \<Rightarrow> s
      | Some m \<Rightarrow>
          if mn_id m = [] then s
          else if sd_activeOn s = ''online''
          then s\<lparr>sd_online := (sd_online s)\<lparr>of_minerId := mn_id m\<rparr>, sd_name := mn_id m\<rparr>
          else s\<lparr>sd_offline := (sd_offline s)\<lparr>ff_providerId := mn_id m\<rparr>, sd_nameOffline := mn_id m\<rparr>)"

definition cellClick :: "int \<Rightarrow> share_dialog \<Rightarrow> share_dialog" where
  "cellClick index s = s\<lparr>sd_radio := sd_parentLi s @ ''-'' @ int_str index\<rparr>"

section \<open>The dialog itself\<close>

definition watch_shareDialog :: "bool \<Rightarrow> share_dialog \<Rightarrow> share_dialog \<times> share_cmd list" where
  "watch_shareDialog v s = (s\<lparr>sd_shareDialog := v\<rparr>, if v then [] else [Emit ''reload'' []])"

definition watch_share_input :: "string \<Rightarrow> share_dialog \<Rightarrow> share_dialog \<times> share_cmd list" where
  "watch_share_input v s = (s\<lparr>sd_share_input := v\<rparr>, [NextTick QrTick])"

definition creatQrCode :: "share_dialog \<Rightarrow> share_cmd list" where
  "creatQrCode s = [DomCall ''clear qrcode'', DomCall (''qrcode '' @ sd_share_input s)]"

definition shareFileShowFun :: "share_dialog \<Rightarrow> share_dialog" where
  "shareFileShowFun s =
     s\<lparr>sd_shareFileShow := \<not> sd_shareFileShow s, sd_shareFileShowMobile := \<not> sd_shareFileShowMobile s\<rparr>"

definition share_getDiglogChange :: "share_cmd list" where
  "share_getDiglogChange = [Emit ''getshareDialog'' [JBool False]]"

definition share_handleChange :: "share_cmd list" where
  "share_handleChange = [Emit ''getShareGet'' []]"

text \<open>
  The three number fields write into the parent's object, within the limits of the template.
\<close>

definition clamp :: "int \<Rightarrow> int \<Rightarrow> int \<Rightarrow> int" where
  "clamp lo hi v = max lo (min hi v)"

definition set_expiry :: "int \<Rightarrow> int \<Rightarrow> int \<Rightarrow> browser_view \<Rightarrow> browser_view" where
  "set_expiry day hours minutes s =
     s\<lparr>bv_num_Day := clamp 1 7 day, bv_num_Hours := clamp 0 23 hours, bv_num_Minutes := clamp 0 59 minutes\<rparr>"

section \<open>The retrieval dialog\<close>

record retrieval =
  rt_exChangeList :: "shown_deal option list"

datatype retrieval_tag = BucketRetrieveReply

definition retrieval_getData :: "string \<Rightarrow> string \<Rightarrow> string \<Rightarrow> retrieval \<Rightarrow> retrieval \<times> retrieval_tag cmd list" where
  "retrieval_getData api token currentBucket s =
     (s\<lparr>rt_exChangeList := []\<rparr>,
      [Request BucketRetrieveReply (axios_get (api @ ''/minio/bucket/retrieve/'' @ currentBucket) (Some token))])"

definition watch_retrievalDialog :: "bool \<Rightarrow> string \<Rightarrow> string \<Rightarrow> string \<Rightarrow> retrieval \<Rightarrow> retrieval \<times> retrieval_tag cmd list" where
  "watch_retrievalDialog v api token currentBucket s =
     (if v then retrieval_getData api token currentBucket s else (s, []))"

definition retrieval_getDiglogChange :: "retrieval_tag cmd list" where
  "retrieval_getDiglogChange = [Emit ''getretrievalDialog'' [JBool False]]"

fun bucket_retrieve_reply :: "(jsnum \<Rightarrow> string) \<Rightarrow> raw_deal option list rest_reply \<Rightarrow> retrieval \<Rightarrow> retrieval \<times> retrieval_tag cmd list" where
  "bucket_retrieve_reply moment_ms (RestSuccess deals) s = (s\<lparr>rt_exChangeList := map (map_option (show_deal moment_ms)) deals\<rparr>, [])"
| "bucket_retrieve_reply moment_ms (RestRefused m) s = (s, [Toast ToastError m])"
| "bucket_retrieve_reply moment_ms (RestFailure c) s = (s, [])"

definition retrieval_copyLink :: "string \<Rightarrow> bool option \<Rightarrow> retrieval_tag cmd list" where
  "retrieval_copyLink txt successful =
     [DomCall (''append textarea '' @ txt), DomCall ''select''] @
     (if successful = Some True then [Toast ToastSuccess ''Link copied to clipboard!''] else []) @
     [DomCall ''remove textarea'']"

definition share_copyLink :: "string \<Rightarrow> bool option \<Rightarrow> share_cmd list" where
  "share_copyLink txt successful =
     [DomCall (''append textarea '' @ txt), DomCall ''select''] @
     (if successful = Some True then [Toast ToastSuccess ''Link copied to clipboard!''] else []) @
     [DomCall ''remove textarea'']"

section \<open>The expiry of a link\<close>

text \<open>Between one day and almost eight, although the label says seven at most.\<close>

lemma clamp_range: "lo \<le> hi \<Longrightarrow> lo \<le> clamp lo hi v \<and> clamp lo hi v \<le> hi"
  by (simp add: clamp_def)

lemma expiry_limits: "86400 \<le> expiry (set_expiry d h m s) \<and> expiry (set_expiry d h m s) \<le> 691140"
  using clamp_range [of 1 7 d] clamp_range [of 0 23 h] clamp_range [of 0 59 m]
  by (simp add: expiry_def set_expiry_def)

lemma expiry_over_seven_days: "expiry (set_expiry 7 23 59 s) = 691140"
  by (simp add: expiry_def set_expiry_def clamp_def)

section \<open>Tags: the invariant\<close>

lemma set_unique_from: "set (unique_from res xs) = set xs - res"
  by (induction xs arbitrary: res) auto

lemma distinct_unique_from: "distinct (unique_from res xs)"
  by (induction xs arbitrary: res) (auto simp: set_unique_from)

lemma length_unique_from: "length (unique_from res xs) \<le> length xs"
  by (induction xs arbitrary: res) (auto simp: le_SucI)

lemma unique_from_append:
  "unique_from res (xs @ ys) = unique_from res xs @ unique_from (res \<union> set xs) ys"
  by (induction xs arbitrary: res) (auto simp: insert_absorb Un_insert_right)

lemma uniqueNew_distinct: "distinct xs \<Longrightarrow> uniqueNew xs = xs"
proof -
  have "distinct xs \<Longrightarrow> res \<inter> set xs = {} \<Longrightarrow> unique_from res xs = xs" for res :: "string set"
    by (induction xs arbitrary: res) auto
  then show "distinct xs \<Longrightarrow> uniqueNew xs = xs" by (simp add: uniqueNew_def)
qed

lemma uniqueNew_snoc:
  assumes "distinct xs"
  shows "uniqueNew (xs @ [x]) = (if x \<in> set xs then xs else xs @ [x])"
  using uniqueNew_distinct [OF assms] by (simp add: uniqueNew_def unique_from_append)

definition tags_wf :: "share_dialog \<Rightarrow> bool" where
  "tags_wf s \<longleftrightarrow>
     distinct (ff_tags (sd_offline s)) \<and>
     length (ff_tags (sd_offline s)) \<le> (if sd_inputVisibleTask s then 4 else 5) \<and>
     list_all (\<lambda>t. t \<noteq> [] \<and> length t \<le> 15) (ff_tags (sd_offline s)) \<and>
     length (sd_inputValueTask s) \<le> (if sd_inputVisibleTask s then 15 else 0)"

text \<open>
  What a user can do to the tags: the button that opens the field exists while the field does not, a
  tag is closed by its own cross, and leaving the field or pressing return in it confirms it.
\<close>

inductive tag_step :: "share_dialog \<Rightarrow> share_dialog \<Rightarrow> bool" where
  press_new: "\<not> sd_inputVisibleTask s \<Longrightarrow> tag_step s (fst (showInputTask s))"
| typing: "tag_step s (type_tag v s)"
| confirm: "tag_step s (handleInputConfirmTask s)"
| close: "tag \<in> set (ff_tags (sd_offline s)) \<Longrightarrow> tag_step s (handleTagsClose tag s)"

inductive_cases tag_step_elims: "tag_step s s'"

lemma tags_wf_show: "tags_wf s \<Longrightarrow> \<not> sd_inputVisibleTask s \<Longrightarrow> tags_wf (fst (showInputTask s))"
  by (auto simp: tags_wf_def showInputTask_def)

lemma tags_wf_type: "tags_wf s \<Longrightarrow> tags_wf (type_tag v s)"
  by (auto simp: tags_wf_def type_tag_def)

lemma tags_wf_confirm: "tags_wf s \<Longrightarrow> tags_wf (handleInputConfirmTask s)"
  by (auto simp: tags_wf_def handleInputConfirmTask_def Let_def set_tags_def uniqueNew_snoc split: if_splits)

lemma tags_wf_close:
  assumes "tags_wf s"
  shows "tags_wf (handleTagsClose tag s)"
proof -
  let ?ts = "ff_tags (sd_offline s)"
  let ?us = "js_splice ?ts (array_indexOf ?ts tag) 1"
  have "length ?us \<le> length ?ts" by (rule length_js_splice_le)
  moreover have "distinct ?us" using assms by (intro distinct_js_splice) (simp add: tags_wf_def)
  moreover have "list_all (\<lambda>t. t \<noteq> [] \<and> length t \<le> 15) ?us"
    using assms set_js_splice [of ?ts "array_indexOf ?ts tag" 1] by (auto simp: tags_wf_def list_all_iff)
  ultimately show ?thesis
    using assms unfolding tags_wf_def handleTagsClose_def Let_def set_tags_def by simp
qed

lemma tags_wf_step: "tag_step s s' \<Longrightarrow> tags_wf s \<Longrightarrow> tags_wf s'"
  by (erule tag_step_elims) (simp_all add: tags_wf_show tags_wf_type tags_wf_confirm tags_wf_close)

lemma tags_wf_init: "tags_wf (share_init a i)"
  by (simp add: tags_wf_def share_init_def offline_init_def)

text \<open>
  However tags are added, typed, confirmed and closed from the initial dialog, they stay distinct,
  at most five, non-empty and at most fifteen characters long, and while the field for a new tag is open
  there is room for it.
\<close>

theorem tags_invariant:
  assumes "tag_step\<^sup>*\<^sup>* (share_init address api) s"
  shows "tags_wf s"
  using assms by (induction rule: rtranclp_induct) (simp_all add: tags_wf_init tags_wf_step)

theorem tags_invariant_witness:
  "tags_wf (handleInputConfirmTask (type_tag ''photos'' (fst (showInputTask (share_init ''b/o'' 1)))))"
proof (rule tags_invariant [of "''b/o''" 1])
  let ?a = "share_init ''b/o'' 1"
  have "tag_step ?a (fst (showInputTask ?a))" by (rule press_new) (simp add: share_init_def)
  also have "tag_step\<^sup>*\<^sup>* (fst (showInputTask ?a)) (handleInputConfirmTask (type_tag ''photos'' (fst (showInputTask ?a))))"
    by (rule converse_rtranclp_into_rtranclp, rule typing, rule r_into_rtranclp, rule confirm)
  finally show "tag_step\<^sup>*\<^sup>* ?a (handleInputConfirmTask (type_tag ''photos'' (fst (showInputTask ?a))))" .
qed

section \<open>Paging through the providers\<close>

text \<open>
  The provider service is not part of the repository: \<open>server\<close> answers a request with a list of miners.
  What the code relies on is that the page at an offset holds the next twenty miners of the location.
\<close>

definition serves :: "(http_request \<Rightarrow> miner list) \<Rightarrow> string \<Rightarrow> string \<Rightarrow> miner list \<Rightarrow> bool" where
  "serves server base location ms \<longleftrightarrow>
     (\<forall>k. server (axios_get (miners_url base location (int (20 * k))) None) = take 20 (drop (20 * k) ms))"

text \<open>Opening a location and getting its answer; scrolling to the bottom and getting its answer.\<close>

definition opened :: "(http_request \<Rightarrow> miner list) \<Rightarrow> string \<Rightarrow> string \<Rightarrow> int \<Rightarrow> share_dialog \<Rightarrow> share_dialog" where
  "opened server base location total_items s =
     (let (s1, cs) = handleOpenSubmenu base location s
      in case requests cs of [] \<Rightarrow> s1 | (t, q) # _ \<Rightarrow> miners_reply (Inr (server q, total_items)) s1)"

definition scrolled :: "(http_request \<Rightarrow> miner list) \<Rightarrow> string \<Rightarrow> share_dialog \<Rightarrow> share_dialog" where
  "scrolled server base s =
     (let (s1, cs) = loadMore base s
      in case requests cs of [] \<Rightarrow> s1 | (t, q) # _ \<Rightarrow> more_reply (Inr (server q)) s1)"

definition paging :: "share_dialog \<Rightarrow> string \<Rightarrow> miner list \<Rightarrow> nat \<Rightarrow> bool" where
  "paging s location ms n \<longleftrightarrow>
     sd_parentName s = location \<and> sd_tableData s = take (20 * (n + 1)) ms \<and>
     (\<exists>r. sd_total s = Fin r \<and> (\<forall>p \<ge> 1. r \<le> of_int p \<longleftrightarrow> int (length ms) \<le> p * 20)) \<and>
     (if sd_loadSign s then sd_page s = int n \<and> (n = 0 \<or> 20 * n < length ms) else length ms \<le> 20 * n)"

lemma total_pages:
  assumes "20 < n" "n < 2 ^ 53"
  shows "\<exists>r. num_div (num_of_int n) (num_of_int 20) = Fin r \<and> (\<forall>p. r \<le> of_int p \<longleftrightarrow> n \<le> p * 20)"
proof -
  obtain r where r: "rnd64 (of_int n / of_int 20) = Fin r"
    using rnd64_div_le_iff [of n 20 0] assms by auto
  have "r \<le> of_int p \<longleftrightarrow> n \<le> p * 20" for p
    using rnd64_div_le_iff [of n 20 p] assms r by auto
  moreover have "num_div (num_of_int n) (num_of_int 20) = Fin r"
    using r assms by (simp add: num_of_int_small)
  ultimately show ?thesis by blast
qed

lemma paging_opened:
  assumes "serves server base location ms" "int (length ms) < 2 ^ 53"
  shows "paging (opened server base location (int (length ms)) s) location ms 0"
proof -
  have "server (axios_get (miners_url base location 0) None) = take 20 ms"
    using assms(1) [unfolded serves_def, rule_format, of 0] by simp
  then have o: "opened server base location (int (length ms)) s =
      miners_reply (Inr (take 20 ms, int (length ms))) (fst (handleOpenSubmenu base location s))"
    by (simp add: opened_def handleOpenSubmenu_def open_location_def)
  show ?thesis
  proof (cases "20 < int (length ms)")
    case True
    with total_pages [OF True assms(2)] show ?thesis
      by (auto simp: o paging_def miners_reply_def handleOpenSubmenu_def open_location_def Let_def)
  next
    case False
    then show ?thesis
      by (auto simp: o paging_def miners_reply_def handleOpenSubmenu_def open_location_def Let_def)
  qed
qed

lemma paging_scrolled:
  assumes "serves server base location ms" "int (length ms) < 2 ^ 53" "paging s location ms n"
  shows "paging (scrolled server base s) location ms (Suc n)"
proof (cases "sd_loadSign s")
  case False
  with assms(3) have "length ms \<le> 20 * n" by (simp add: paging_def)
  with False assms(3) show ?thesis by (simp add: paging_def scrolled_def loadMore_def)
next
  case True
  with assms(3) obtain r where s: "sd_parentName s = location" "sd_tableData s = take (20 * (n + 1)) ms"
      "sd_total s = Fin r" "\<And>p. 1 \<le> p \<Longrightarrow> r \<le> of_int p \<longleftrightarrow> int (length ms) \<le> p * 20"
      "sd_page s = int n" "n = 0 \<or> 20 * n < length ms"
    by (auto simp: paging_def)
  have "\<bar>int n + 1\<bar> < 2 ^ 53" using s(6) assms(2) by auto
  then have p: "num_of_int (int n + 1) = Fin (of_int (int n + 1))" by (rule num_of_int_small)
  have stop: "num_le (sd_total s) (num_of_int (int n + 1)) \<longleftrightarrow> length ms \<le> 20 * Suc n"
  proof -
    have "r \<le> of_int (int n + 1) \<longleftrightarrow> int (length ms) \<le> (int n + 1) * 20" using s(4) [of "int n + 1"] by linarith
    also have "\<dots> \<longleftrightarrow> length ms \<le> 20 * Suc n" by presburger
    finally show ?thesis unfolding p s(3) num_le_Fin .
  qed
  have "server (axios_get (miners_url base location (int (20 * Suc n))) None) = take 20 (drop (20 * Suc n) ms)"
    using assms(1) unfolding serves_def by blast
  then have page: "server (axios_get (miners_url base location ((int n + 1) * 20)) None) = take 20 (drop (20 * Suc n) ms)"
    by (simp add: algebra_simps)
  have app: "take (20 * (n + 1)) ms @ take 20 (drop (20 * Suc n) ms) = take (20 * (Suc n + 1)) ms"
    using take_add [of "20 * Suc n" 20 ms] by (simp add: algebra_simps)
  show ?thesis
  proof (cases "length ms \<le> 20 * Suc n")
    case end_reached: True
    with True stop s show ?thesis
      by (auto simp: paging_def scrolled_def loadMore_def Let_def)
  next
    case more: False
    with True stop s page app show ?thesis
      by (auto simp: paging_def scrolled_def loadMore_def Let_def more_reply_def)
  qed
qed

lemma paging_scrolls:
  assumes "serves server base location ms" "int (length ms) < 2 ^ 53"
  shows "paging ((scrolled server base ^^ n) (opened server base location (int (length ms)) s)) location ms n"
proof (induction n)
  case 0
  then show ?case using paging_opened [OF assms] by simp
next
  case (Suc n)
  then show ?case using paging_scrolled [OF assms] by simp
qed

text \<open>
  C19: The provider table pages through a location completely and without repetition: after the location
  is opened and \<open>n\<close> scrolls to the bottom were answered, the table holds exactly the first
  \<open>20 (n + 1)\<close> miners of the location, for fewer than \<open>2^53\<close> miners and although the number of pages
  is a rounded double.
\<close>

theorem provider_paging_complete:
  assumes "serves server base location ms" "int (length ms) < 2 ^ 53"
  shows "sd_tableData ((scrolled server base ^^ n) (opened server base location (int (length ms)) s))
       = take (20 * (n + 1)) ms"
  using paging_scrolls [OF assms] unfolding paging_def by blast

text \<open>A service that reads the offset from the address it is asked.\<close>

definition offset_server :: "miner list \<Rightarrow> http_request \<Rightarrow> miner list" where
  "offset_server ms q = take 20 (drop (nat (digits_val (last (split_on CHR ''='' (req_url q))))) ms)"

lemma split_on_append: "split_on c (x @ c # y) = split_on c x @ split_on c y"
  by (induction x) (auto split: list.splits simp: Cons_eq_append_conv)

lemma last_split_on: "c \<notin> set d \<Longrightarrow> last (split_on c (x @ c # d)) = d"
  by (simp add: split_on_append split_on_no_sep)

lemma no_equals_digit: "\<not> is_digit CHR ''=''"
  by (simp add: is_digit_def)

lemma miners_url_offset: "last (split_on CHR ''='' (miners_url base location (int n))) = dec_str (int n)"
proof -
  have "CHR ''='' \<notin> set (dec_str (int n))"
    using dec_str_digits [of "int n", OF of_nat_0_le_iff] no_equals_digit unfolding all_digits_def by blast
  then have "last (split_on CHR ''='' ((base @ ''miners?location='' @ location @ ''&status=&sort_by=score&order=ascending&limit=20&offset'')
      @ CHR ''='' # dec_str (int n))) = dec_str (int n)"
    by (rule last_split_on)
  then show ?thesis by (simp add: miners_url_def int_str_def)
qed

lemma serves_offset_server: "serves (offset_server ms) base location ms"
  unfolding serves_def offset_server_def axios_get_def
  by (simp only: http_request.simps miners_url_offset digits_val_dec_str of_nat_0_le_iff nat_int simp_thms)

theorem provider_paging_complete_witness:
  "sd_tableData ((scrolled (offset_server (replicate 45 \<lparr>mn_id = ''f0'', mn_status = [], mn_score = 1\<rparr>)) ''/'' ^^ 1)
     (opened (offset_server (replicate 45 \<lparr>mn_id = ''f0'', mn_status = [], mn_score = 1\<rparr>)) ''/'' ''Asia''
        (int (length (replicate 45 \<lparr>mn_id = ''f0'', mn_status = [], mn_score = 1\<rparr>))) (share_init [] 1)))
   = take (20 * (1 + 1)) (replicate 45 \<lparr>mn_id = ''f0'', mn_status = [], mn_score = 1\<rparr>)"
  by (rule provider_paging_complete) (simp_all add: serves_offset_server)

text \<open>
  The page counter is advanced by a scroll that happens while a newly opened location is still
  loading, because the flag of the location before it is still set: the scroll asks for nothing, and the
  next one asks for the third page, so that the second is never shown.
\<close>

theorem provider_page_skipped:
  assumes "sd_loadSign s" "40 < n" "n < 2 ^ 53"
  shows "let s1 = fst (handleOpenSubmenu base location s); s2 = miners_reply (Inr (ms, n)) (fst (loadMore base s1))
         in snd (loadMore base s1) = [] \<and>
            snd (loadMore base s2) = [Request (MoreReply location) (axios_get (miners_url base location 40) None)]"
proof -
  obtain r where r: "num_div (num_of_int n) (num_of_int 20) = Fin r" "\<And>p. r \<le> of_int p \<longleftrightarrow> n \<le> p * 20"
    using total_pages [of n] assms by auto
  from r(2) [of 2] assms have "\<not> r \<le> 2" by simp
  with r(1) assms show ?thesis
    by (simp add: handleOpenSubmenu_def open_location_def loadMore_def miners_reply_def Let_def)
qed

theorem provider_page_skipped_witness:
  "let s = (share_init [] 1)\<lparr>sd_loadSign := True\<rparr>;
       s1 = fst (handleOpenSubmenu ''/'' ''Asia'' s); s2 = miners_reply (Inr ([], 60)) (fst (loadMore ''/'' s1))
   in snd (loadMore ''/'' s1) = [] \<and>
      snd (loadMore ''/'' s2) = [Request (MoreReply ''Asia'') (axios_get (miners_url ''/'' ''Asia'' 40) None)]"
  unfolding Let_def by (rule provider_page_skipped [unfolded Let_def]) simp_all

end
