(* ===== verification/Account_Common.thy ===== *)
theory Account_Common
  imports Share_Dialog View_Helpers
begin

text \<open>
  What the account pages (\<open>views/myAccount\<close>) share, because each of them carries its own copy of it:
  the pager and the offset it asks for, the columns that show a time, a duration or a price, the
  answer of the server's paging handlers, and sorting by \<open>ID\<close>. The formatting of a time by \<open>moment\<close>
  is the parameter \<open>moment_ms\<close>, a function of the milliseconds.
\<close>

section \<open>The pager\<close>

record pager =
  pg_limit :: int
  pg_offset :: int
  pg_total :: int

definition pager_init :: pager where
  "pager_init = \<lparr>pg_limit = 10, pg_offset = 1, pg_total = 0\<rparr>"

text \<open>The current page counts from one, the page asked for from zero.\<close>

definition page_offset :: "pager \<Rightarrow> int" where
  "page_offset p = (if pg_offset p > 0 then pg_offset p - 1 else pg_offset p)"

definition page_params :: "pager \<Rightarrow> (string \<times> json) list" where
  "page_params p = [(''Offset'', JInt (page_offset p)), (''Limit'', JInt (pg_limit p))]"

text \<open>
  The rows the three paging handlers of the server answer with (\<open>cmd/web-handlers.go\<close>): the offset
  counts pages, a limit of zero is ten, and the rows come in the order of their ids.
\<close>

definition server_page :: "'a list \<Rightarrow> int \<Rightarrow> int \<Rightarrow> 'a list" where
  "server_page rows offset limit =
     (let l = (if limit = 0 then 10 else limit) in take (nat l) (drop (nat (offset * l)) rows))"

lemma server_page_number:
  "server_page rows (page_offset \<lparr>pg_limit = 10, pg_offset = int p + 1, pg_total = t\<rparr>) 10 = take 10 (drop (10 * p) rows)"
proof -
  have "nat (int p * 10) = 10 * p" by simp
  then show ?thesis by (simp add: server_page_def page_offset_def)
qed

text \<open>The pages put together are the rows.\<close>

lemma pages_concat: "concat (map (\<lambda>p. take 10 (drop (10 * p) rows)) [0..<n]) = take (10 * n) rows"
proof (induction n)
  case (Suc n)
  then show ?case using take_add [of "10 * n" 10 rows] by (simp add: add.commute)
qed simp

section \<open>Answers\<close>

text \<open>The three shapes of a REST answer, as a promise chain sees them.\<close>

fun rest_answer :: "'a rest_reply \<Rightarrow> int option + (string + 'a)" where
  "rest_answer (RestSuccess a) = Inr (Inr a)"
| "rest_answer (RestRefused m) = Inr (Inl m)"
| "rest_answer (RestFailure c) = Inl c"

section \<open>Columns\<close>

text \<open>\<open>v ? moment(new Date(parseInt(v / 1000))).format(...) : '-'\<close> on the text of a number of microseconds.\<close>

definition micros_ms :: "string \<Rightarrow> jsnum" where
  "micros_ms v = js_parseInt_num (num_div (js_Number v) (num_of_int 1000))"

definition stamp :: "(jsnum \<Rightarrow> string) \<Rightarrow> string \<Rightarrow> string" where
  "stamp moment_ms v = (if v = [] then ''-'' else moment_ms (micros_ms v))"

text \<open>\<open>{{Duration/24/60/2}}\<close>: epochs of thirty seconds, shown as days.\<close>

definition duration_days :: "string \<Rightarrow> string" where
  "duration_days v = num_str (num_div (num_div (num_div (js_Number v) (num_of_int 24)) (num_of_int 60)) (num_of_int 2))"

text \<open>The due date of a job: thirty seconds an epoch after a fixed moment of August 2020.\<close>

definition due_ms :: "string \<Rightarrow> jsnum" where
  "due_ms v = js_parseInt_num (num_mul (num_add (num_mul (js_parseInt v) (num_of_int 30)) (js_parseInt_num (num_of_int 1598306471)))
                 (num_of_int 1000))"

definition due_time :: "(jsnum \<Rightarrow> string) \<Rightarrow> string \<Rightarrow> string" where
  "due_time moment_ms v = (if v = [] then ''-'' else moment_ms (due_ms v))"

text \<open>
  \<open>v.replace(/(0+)\b/gi, '')\<close>: a run of zeros goes when the character after it is not part of a word.
\<close>

definition word_char :: "char \<Rightarrow> bool" where
  "word_char c \<longleftrightarrow> is_digit c \<or> c = CHR ''_'' \<or> (65 \<le> (of_char c :: int) \<and> of_char c \<le> (90 :: int))
     \<or> (97 \<le> (of_char c :: int) \<and> of_char c \<le> (122 :: int))"

function drop_zero_runs :: "string \<Rightarrow> string" where
  "drop_zero_runs [] = []"
| "drop_zero_runs (c # s) =
     (if c = CHR ''0'' then
        (let z = takeWhile (\<lambda>x. x = CHR ''0'') s; r = dropWhile (\<lambda>x. x = CHR ''0'') s
         in (if r = [] \<or> \<not> word_char (hd r) then [] else c # z) @ drop_zero_runs r)
      else c # drop_zero_runs s)"
  by pat_completeness auto
termination
  by (relation "measure length") (auto simp: le_imp_less_Suc length_dropWhile_le)

text \<open>\<open>NumFormatPrice\<close>: attoFIL to FIL; \<open>None\<close> is a missing value.\<close>

definition NumFormatPrice :: "string option \<Rightarrow> string" where
  "NumFormatPrice value =
     (case value of
        None \<Rightarrow> ''-''
      | Some v \<Rightarrow>
          if num_eq (js_Number v) (Fin 0) then ''0''
          else if length v > 18 then
            (let v1 = js_substring v 0 (int (length v) - 18);
                 v2 = js_substring v (int (length v) - 18) (int (length v));
                 v3 = drop_zero_runs v2
             in if v3 \<noteq> [] then v1 @ ''.'' @ v3 else v1)
          else ''0.'' @ drop_zero_runs (replicate (18 - length v) CHR ''0'' @ v))"

section \<open>Prices\<close>

lemma drop_zero_runs_digits:
  "all_digits s \<Longrightarrow> \<exists>z. s = drop_zero_runs s @ replicate z CHR ''0'' \<and>
     (drop_zero_runs s = [] \<or> last (drop_zero_runs s) \<noteq> CHR ''0'')"
proof (induction s rule: drop_zero_runs.induct)
  case (2 c s)
  show ?case
  proof (cases "c = CHR ''0''")
    case False
    with 2 obtain z where "s = drop_zero_runs s @ replicate z CHR ''0''"
        "drop_zero_runs s = [] \<or> last (drop_zero_runs s) \<noteq> CHR ''0''" by auto
    with False show ?thesis by (intro exI [of _ z]) auto
  next
    case True
    let ?z = "takeWhile (\<lambda>x. x = CHR ''0'') s" and ?r = "dropWhile (\<lambda>x. x = CHR ''0'') s"
    have zs: "?z = replicate (length ?z) CHR ''0''" by (rule replicate_length_same [symmetric]) (auto dest: set_takeWhileD)
    have s: "s = ?z @ ?r" by simp
    show ?thesis
    proof (cases "?r = []")
      case r: True
      then have "s = replicate (length ?z) CHR ''0''" using s zs by (metis append_Nil2)
      moreover have "drop_zero_runs (c # s) = []" using True r by (simp add: Let_def del: dropWhile_eq_Nil_conv)
      ultimately show ?thesis using True by (intro exI [of _ "Suc (length ?z)"]) (simp only: append_Nil replicate_Suc simp_thms)
    next
      case False
      have "all_digits ?r" using "2.prems" by (auto simp: all_digits_def dest: set_dropWhileD)
      moreover from this False have "word_char (hd ?r)" by (auto simp: all_digits_def word_char_def)
      ultimately obtain z where z: "?r = drop_zero_runs ?r @ replicate z CHR ''0''"
          "drop_zero_runs ?r = [] \<or> last (drop_zero_runs ?r) \<noteq> CHR ''0''"
        using "2.IH"(1) [OF True refl refl] by blast
      have "drop_zero_runs ?r \<noteq> []"
      proof
        assume "drop_zero_runs ?r = []"
        with z(1) have "hd ?r = CHR ''0''" using False by (metis append_Nil hd_replicate replicate_empty)
        moreover have "hd ?r \<noteq> CHR ''0''" using hd_dropWhile [OF False] by simp
        ultimately show False by simp
      qed
      moreover have "drop_zero_runs (c # s) = (c # ?z) @ drop_zero_runs ?r"
        using True False \<open>word_char (hd ?r)\<close> by (simp add: Let_def del: dropWhile_eq_Nil_conv)
      moreover have "c # s = (c # ?z) @ drop_zero_runs ?r @ replicate z CHR ''0''"
        using s z(1) by (metis append_Cons)
      ultimately show ?thesis using z(2) by (metis append_assoc last_append)
    qed
  qed
qed simp

lemma rnd64_nonzero:
  assumes "1 \<le> x"
  shows "rnd64 x \<noteq> Fin 0"
proof
  assume r: "rnd64 x = Fin 0"
  have "1 / 2 ^ 53 \<le> \<bar>x\<bar>"
  proof -
    have "1 / 2 ^ 53 \<le> (1 :: rat)" by simp
    then show ?thesis using assms by linarith
  qed
  then have "\<bar>0 - x\<bar> \<le> \<bar>x\<bar> / 2 ^ 53" using assms by (intro rnd64_error [OF r] dbl_exp_of_ratio) auto
  then show False using assms by simp
qed

lemma parse_fraction:
  assumes "all_digits a" "a \<noteq> []" "all_digits f" "length f = 18"
  shows "parse_decimal (if drop_zero_runs f \<noteq> [] then a @ ''.'' @ drop_zero_runs f else a)
       = Some (of_int (digits_val (a @ f)) * pow10 (- 18))"
proof -
  obtain z where f: "f = drop_zero_runs f @ replicate z CHR ''0''"
    using drop_zero_runs_digits [OF assms(3)] by blast
  let ?p = "drop_zero_runs f"
  have dp: "all_digits ?p" using assms(3) f by (metis all_digits_simps(3))
  have len: "length ?p + z = 18" using f assms(4) by (metis length_append length_replicate)
  have "digits_val (a @ f) = digits_val ((a @ ?p) @ replicate z CHR ''0'')" using f by (metis append_assoc)
  also have "\<dots> = digits_val (a @ ?p) * 10 ^ z"
    unfolding digits_val_append [of "a @ ?p"] by simp
  finally have v: "digits_val (a @ f) = digits_val (a @ ?p) * 10 ^ z" .
  have "- 18 + int z = - int (length ?p)" using len by linarith
  then have "pow10 (- int (length ?p)) = pow10 (- 18) * 10 ^ z" using pow10_add_nat [of "- 18" z] by simp
  then have e: "of_int (digits_val (a @ ?p)) * pow10 (- int (length ?p)) = of_int (digits_val (a @ f)) * pow10 (- 18)"
    by (simp add: v)
  show ?thesis
  proof (cases "?p = []")
    case True
    then show ?thesis using e assms parse_decimal_digits [of a] by (simp add: pow10_def)
  next
    case False
    then show ?thesis using e parse_decimal_point [OF assms(1) dp assms(2)] by simp
  qed
qed

text \<open>
  C24: A price shown in the job tables is the exact amount: for a positive number of attoFIL of any
  length, the text denotes it divided by \<open>10^18\<close>, without rounding.
\<close>

theorem price_exact:
  assumes "all_digits v" "0 < digits_val v"
  shows "parse_decimal (NumFormatPrice (Some v)) = Some (of_int (digits_val v) * pow10 (- 18))"
proof -
  have v: "v \<noteq> []" using assms(2) by auto
  have "js_Number v \<noteq> Fin 0"
    unfolding js_Number_digits [OF assms(1) v] using assms(2) by (intro rnd64_nonzero) simp
  then have nz: "\<not> num_eq (js_Number v) (Fin 0)" by (cases "js_Number v") auto
  show ?thesis
  proof (cases "18 < length v")
    case True
    let ?k = "length v - 18"
    have "js_substring v 0 (int (length v) - 18) = take ?k v"
      "js_substring v (int (length v) - 18) (int (length v)) = drop ?k v"
      using True by (simp_all add: js_substring_def Let_def nat_diff_distrib')
    then have "NumFormatPrice (Some v) =
        (if drop_zero_runs (drop ?k v) \<noteq> [] then take ?k v @ ''.'' @ drop_zero_runs (drop ?k v) else take ?k v)"
      using nz True by (simp add: NumFormatPrice_def Let_def)
    moreover have "take ?k v \<noteq> []" using True by auto
    ultimately show ?thesis using parse_fraction [of "take ?k v" "drop ?k v"] assms(1) True by simp
  next
    case False
    let ?f = "replicate (18 - length v) CHR ''0'' @ v"
    have dv: "digits_val (''0'' @ ?f) = digits_val v"
      by (simp add: digits_val_append [of "CHR ''0'' # replicate (18 - length v) CHR ''0''" v, simplified]
          digits_val_zeros [of "Suc (18 - length v)", simplified])
    have "drop_zero_runs ?f \<noteq> []"
    proof
      assume e: "drop_zero_runs ?f = []"
      have "all_digits ?f" using assms(1) by simp
      then obtain z where "?f = replicate z CHR ''0''" using drop_zero_runs_digits [of ?f] e by auto
      then have "digits_val ?f = 0" by simp
      then show False using assms(2) by (simp add: digits_val_append)
    qed
    then have "NumFormatPrice (Some v) =
        (if drop_zero_runs ?f \<noteq> [] then ''0'' @ ''.'' @ drop_zero_runs ?f else ''0'')"
      using nz False by (simp add: NumFormatPrice_def)
    moreover have "all_digits ''0''" by (simp add: is_digit_def)
    ultimately show ?thesis using parse_fraction [of "''0''" ?f] assms(1) False dv by simp
  qed
qed

theorem price_exact_witness:
  "parse_decimal (NumFormatPrice (Some ''1500000000000000000'')) = Some (of_int (digits_val ''1500000000000000000'') * pow10 (- 18))"
  by (rule price_exact) (simp_all add: is_digit_def digits_val_def digit_val_def)

section \<open>Durations\<close>

lemma epochs_text_days:
  assumes "0 \<le> d" "d < 2 ^ 40"
  shows "epochs_text (dec_str d) = dec_str (2880 * d)"
proof -
  have "num_mul (num_mul (num_mul (num_of_int d) (num_of_int 24)) (num_of_int 60)) (num_of_int 2) = num_of_int (2880 * d)"
    using assms num_mul_ints [of d 24] num_mul_ints [of "d * 24" 60] num_mul_ints [of "d * 24 * 60" 2]
    by (simp add: num_of_int_small mult.commute)
  then show ?thesis
    using assms by (simp only: epochs_text_def js_Number_dec_str) (simp add: num_str_num_of_int)
qed

lemma duration_days_epochs:
  assumes "0 \<le> d" "d < 2 ^ 40"
  shows "duration_days (dec_str (2880 * d)) = dec_str d"
proof -
  have "num_div (num_of_int (2880 * d)) (num_of_int 24) = num_of_int (120 * d)"
    using assms num_div_exact [of 24 "120 * d"] by (simp add: num_of_int_small)
  moreover have "num_div (num_of_int (120 * d)) (num_of_int 60) = num_of_int (2 * d)"
    using assms num_div_exact [of 60 "2 * d"] by (simp add: num_of_int_small)
  moreover have "num_div (num_of_int (2 * d)) (num_of_int 2) = num_of_int d"
    using assms num_div_exact [of 2 d] by (simp add: num_of_int_small)
  ultimately show ?thesis
    using assms by (simp only: duration_days_def js_Number_dec_str) (simp add: num_str_num_of_int js_Number_dec_str)
qed

lemma parseInt_of_int: "0 \<le> n \<Longrightarrow> n < 2 ^ 53 \<Longrightarrow> js_parseInt_num (num_of_int n) = num_of_int n"
  by (simp only: js_parseInt_num_def num_str_num_of_int) (simp add: js_parseInt_digits dec_str_digits num_of_int_def)

lemma due_ms_epochs:
  assumes "0 \<le> e" "e < 2 ^ 30"
  shows "due_ms (dec_str e) = num_of_int (1000 * (30 * e + 1598306471))"
proof -
  have "js_parseInt (dec_str e) = num_of_int e"
    using assms by (simp add: js_parseInt_digits dec_str_digits num_of_int_def)
  moreover have "num_mul (num_of_int e) (num_of_int 30) = num_of_int (30 * e)"
    using assms num_mul_ints [of e 30] by (simp add: num_of_int_small mult.commute)
  moreover have "num_add (num_of_int (30 * e)) (num_of_int 1598306471) = num_of_int (30 * e + 1598306471)"
    using assms rnd64_of_int [of "30 * e + 1598306471"] by (simp add: num_of_int_small)
  moreover have "num_mul (num_of_int (30 * e + 1598306471)) (num_of_int 1000) = num_of_int (1000 * (30 * e + 1598306471))"
    using assms num_mul_ints [of "30 * e + 1598306471" 1000] by (simp add: num_of_int_small mult.commute)
  ultimately show ?thesis
    using assms by (simp only: due_ms_def parseInt_of_int [of 1598306471, simplified])
      (simp add: parseInt_of_int del: num_of_int_numeral)
qed

end
