(* ===== verification/My_Plans.thy ===== *)
theory My_Plans
  imports Account_Common
begin

text \<open>
  The list of backup plans (\<open>views/myAccount/myPlans/index.vue\<close>): its pages, its columns, starting, stopping
  and deleting a plan, with the server's answers to them. A delayed sorting of the list is the step of its
  timer.
\<close>

section \<open>The list: state\<close>

record plan =
  pl_ID :: int
  pl_Name :: string
  pl_Status :: string
  pl_Interval :: string
  pl_Price :: string
  pl_Duration :: string
  pl_VerifiedDeal :: bool
  pl_FastRetrieval :: bool
  pl_CreatedOn :: string
  pl_UpdatedOn :: string
  pl_LastBackupOn :: string

record my_plans =
  mp_dialogIndex :: "nat option" \<comment> \<open>\<open>NaN\<close> is \<open>None\<close>\<close>
  mp_dialogVisible :: bool
  mp_ruleForm :: "plan option" \<comment> \<open>the initial \<open>{}\<close> is \<open>None\<close>\<close>
  mp_plan_list :: "plan list option" \<comment> \<open>\<open>null\<close> is \<open>None\<close>\<close>
  mp_loading :: bool
  mp_parma :: pager
  mp_deleteConfirm :: bool

datatype plans_tag = PlansReply | StatusReply | SortTick

type_synonym plans_cmd = "plans_tag cmd"

definition my_plans_init :: my_plans where
  "my_plans_init =
     \<lparr>mp_dialogIndex = None, mp_dialogVisible = False, mp_ruleForm = None, mp_plan_list = Some [], mp_loading = False,
      mp_parma = pager_init, mp_deleteConfirm = False\<rparr>"

section \<open>The list: handlers\<close>

definition planSubmit :: "nat \<Rightarrow> plan \<Rightarrow> my_plans \<Rightarrow> my_plans" where
  "planSubmit index r s = s\<lparr>mp_dialogIndex := Some index, mp_dialogVisible := True, mp_ruleForm := Some r\<rparr>"

definition plans_handleClose :: "my_plans \<Rightarrow> my_plans" where
  "plans_handleClose s = s\<lparr>mp_dialogIndex := None, mp_dialogVisible := False\<rparr>"

definition deleteAct :: "plan \<Rightarrow> my_plans \<Rightarrow> my_plans" where
  "deleteAct r s = s\<lparr>mp_deleteConfirm := True, mp_ruleForm := Some r\<rparr>"

text \<open>\<open>moment\<close> on the three times of a plan.\<close>

definition plan_times :: "(jsnum \<Rightarrow> string) \<Rightarrow> plan \<Rightarrow> plan" where
  "plan_times moment_ms p =
     p\<lparr>pl_CreatedOn := stamp moment_ms (pl_CreatedOn p), pl_UpdatedOn := stamp moment_ms (pl_UpdatedOn p),
       pl_LastBackupOn := stamp moment_ms (pl_LastBackupOn p)\<rparr>"

definition plans_getData :: "string \<Rightarrow> string \<Rightarrow> my_plans \<Rightarrow> my_plans \<times> plans_cmd list" where
  "plans_getData api token s =
     (s\<lparr>mp_loading := True\<rparr>,
      [Request PlansReply (axios_post (api @ ''/minio/backup/retrieve/plan'')
         (JObj (page_params (mp_parma s) @ [(''Status'', JArr [JStr ''Enabled'', JStr ''Disabled''])])) token)])"

definition plans_handleCurrentChange :: "string \<Rightarrow> string \<Rightarrow> int \<Rightarrow> my_plans \<Rightarrow> my_plans \<times> plans_cmd list" where
  "plans_handleCurrentChange api token val s =
     plans_getData api token (s\<lparr>mp_parma := (mp_parma s)\<lparr>pg_offset := val\<rparr>\<rparr>)"

text \<open>
  The callbacks of \<open>getData\<close>: mapping over a list that is null throws after it was stored, and the
  second callback ends the loading.
\<close>

definition plans_failed :: "rejection \<Rightarrow> my_plans \<Rightarrow> (my_plans, plans_cmd) outcome" where
  "plans_failed r s = Done (s\<lparr>mp_loading := False\<rparr>) []"

definition plans_answered ::
  "(jsnum \<Rightarrow> string) \<Rightarrow> (string + (plan list option \<times> int)) \<Rightarrow> my_plans \<Rightarrow> (my_plans, plans_cmd) outcome" where
  "plans_answered moment_ms a s =
     (case a of
        Inl m \<Rightarrow> Done (s\<lparr>mp_loading := False\<rparr>) [Toast ToastError m]
      | Inr (plans, total_plans) \<Rightarrow>
          (let s1 = s\<lparr>mp_parma := (mp_parma s)\<lparr>pg_total := total_plans\<rparr>, mp_plan_list := plans\<rparr>
           in case plans of
                None \<Rightarrow> Throws TypeError s1 []
              | Some ps \<Rightarrow> Done (s1\<lparr>mp_plan_list := Some (map (plan_times moment_ms) ps)\<rparr>) [Timer 500 SortTick]))"

definition plans_reply ::
  "(jsnum \<Rightarrow> string) \<Rightarrow> (plan list option \<times> int) rest_reply \<Rightarrow> my_plans \<Rightarrow> (my_plans, plans_cmd) outcome" where
  "plans_reply moment_ms r s = settle (plans_answered moment_ms) plans_failed (rest_answer r) s"

text \<open>The timer sorts what is the list by then.\<close>

definition plans_sort_tick :: "my_plans \<Rightarrow> my_plans" where
  "plans_sort_tick s =
     s\<lparr>mp_plan_list := map_option (List.sort_key pl_ID) (mp_plan_list s), mp_loading := False\<rparr>"

definition next_status :: "bool \<Rightarrow> plan \<Rightarrow> string" where
  "next_status deleting p =
     (if deleting then ''Deleted'' else if pl_Status p = ''Enabled'' then ''Disabled'' else ''Enabled'')"

definition planStatus :: "string \<Rightarrow> string \<Rightarrow> plan \<Rightarrow> bool \<Rightarrow> my_plans \<Rightarrow> my_plans \<times> plans_cmd list" where
  "planStatus api token r deleting s =
     (s\<lparr>mp_deleteConfirm := False, mp_dialogVisible := False, mp_dialogIndex := None, mp_loading := True\<rparr>,
      [Request StatusReply (axios_post (api @ ''/minio/backup/update/plan'')
         (JObj [(''BackupPlanId'', JInt (pl_ID r)), (''Status'', JStr (next_status deleting r))]) token)])"

fun status_reply :: "string \<Rightarrow> string \<Rightarrow> (jsnum \<Rightarrow> string) \<Rightarrow> plan rest_reply \<Rightarrow> my_plans \<Rightarrow> my_plans \<times> plans_cmd list" where
  "status_reply api token moment_ms (RestSuccess p) s =
     plans_getData api token (s\<lparr>mp_ruleForm := Some (plan_times moment_ms p)\<rparr>)"
| "status_reply api token moment_ms (RestRefused m) s = (s\<lparr>mp_loading := False\<rparr>, [Toast ToastError m])"
| "status_reply api token moment_ms (RestFailure c) s = (s\<lparr>mp_loading := False\<rparr>, [])"

definition plans_mounted :: "string \<Rightarrow> string \<Rightarrow> my_plans \<Rightarrow> my_plans \<times> plans_cmd list" where
  "plans_mounted api token s = plans_getData api token s"

text \<open>The two buttons of the dialog; an ASCII \<open>toLowerCase\<close>.\<close>

definition status_enabled :: "my_plans \<Rightarrow> bool" where
  "status_enabled s = (case mp_ruleForm s of None \<Rightarrow> False | Some p \<Rightarrow> map lower (pl_Status p) = ''enabled'')"

definition stop_clickable :: "my_plans \<Rightarrow> bool" where
  "stop_clickable s = status_enabled s"

definition start_clickable :: "my_plans \<Rightarrow> bool" where
  "start_clickable s = (\<not> status_enabled s)"

section \<open>The list: properties\<close>

interpretation plans_view: loading_view
  "\<lambda>_. True" "\<lambda>s. fst (plans_getData api token s)" "\<lambda>r s. out_state (plans_reply moment_ms r s)" mp_loading plans_sort_tick
  for api token moment_ms
  by unfold_locales (simp_all add: plans_getData_def plans_reply_def plans_answered_def plans_failed_def plans_sort_tick_def)

text \<open>The update of a plan: the spinner of an accepted answer goes on with the reload.\<close>

interpretation plan_status: spinner
  "\<lambda>_. True" "\<lambda>s. fst (planStatus api token r deleting s)" "\<lambda>a s. fst (status_reply api token moment_ms a s)" mp_loading
  for api token moment_ms r deleting
  by unfold_locales (simp_all add: planStatus_def)

lemma plans_reply_total: "\<not> threw (plans_reply moment_ms r s)"
  unfolding plans_reply_def by (rule settle_total) (simp add: plans_failed_def)

text \<open>
  The answer of the server (\<open>PsqlRetrieveBackupPlan\<close>): the page of the plans with one of the statuses
  asked for, and the number of all plans.
\<close>

definition server_plans :: "plan list \<Rightarrow> string list \<Rightarrow> int \<Rightarrow> int \<Rightarrow> plan list \<times> int" where
  "server_plans plans statuses offset limit =
     (server_page (if statuses = [] then plans else filter (\<lambda>p. pl_Status p \<in> set statuses) plans) offset limit,
      int (length plans))"

definition listed :: "plan list \<Rightarrow> plan list" where
  "listed plans = filter (\<lambda>p. pl_Status p \<in> {''Enabled'', ''Disabled''}) plans"

text \<open>A click on page \<open>p + 1\<close>, the answer of the server to the request it issues, and the timer.\<close>

definition page_statuses :: "json \<Rightarrow> string list" where
  "page_statuses body =
     (case json_get body ''Status'' of JArr xs \<Rightarrow> map (\<lambda>x. case x of JStr s \<Rightarrow> s | _ \<Rightarrow> []) xs | _ \<Rightarrow> [])"

definition page_number :: "json \<Rightarrow> string \<Rightarrow> int" where
  "page_number body key = (case json_get body key of JNum (Fin x) \<Rightarrow> \<lfloor>x\<rfloor> | _ \<Rightarrow> 0)"

definition server_answers :: "(jsnum \<Rightarrow> string) \<Rightarrow> plan list \<Rightarrow> my_plans \<times> plans_cmd list \<Rightarrow> my_plans" where
  "server_answers moment_ms plans r =
     (case requests (snd r) of
        [] \<Rightarrow> fst r
      | (t, q) # _ \<Rightarrow>
          (let b = req_body q;
               (ps, n) = server_plans plans (page_statuses b) (page_number b ''Offset'') (page_number b ''Limit'')
           in plans_sort_tick (out_state (plans_reply moment_ms (RestSuccess (Some ps, n)) (fst r)))))"

definition plans_page :: "string \<Rightarrow> string \<Rightarrow> (jsnum \<Rightarrow> string) \<Rightarrow> plan list \<Rightarrow> nat \<Rightarrow> my_plans \<Rightarrow> my_plans" where
  "plans_page api token moment_ms plans p s =
     server_answers moment_ms plans (plans_handleCurrentChange api token (int p + 1) s)"

text \<open>\<open>on_page s p\<close>: the pager of the view is on page \<open>p + 1\<close>.\<close>

definition on_page :: "my_plans \<Rightarrow> nat \<Rightarrow> bool" where
  "on_page s p \<longleftrightarrow> pg_limit (mp_parma s) = 10 \<and> pg_offset (mp_parma s) = int p + 1"

lemma getData_answered:
  assumes "sorted (map pl_ID plans)" "on_page s p" "int p < 2 ^ 53"
  shows "mp_plan_list (server_answers moment_ms plans (plans_getData api token s))
       = Some (map (plan_times moment_ms) (take 10 (drop (10 * p) (listed plans)))) \<and>
    mp_parma (server_answers moment_ms plans (plans_getData api token s)) = (mp_parma s)\<lparr>pg_total := int (length plans)\<rparr> \<and>
    \<not> mp_loading (server_answers moment_ms plans (plans_getData api token s))"
proof -
  let ?pg = "take 10 (drop (10 * p) (listed plans))"
  have n: "nat (int p * 10) = 10 * p" by simp
  have p: "num_of_int (int p) = Fin (of_int (int p))" using assms(3) by (intro num_of_int_small) simp
  have "sorted (map pl_ID (listed plans))"
    using assms(1) unfolding listed_def by (rule sorted_filter)
  then have "sorted (take 10 (drop (10 * p) (map pl_ID (listed plans))))"
    by (intro sorted_wrt_take sorted_wrt_drop)
  moreover have "map pl_ID (map (plan_times moment_ms) ?pg) = take 10 (drop (10 * p) (map pl_ID (listed plans)))"
    by (simp add: take_map drop_map plan_times_def comp_def)
  ultimately have s: "List.sort_key pl_ID (map (plan_times moment_ms) ?pg) = map (plan_times moment_ms) ?pg"
    by (intro sort_key_id_if_sorted) simp
  show ?thesis
    using assms(2) s p n by (simp add: on_page_def server_answers_def plans_getData_def plans_reply_def
        plans_answered_def plans_sort_tick_def Let_def server_page_def page_offset_def server_plans_def page_params_def
        page_number_def page_statuses_def axios_post_def listed_def split: prod.split)
qed

lemma plans_page_shows:
  assumes "sorted (map pl_ID plans)" "pg_limit (mp_parma s) = 10" "int p < 2 ^ 53"
  shows "mp_plan_list (plans_page api token moment_ms plans p s)
       = Some (map (plan_times moment_ms) (take 10 (drop (10 * p) (listed plans)))) \<and>
    pg_total (mp_parma (plans_page api token moment_ms plans p s)) = int (length plans) \<and>
    \<not> mp_loading (plans_page api token moment_ms plans p s)"
  using getData_answered [OF assms(1) _ assms(3), of "s\<lparr>mp_parma := (mp_parma s)\<lparr>pg_offset := int p + 1\<rparr>\<rparr>"] assms(2)
  by (simp add: plans_page_def plans_handleCurrentChange_def on_page_def)

text \<open>
  C20: The list of plans implements the server's table page by page: turning through the first \<open>n\<close>
  pages shows the first \<open>10 n\<close> of its enabled and disabled plans, each once and in the order of
  their ids, with their times formatted and the spinner off. The pager counts all plans, the deleted
  ones too, so that it offers pages that are empty.
\<close>

theorem plans_pages_partition:
  assumes "sorted (map pl_ID plans)" "pg_limit (mp_parma s) = 10" "int n < 2 ^ 53"
  shows "concat (map (\<lambda>p. case mp_plan_list (plans_page api token moment_ms plans p s) of Some ps \<Rightarrow> ps | None \<Rightarrow> []) [0..<n])
       = map (plan_times moment_ms) (take (10 * n) (listed plans)) \<and>
    list_all (\<lambda>p. pg_total (mp_parma (plans_page api token moment_ms plans p s)) = int (length plans) \<and>
       \<not> mp_loading (plans_page api token moment_ms plans p s)) [0..<n]"
proof
  have "map (\<lambda>p. case mp_plan_list (plans_page api token moment_ms plans p s) of Some ps \<Rightarrow> ps | None \<Rightarrow> []) [0..<n]
      = map (\<lambda>p. map (plan_times moment_ms) (take 10 (drop (10 * p) (listed plans)))) [0..<n]"
    using plans_page_shows [OF assms(1,2)] assms(3) by (intro map_cong) simp_all
  also have "concat \<dots> = map (plan_times moment_ms) (concat (map (\<lambda>p. take 10 (drop (10 * p) (listed plans))) [0..<n]))"
    by (simp add: map_concat comp_def)
  finally show "concat (map (\<lambda>p. case mp_plan_list (plans_page api token moment_ms plans p s) of Some ps \<Rightarrow> ps | None \<Rightarrow> []) [0..<n])
       = map (plan_times moment_ms) (take (10 * n) (listed plans))"
    by (simp only: pages_concat)
  show "list_all (\<lambda>p. pg_total (mp_parma (plans_page api token moment_ms plans p s)) = int (length plans) \<and>
       \<not> mp_loading (plans_page api token moment_ms plans p s)) [0..<n]"
    using plans_page_shows [OF assms(1,2)] assms(3) by (simp add: list_all_iff)
qed

definition sample_plan :: "int \<Rightarrow> string \<Rightarrow> plan" where
  "sample_plan i status =
     \<lparr>pl_ID = i, pl_Name = ''p'', pl_Status = status, pl_Interval = ''1'', pl_Price = ''1'', pl_Duration = ''518400'',
      pl_VerifiedDeal = False, pl_FastRetrieval = True, pl_CreatedOn = [], pl_UpdatedOn = [], pl_LastBackupOn = []\<rparr>"

theorem plans_pages_partition_witness:
  "concat (map (\<lambda>p. case mp_plan_list (plans_page [] [] num_str [sample_plan 1 ''Enabled'', sample_plan 2 ''Deleted'', sample_plan 4 ''Disabled''] p my_plans_init)
       of Some ps \<Rightarrow> ps | None \<Rightarrow> []) [0..<2])
   = map (plan_times num_str) (take (10 * 2) (listed [sample_plan 1 ''Enabled'', sample_plan 2 ''Deleted'', sample_plan 4 ''Disabled'']))"
  by (rule plans_pages_partition [THEN conjunct1]) (simp_all add: sample_plan_def my_plans_init_def pager_init_def)

section \<open>Changing the status of a plan\<close>

text \<open>The server's update (\<open>PsqlBackupVolumeUpdatePlan\<close>): the plan with the id gets the status and a time.\<close>

definition server_update :: "plan list \<Rightarrow> int \<Rightarrow> string \<Rightarrow> string \<Rightarrow> plan list" where
  "server_update plans i status timestamp =
     map (\<lambda>q. if pl_ID q = i then q\<lparr>pl_Status := status, pl_UpdatedOn := timestamp\<rparr> else q) plans"

text \<open>The whole exchange: the update request, its answer, the list request it issues, its answer.\<close>

definition status_exchange ::
  "string \<Rightarrow> string \<Rightarrow> (jsnum \<Rightarrow> string) \<Rightarrow> plan list \<Rightarrow> string \<Rightarrow> plan \<Rightarrow> bool \<Rightarrow> my_plans \<Rightarrow> plan list \<times> my_plans" where
  "status_exchange api token moment_ms plans timestamp r deleting s =
     (let (s1, cs) = planStatus api token r deleting s
      in case requests cs of
           [] \<Rightarrow> (plans, s1)
         | (t, q) # _ \<Rightarrow>
             (let status = (case json_get (req_body q) ''Status'' of JStr x \<Rightarrow> x | _ \<Rightarrow> []);
                  plans' = server_update plans (page_number (req_body q) ''BackupPlanId'') status timestamp
              in (plans', server_answers moment_ms plans'
                   (status_reply api token moment_ms (RestSuccess (r\<lparr>pl_Status := status, pl_UpdatedOn := timestamp\<rparr>)) s1))))"

lemma status_exchange_result:
  assumes "\<bar>pl_ID r\<bar> < 2 ^ 53"
  shows "status_exchange api token moment_ms plans timestamp r deleting s =
    (let plans' = server_update plans (pl_ID r) (next_status deleting r) timestamp
     in (plans', server_answers moment_ms plans' (plans_getData api token
           (s\<lparr>mp_deleteConfirm := False, mp_dialogVisible := False, mp_dialogIndex := None, mp_loading := True,
              mp_ruleForm := Some (plan_times moment_ms (r\<lparr>pl_Status := next_status deleting r, pl_UpdatedOn := timestamp\<rparr>))\<rparr>))))"
  using assms by (simp add: status_exchange_def planStatus_def Let_def axios_post_def page_number_def num_of_int_small)

lemma server_update_ids [simp]: "map pl_ID (server_update plans i st ts) = map pl_ID plans"
  by (simp add: server_update_def comp_def if_distrib cong: if_cong)

text \<open>
  C21: Starting, stopping and deleting a plan does what the buttons say. In the dialog of a plan exactly one of
  the two buttons works, and it asks the server for the other status; after the server's update and the
  reload it causes, the page shows the current table: the plan with its new status, and after a
  deletion no plan of that id. The dialogs are closed and the spinner is off.
\<close>

theorem status_exchange_shows:
  assumes "sorted (map pl_ID plans)" "on_page s p" "int p < 2 ^ 53" "\<bar>pl_ID r\<bar> < 2 ^ 53"
    and "pl_Status r \<in> {''Enabled'', ''Disabled''}"
  shows "(stop_clickable (planSubmit i r s) \<longleftrightarrow> \<not> start_clickable (planSubmit i r s)) \<and>
    next_status False r = (if stop_clickable (planSubmit i r s) then ''Disabled'' else ''Enabled'') \<and>
    (case status_exchange api token moment_ms plans timestamp r deleting s of (plans', s') \<Rightarrow>
       plans' = server_update plans (pl_ID r) (next_status deleting r) timestamp \<and>
       mp_plan_list s' = Some (map (plan_times moment_ms) (take 10 (drop (10 * p) (listed plans')))) \<and>
       (deleting \<longrightarrow> pl_ID r \<notin> pl_ID ` set (listed plans')) \<and> \<not> mp_loading s')"
proof (intro conjI)
  show "stop_clickable (planSubmit i r s) \<longleftrightarrow> \<not> start_clickable (planSubmit i r s)"
    by (simp add: stop_clickable_def start_clickable_def)
  have "map lower ''Enabled'' = ''enabled''" "map lower ''Disabled'' \<noteq> ''enabled''" by code_simp+
  then show "next_status False r = (if stop_clickable (planSubmit i r s) then ''Disabled'' else ''Enabled'')"
    using assms(5) by (auto simp: next_status_def stop_clickable_def status_enabled_def planSubmit_def)
next
  let ?plans' = "server_update plans (pl_ID r) (next_status deleting r) timestamp"
  have "sorted (map pl_ID ?plans')" using assms(1) by simp
  note answered = getData_answered [OF this _ assms(3)]
  have "deleting \<Longrightarrow> pl_ID r \<notin> pl_ID ` set (listed ?plans')"
    by (auto simp: listed_def server_update_def next_status_def split: if_splits)
  then show "case status_exchange api token moment_ms plans timestamp r deleting s of (plans', s') \<Rightarrow>
       plans' = ?plans' \<and>
       mp_plan_list s' = Some (map (plan_times moment_ms) (take 10 (drop (10 * p) (listed plans')))) \<and>
       (deleting \<longrightarrow> pl_ID r \<notin> pl_ID ` set (listed plans')) \<and> \<not> mp_loading s'"
    unfolding status_exchange_result [OF assms(4)] Let_def prod.case
    using assms(2) by (intro conjI answered [THEN conjunct1] answered [THEN conjunct2, THEN conjunct2] refl impI)
      (simp_all add: on_page_def)
qed

theorem status_exchange_shows_witness:
  "next_status False (sample_plan 4 ''Enabled'') = (if stop_clickable (planSubmit 0 (sample_plan 4 ''Enabled'') my_plans_init) then ''Disabled'' else ''Enabled'')"
  by (rule status_exchange_shows [THEN conjunct2, THEN conjunct1, of "[sample_plan 4 ''Enabled'']" _ 0])
    (simp_all add: sample_plan_def on_page_def my_plans_init_def pager_init_def)

end
