(* ===== verification/Backup_Form.thy ===== *)
theory Backup_Form
  imports My_Plans
begin

text \<open>
  The form that creates a backup plan (\<open>views/myAccount/backupPlans/index.vue\<close>): its fields and their
  rules, the request, the two dialogs that follow, and what the list of plans shows of it.
\<close>

section \<open>State\<close>

record plan_form =
  pf_name :: string
  pf_price :: string
  pf_duration :: string
  pf_verified :: string
  pf_fastRetirval :: string
  pf_frequency :: string
  pf_region :: string

record backup_form =
  bf_dialogVisible :: bool
  bf_dialogConfirm :: bool
  bf_ruleForm :: plan_form
  bf_loading :: bool

datatype form_tag = AddPlanReply

definition frequencyOptions :: "(string \<times> string) list" where
  "frequencyOptions = [(''1'', ''Backup Daily''), (''7'', ''Backup Weekly'')]"

definition regionOptions :: "(string \<times> string) list" where
  "regionOptions =
     map (\<lambda>r. (r, r)) [''Global'', ''Asia'', ''Africa'', ''North America'', ''Sorth America'', ''Europe'', ''Oceania'']"

definition backup_form_init :: backup_form where
  "backup_form_init =
     \<lparr>bf_dialogVisible = False, bf_dialogConfirm = False,
      bf_ruleForm = \<lparr>pf_name = [], pf_price = [], pf_duration = [], pf_verified = ''2'', pf_fastRetirval = ''1'',
                     pf_frequency = ''1'', pf_region = ''Global''\<rparr>,
      bf_loading = False\<rparr>"

section \<open>Rules\<close>

text \<open>
  \<open>validateDuration\<close>: the message, if any. The comparison with 180 is deferred by a timer, which the
  form waits for.
\<close>

definition validateDuration :: "string \<Rightarrow> string option" where
  "validateDuration value =
     (if value = [] then Some ''Please enter the duration''
      else if num_less (js_Number value) (Fin 180)
           then Some ''The duration must be equal to or greater than 180 days.''
           else None)"

definition plan_rules :: "plan_form \<Rightarrow> bool" where
  "plan_rules f \<longleftrightarrow> required (pf_name f) \<and> required (pf_price f) \<and> validateDuration (pf_duration f) = None"

section \<open>Handlers\<close>

definition plan_body :: "plan_form \<Rightarrow> json" where
  "plan_body f =
     JObj [(''BackupPlanName'', JStr (pf_name f)), (''BackupInterval'', JStr (pf_frequency f)), (''Price'', JStr (pf_price f)),
           (''Duration'', JStr (epochs_text (pf_duration f))), (''VerifiedDeal'', JBool (pf_verified f \<noteq> ''2'')),
           (''FastRetrieval'', JBool (pf_fastRetirval f \<noteq> ''2''))]"

definition plan_submitForm :: "string \<Rightarrow> string \<Rightarrow> backup_form \<Rightarrow> backup_form \<times> form_tag cmd list" where
  "plan_submitForm api token s =
     (if plan_rules (bf_ruleForm s)
      then (s\<lparr>bf_loading := True\<rparr>,
            [Request AddPlanReply (axios_post (api @ ''/minio/backup/add/plan'') (plan_body (bf_ruleForm s)) token)])
      else (s, []))"

fun addPlan_reply :: "unit rest_reply \<Rightarrow> backup_form \<Rightarrow> backup_form \<times> form_tag cmd list" where
  "addPlan_reply (RestSuccess _) s = (s\<lparr>bf_loading := False, bf_dialogVisible := True\<rparr>, [])"
| "addPlan_reply (RestRefused m) s = (s\<lparr>bf_loading := False\<rparr>, [Toast ToastError m])"
| "addPlan_reply (RestFailure c) s = (s\<lparr>bf_loading := False\<rparr>, [])"

definition plan_confirm :: "backup_form \<Rightarrow> backup_form" where
  "plan_confirm s = s\<lparr>bf_dialogVisible := False, bf_dialogConfirm := True\<rparr>"

text \<open>The lines of the summary dialog.\<close>

definition form_summary :: "plan_form \<Rightarrow> (string \<times> string) list" where
  "form_summary f =
     [(''Backup frequency:'', if pf_frequency f = ''1'' then ''Backup Daily'' else ''Backup Weekly''),
      (''Price:'', pf_price f @ '' FIL''), (''Duration:'', pf_duration f @ '' days''),
      (''Verified deal:'', if pf_verified f = ''2'' then ''No'' else ''Yes''),
      (''Fast retrieval:'', if pf_fastRetirval f = ''2'' then ''No'' else ''Yes'')]"

text \<open>The same lines in the dialog of the list of plans (\<open>myPlans/index.vue\<close>).\<close>

definition plan_summary :: "plan \<Rightarrow> (string \<times> string) list" where
  "plan_summary p =
     [(''Backup frequency:'', if pl_Interval p = ''1'' then ''Backup Daily'' else ''Backup Weekly''),
      (''Price:'', pl_Price p @ '' FIL''), (''Duration:'', duration_days (pl_Duration p) @ '' days''),
      (''Verified deal:'', if \<not> pl_VerifiedDeal p then ''No'' else ''Yes''),
      (''Fast retrieval:'', if \<not> pl_FastRetrieval p then ''No'' else ''Yes'')]"

section \<open>Properties\<close>

interpretation backup_form: immediate_view
  "\<lambda>s. plan_rules (bf_ruleForm s)" "\<lambda>s. fst (plan_submitForm api token s)" "\<lambda>r s. fst (addPlan_reply r s)" bf_loading
  for api token
  by unfold_locales (simp_all add: plan_submitForm_def)

text \<open>
  The plan the server stores from a request body (\<open>PsqlBackupVolumeAddPlan\<close>): the fields of the body
  under their column names, enabled.
\<close>

definition text_member :: "json \<Rightarrow> string \<Rightarrow> string" where
  "text_member b k = (case json_get b k of JStr s \<Rightarrow> s | _ \<Rightarrow> [])"

definition server_add :: "int \<Rightarrow> string \<Rightarrow> json \<Rightarrow> plan" where
  "server_add i timestamp b =
     \<lparr>pl_ID = i, pl_Name = text_member b ''BackupPlanName'', pl_Status = ''Enabled'',
      pl_Interval = text_member b ''BackupInterval'', pl_Price = text_member b ''Price'',
      pl_Duration = text_member b ''Duration'', pl_VerifiedDeal = (json_get b ''VerifiedDeal'' = JBool True),
      pl_FastRetrieval = (json_get b ''FastRetrieval'' = JBool True), pl_CreatedOn = timestamp, pl_UpdatedOn = timestamp,
      pl_LastBackupOn = []\<rparr>"

lemma num_less_ints: "\<bar>a\<bar> < 2 ^ 53 \<Longrightarrow> num_less (num_of_int a) (Fin 180) \<longleftrightarrow> a < 180"
  by (simp add: num_of_int_small)

lemma validateDuration_days:
  assumes "0 \<le> d" "d < 2 ^ 40"
  shows "validateDuration (dec_str d) = None \<longleftrightarrow> 180 \<le> d"
  using assms num_less_ints [of d] by (simp add: validateDuration_def js_Number_dec_str not_less)

text \<open>
  C22: What is typed is what is listed: for a name, a price and a whole number of at least 180 days the
  form sends one request, and the plan the server stores from it is shown in the list of plans with
  the very lines of the form's own summary; the days survive their conversion to epochs and back. For
  fewer days nothing is sent.
\<close>

theorem plan_form_round_trip:
  assumes "pf_duration (bf_ruleForm s) = dec_str d" "0 \<le> d" "d < 2 ^ 40"
    and "pf_name (bf_ruleForm s) \<noteq> []" "pf_price (bf_ruleForm s) \<noteq> []"
  shows "if 180 \<le> d
    then \<exists>q. requests (snd (plan_submitForm api token s)) = [(AddPlanReply, q)] \<and>
      plan_summary (server_add i timestamp (req_body q)) = form_summary (bf_ruleForm s)
    else plan_submitForm api token s = (s, [])"
  using assms validateDuration_days [OF assms(2,3)] epochs_text_days [OF assms(2,3)] duration_days_epochs [OF assms(2,3)]
  by (simp add: plan_submitForm_def plan_rules_def required_def plan_summary_def form_summary_def server_add_def
      plan_body_def text_member_def axios_post_def)

theorem plan_form_round_trip_witness:
  "\<exists>q. requests (snd (plan_submitForm [] [] (backup_form_init\<lparr>bf_ruleForm := (bf_ruleForm backup_form_init)
          \<lparr>pf_name := ''daily'', pf_price := ''1'', pf_duration := dec_str 180\<rparr>\<rparr>))) = [(AddPlanReply, q)] \<and>
      plan_summary (server_add 1 ''0'' (req_body q)) = form_summary (bf_ruleForm (backup_form_init\<lparr>bf_ruleForm := (bf_ruleForm backup_form_init)
          \<lparr>pf_name := ''daily'', pf_price := ''1'', pf_duration := dec_str 180\<rparr>\<rparr>))"
  using plan_form_round_trip [of "backup_form_init\<lparr>bf_ruleForm := (bf_ruleForm backup_form_init)
          \<lparr>pf_name := ''daily'', pf_price := ''1'', pf_duration := dec_str 180\<rparr>\<rparr>" 180 "[]" "[]" 1 "''0''"]
  by simp

end
