(* ===== verification/Job_Tables.thy ===== *)
theory Job_Tables
  imports Backup_Form
begin

text \<open>
  The tables of backup and rebuild jobs: the details page of the dashboard
  (\<open>views/myAccount/dashboard/details.vue\<close>) and the jobs page (\<open>views/myAccount/myJobs/index.vue\<close>), which
  is a copy of it with a tab for each table and a spinner of its own for the second. The state of the
  copies is one record with an extension for each page, and the operations they share work on both.
\<close>

section \<open>State\<close>

record backup_job =
  bj_ID :: int
  bj_Name :: string
  bj_CreatedOn :: string
  bj_MinerId :: string
  bj_Cost :: "string option"
  bj_DealCid :: string
  bj_PayloadCid :: string
  bj_Duration :: string
  bj_UpdatedOn :: string
  bj_Status :: string

record shown_backup =
  sb_job :: backup_job
  sb_visible :: bool
  sb_dataVisible :: bool
  sb_duration_time :: string

record rebuild_job =
  rj_ID :: int
  rj_BackupPlanName :: string
  rj_Status :: string
  rj_MinerId :: string
  rj_DealCid :: string
  rj_PayloadCid :: string
  rj_BackupJobId :: int
  rj_CreatedOn :: string
  rj_UpdatedOn :: string

record shown_rebuild =
  sr_job :: rebuild_job
  sr_visible :: bool

text \<open>
  \<open>backupPlan\<close>: the name and id written into it by \<open>detailFun\<close>, over the members of the last answer.
\<close>

record job_target =
  jt_Name :: "string option"
  jt_ID :: "int option"
  jt_answer :: "rebuild_job option"

record job_tables =
  jb_dialogIndex :: nat
  jb_dialogVisible :: bool
  jb_dialogConfirm :: bool
  jb_dialogDis :: bool
  jb_tableData :: "shown_backup list option"
  jb_tableData_2 :: "shown_rebuild list option"
  jb_backupPlan :: job_target
  jb_loading :: bool
  jb_parma :: pager
  jb_parmaRebuild :: pager

record details = job_tables +
  dt_linkTitle :: string

record my_jobs = job_tables +
  mj_loading_rebuild :: bool
  mj_activeName :: string

datatype jobs_tag = VolumeReply | RebuildReply | RebuildJobReply | SortBackups | SortRebuilds

type_synonym jobs_cmd = "jobs_tag cmd"

definition details_init :: details where
  "details_init =
     \<lparr>jb_dialogIndex = 0, jb_dialogVisible = False, jb_dialogConfirm = False, jb_dialogDis = False,
      jb_tableData = Some [], jb_tableData_2 = Some [],
      jb_backupPlan = \<lparr>jt_Name = None, jt_ID = None, jt_answer = None\<rparr>, jb_loading = False,
      jb_parma = pager_init, jb_parmaRebuild = pager_init, dt_linkTitle = ''All Backup Job Details''\<rparr>"

definition my_jobs_init :: my_jobs where
  "my_jobs_init =
     \<lparr>jb_dialogIndex = 0, jb_dialogVisible = False, jb_dialogConfirm = False, jb_dialogDis = False,
      jb_tableData = Some [], jb_tableData_2 = Some [],
      jb_backupPlan = \<lparr>jt_Name = None, jt_ID = None, jt_answer = None\<rparr>, jb_loading = False,
      jb_parma = pager_init, jb_parmaRebuild = pager_init, mj_loading_rebuild = False, mj_activeName = ''backup_job''\<rparr>"

section \<open>Loading the tables\<close>

text \<open>The row the table shows for a backup job, and for a rebuild job, whose times are always formatted.\<close>

definition show_backup :: "(jsnum \<Rightarrow> string) \<Rightarrow> backup_job \<Rightarrow> shown_backup" where
  "show_backup moment_ms j =
     \<lparr>sb_job = j\<lparr>bj_CreatedOn := stamp moment_ms (bj_CreatedOn j), bj_UpdatedOn := stamp moment_ms (bj_UpdatedOn j)\<rparr>,
      sb_visible = False, sb_dataVisible = False, sb_duration_time = due_time moment_ms (bj_Duration j)\<rparr>"

definition show_rebuild :: "(jsnum \<Rightarrow> string) \<Rightarrow> rebuild_job \<Rightarrow> shown_rebuild" where
  "show_rebuild moment_ms j =
     \<lparr>sr_job = j\<lparr>rj_CreatedOn := moment_ms (micros_ms (rj_CreatedOn j)), rj_UpdatedOn := moment_ms (micros_ms (rj_UpdatedOn j))\<rparr>,
      sr_visible = False\<rparr>"

definition volume_request :: "string \<Rightarrow> string \<Rightarrow> pager \<Rightarrow> jobs_cmd" where
  "volume_request api token p =
     Request VolumeReply (axios_post (api @ ''/minio/backup/retrieve/volume'') (JObj (page_params p)) token)"

definition rebuild_request :: "string \<Rightarrow> string \<Rightarrow> pager \<Rightarrow> jobs_cmd" where
  "rebuild_request api token p =
     Request RebuildReply (axios_post (api @ ''/minio/rebuild/retrieve/volume'') (JObj (page_params p)) token)"

text \<open>\<open>getData\<close> of the details page: with a type the backup jobs, without one the rebuild jobs.\<close>

definition details_getData :: "string \<Rightarrow> string \<Rightarrow> bool \<Rightarrow> details \<Rightarrow> details \<times> jobs_cmd list" where
  "details_getData api token backups s =
     (s\<lparr>jb_loading := True\<rparr>,
      [if backups then volume_request api token (jb_parma s) else rebuild_request api token (jb_parmaRebuild s)])"

definition jobs_getData :: "string \<Rightarrow> string \<Rightarrow> bool \<Rightarrow> my_jobs \<Rightarrow> my_jobs \<times> jobs_cmd list" where
  "jobs_getData api token backups s =
     (if backups then (s\<lparr>jb_loading := True\<rparr>, [volume_request api token (jb_parma s)])
      else (s\<lparr>mj_loading_rebuild := True\<rparr>, [rebuild_request api token (jb_parmaRebuild s)]))"

text \<open>The callbacks; a null list is stored and then throws, which ends in the second callback.\<close>

definition stop_loading :: "rejection \<Rightarrow> 'a job_tables_scheme \<Rightarrow> ('a job_tables_scheme, jobs_cmd) outcome" where
  "stop_loading r s = Done (s\<lparr>jb_loading := False\<rparr>) []"

definition volume_answered ::
  "(jsnum \<Rightarrow> string) \<Rightarrow> (string + (backup_job list option \<times> int)) \<Rightarrow> 'a job_tables_scheme \<Rightarrow> ('a job_tables_scheme, jobs_cmd) outcome" where
  "volume_answered moment_ms a s =
     (case a of
        Inl m \<Rightarrow> Done (s\<lparr>jb_loading := False\<rparr>) [Toast ToastError m]
      | Inr (jobs, counts) \<Rightarrow>
          (let s1 = s\<lparr>jb_parma := (jb_parma s)\<lparr>pg_total := counts\<rparr>, jb_tableData := None\<rparr>
           in case jobs of
                None \<Rightarrow> Throws TypeError s1 []
              | Some js \<Rightarrow> Done (s1\<lparr>jb_tableData := Some (map (show_backup moment_ms) js)\<rparr>) [Timer 500 SortBackups]))"

definition volume_reply ::
  "(jsnum \<Rightarrow> string) \<Rightarrow> (backup_job list option \<times> int) rest_reply \<Rightarrow> 'a job_tables_scheme \<Rightarrow> ('a job_tables_scheme, jobs_cmd) outcome" where
  "volume_reply moment_ms r s = settle (volume_answered moment_ms) stop_loading (rest_answer r) s"

definition sort_backups :: "'a job_tables_scheme \<Rightarrow> 'a job_tables_scheme" where
  "sort_backups s =
     s\<lparr>jb_tableData := map_option (List.sort_key (\<lambda>r. bj_ID (sb_job r))) (jb_tableData s), jb_loading := False\<rparr>"

text \<open>The rebuild jobs: \<open>set_loading\<close> writes the flag of the page.\<close>

definition rebuild_answered ::
  "(bool \<Rightarrow> 'a job_tables_scheme \<Rightarrow> 'a job_tables_scheme) \<Rightarrow> (jsnum \<Rightarrow> string) \<Rightarrow> (string + (rebuild_job list option \<times> int))
     \<Rightarrow> 'a job_tables_scheme \<Rightarrow> ('a job_tables_scheme, jobs_cmd) outcome" where
  "rebuild_answered set_loading moment_ms a s =
     (case a of
        Inl m \<Rightarrow> Done (set_loading False s) [Toast ToastError m]
      | Inr (jobs, counts) \<Rightarrow>
          (let s1 = s\<lparr>jb_parmaRebuild := (jb_parmaRebuild s)\<lparr>pg_total := counts\<rparr>, jb_tableData_2 := None\<rparr>
           in case jobs of
                None \<Rightarrow> Throws TypeError s1 []
              | Some js \<Rightarrow> Done (s1\<lparr>jb_tableData_2 := Some (map (show_rebuild moment_ms) js)\<rparr>) [Timer 500 SortRebuilds]))"

definition rebuild_reply ::
  "(bool \<Rightarrow> 'a job_tables_scheme \<Rightarrow> 'a job_tables_scheme) \<Rightarrow> (jsnum \<Rightarrow> string) \<Rightarrow> (rebuild_job list option \<times> int) rest_reply
     \<Rightarrow> 'a job_tables_scheme \<Rightarrow> ('a job_tables_scheme, jobs_cmd) outcome" where
  "rebuild_reply set_loading moment_ms r s =
     settle (rebuild_answered set_loading moment_ms) (\<lambda>_ s. Done (set_loading False s) []) (rest_answer r) s"

definition sort_rebuilds :: "(bool \<Rightarrow> 'a job_tables_scheme \<Rightarrow> 'a job_tables_scheme) \<Rightarrow> 'a job_tables_scheme \<Rightarrow> 'a job_tables_scheme" where
  "sort_rebuilds set_loading s =
     set_loading False (s\<lparr>jb_tableData_2 := map_option (List.sort_key (\<lambda>r. rj_ID (sr_job r))) (jb_tableData_2 s)\<rparr>)"

definition details_set_loading :: "bool \<Rightarrow> details \<Rightarrow> details" where
  "details_set_loading b s = s\<lparr>jb_loading := b\<rparr>"

definition jobs_set_loading :: "bool \<Rightarrow> my_jobs \<Rightarrow> my_jobs" where
  "jobs_set_loading b s = s\<lparr>mj_loading_rebuild := b\<rparr>"

definition details_backupChange :: "string \<Rightarrow> string \<Rightarrow> int \<Rightarrow> details \<Rightarrow> details \<times> jobs_cmd list" where
  "details_backupChange api token val s = details_getData api token True (s\<lparr>jb_parma := (jb_parma s)\<lparr>pg_offset := val\<rparr>\<rparr>)"

definition details_rebuildChange :: "string \<Rightarrow> string \<Rightarrow> int \<Rightarrow> details \<Rightarrow> details \<times> jobs_cmd list" where
  "details_rebuildChange api token val s =
     details_getData api token False (s\<lparr>jb_parmaRebuild := (jb_parmaRebuild s)\<lparr>pg_offset := val\<rparr>\<rparr>)"

definition jobs_backupChange :: "string \<Rightarrow> string \<Rightarrow> int \<Rightarrow> my_jobs \<Rightarrow> my_jobs \<times> jobs_cmd list" where
  "jobs_backupChange api token val s = jobs_getData api token True (s\<lparr>jb_parma := (jb_parma s)\<lparr>pg_offset := val\<rparr>\<rparr>)"

definition jobs_rebuildChange :: "string \<Rightarrow> string \<Rightarrow> int \<Rightarrow> my_jobs \<Rightarrow> my_jobs \<times> jobs_cmd list" where
  "jobs_rebuildChange api token val s =
     jobs_getData api token False (s\<lparr>jb_parmaRebuild := (jb_parmaRebuild s)\<lparr>pg_offset := val\<rparr>\<rparr>)"

text \<open>\<open>productName\<close>, on the parameter of the route, when the page is mounted and when the route changes.\<close>

definition details_productName :: "string \<Rightarrow> string \<Rightarrow> string option \<Rightarrow> details \<Rightarrow> details \<times> jobs_cmd list" where
  "details_productName api token param s =
     (if param = Some ''backup_job'' then details_getData api token True (s\<lparr>dt_linkTitle := ''All Backup Job Details''\<rparr>)
      else details_getData api token False (s\<lparr>dt_linkTitle := ''All Rebuild Job Details''\<rparr>))"

definition jobs_mounted :: "string \<Rightarrow> string \<Rightarrow> my_jobs \<Rightarrow> my_jobs \<times> jobs_cmd list" where
  "jobs_mounted api token s =
     (let (s1, c1) = jobs_getData api token False s; (s2, c2) = jobs_getData api token True s1 in (s2, c1 @ c2))"

section \<open>Rebuilding\<close>

text \<open>The button of a row: the details dialog when the job is completed, an explanation otherwise.\<close>

definition detailFun :: "backup_job \<Rightarrow> 'a job_tables_scheme \<Rightarrow> 'a job_tables_scheme" where
  "detailFun j s =
     s\<lparr>jb_backupPlan := (jb_backupPlan s)\<lparr>jt_Name := Some (bj_Name j), jt_ID := Some (bj_ID j)\<rparr>, jb_dialogVisible := True\<rparr>"

definition rebuild_click :: "shown_backup \<Rightarrow> 'a job_tables_scheme \<Rightarrow> 'a job_tables_scheme" where
  "rebuild_click r s = (if bj_Status (sb_job r) \<noteq> ''Completed'' then s\<lparr>jb_dialogDis := True\<rparr> else detailFun (sb_job r) s)"

definition rebuild_confirm :: "string \<Rightarrow> string \<Rightarrow> 'a job_tables_scheme \<Rightarrow> 'a job_tables_scheme \<times> jobs_cmd list" where
  "rebuild_confirm api token s =
     (s\<lparr>jb_dialogVisible := False, jb_loading := True\<rparr>,
      [Request RebuildJobReply (axios_post (api @ ''/minio/rebuild/add/job'')
         (JObj [(''BackupTaskId'', case jt_ID (jb_backupPlan s) of None \<Rightarrow> JUndef | Some i \<Rightarrow> JInt i)]) token)])"

fun rebuildJob_reply :: "(jsnum \<Rightarrow> string) \<Rightarrow> rebuild_job rest_reply \<Rightarrow> 'a job_tables_scheme \<Rightarrow> 'a job_tables_scheme \<times> jobs_cmd list" where
  "rebuildJob_reply moment_ms (RestSuccess j) s =
     (s\<lparr>jb_loading := False,
        jb_backupPlan := \<lparr>jt_Name = None, jt_ID = Some (rj_ID j),
          jt_answer = Some (j\<lparr>rj_CreatedOn := (if rj_CreatedOn j = [] then [] else moment_ms (micros_ms (rj_CreatedOn j)))\<rparr>)\<rparr>,
        jb_dialogConfirm := True\<rparr>, [])"
| "rebuildJob_reply moment_ms (RestRefused m) s = (s\<lparr>jb_loading := False\<rparr>, [Toast ToastError m])"
| "rebuildJob_reply moment_ms (RestFailure c) s = (s\<lparr>jb_loading := False\<rparr>, [])"

definition jobs_planSubmit :: "nat \<Rightarrow> 'a job_tables_scheme \<Rightarrow> 'a job_tables_scheme" where
  "jobs_planSubmit index s = s\<lparr>jb_dialogIndex := index, jb_dialogVisible := True\<rparr>"

definition jobs_handleClose :: "'a job_tables_scheme \<Rightarrow> 'a job_tables_scheme" where
  "jobs_handleClose s = s\<lparr>jb_dialogConfirm := False\<rparr>"

definition goLink :: "jobs_cmd list" where
  "goLink = [RouterPush (ByName ''my_account_backupPlans'')]"

text \<open>\<open>copyTextToClipboard\<close>: the commands and what it returns; \<open>None\<close> when \<open>execCommand\<close> throws.\<close>

definition copyTextToClipboard :: "string \<Rightarrow> bool option \<Rightarrow> jobs_cmd list \<times> bool" where
  "copyTextToClipboard txt successful =
     ([DomCall (''append textarea '' @ txt), DomCall ''select''] @
      (if successful = Some True then [Toast ToastSuccess ''Success''] else []) @ [DomCall ''remove textarea''],
      successful = Some True)"

text \<open>The colour of the status column.\<close>

definition job_status_style :: "string \<Rightarrow> string" where
  "job_status_style status =
     (if status = ''Created'' then ''color: #0a318e'' else if status = ''Running'' then ''color: #ffb822''
      else if status = ''Completed'' then ''color: #1dc9b7'' else ''color: rgb(255, 184, 34)'')"

section \<open>Contracts\<close>

lemmas jobs_defs = details_getData_def jobs_getData_def volume_reply_def volume_answered_def rebuild_reply_def
  rebuild_answered_def stop_loading_def sort_backups_def sort_rebuilds_def details_set_loading_def jobs_set_loading_def

interpretation details_backups: loading_view
  "\<lambda>_. True" "\<lambda>s. fst (details_getData api token True s)" "\<lambda>r s. out_state (volume_reply moment_ms r s)" jb_loading sort_backups
  for api token moment_ms
  by unfold_locales (simp_all add: jobs_defs)

interpretation details_rebuilds: loading_view
  "\<lambda>_. True" "\<lambda>s. fst (details_getData api token False s)"
  "\<lambda>r s. out_state (rebuild_reply details_set_loading moment_ms r s)" jb_loading "sort_rebuilds details_set_loading"
  for api token moment_ms
  by unfold_locales (simp_all add: jobs_defs)

interpretation jobs_backups: loading_view
  "\<lambda>_. True" "\<lambda>s. fst (jobs_getData api token True s)" "\<lambda>r s. out_state (volume_reply moment_ms r s)" jb_loading sort_backups
  for api token moment_ms
  by unfold_locales (simp_all add: jobs_defs)

interpretation jobs_rebuilds: loading_view
  "\<lambda>_. True" "\<lambda>s. fst (jobs_getData api token False s)"
  "\<lambda>r s. out_state (rebuild_reply jobs_set_loading moment_ms r s)" mj_loading_rebuild "sort_rebuilds jobs_set_loading"
  for api token moment_ms
  by unfold_locales (simp_all add: jobs_defs)

interpretation rebuild_view: immediate_view
  "\<lambda>_. True" "\<lambda>s. fst (rebuild_confirm api token s)" "\<lambda>r s. fst (rebuildJob_reply moment_ms r s)" jb_loading
  for api token moment_ms
  by unfold_locales (simp_all add: rebuild_confirm_def)

section \<open>Due dates\<close>

text \<open>
  The due date of a job does not depend on the job: for a duration of \<open>d\<close> days the column shows \<open>d\<close>
  days and, in brackets, the moment \<open>d\<close> days after the 24th of August 2020, 22:01:11 UTC, whenever the
  job was created.
\<close>

theorem due_date_ignores_creation:
  assumes "bj_Duration j = dec_str (2880 * d)" "0 \<le> d" "d < 2 ^ 18"
  shows "sb_duration_time (show_backup moment_ms (j\<lparr>bj_CreatedOn := created\<rparr>))
       = moment_ms (num_of_int (1598306471000 + d * 86400000)) \<and>
    duration_days (bj_Duration (sb_job (show_backup moment_ms (j\<lparr>bj_CreatedOn := created\<rparr>)))) = dec_str d"
proof -
  have "0 \<le> 2880 * d" "2880 * d < 2 ^ 30" using assms(2,3) by simp_all
  then have "due_ms (dec_str (2880 * d)) = num_of_int (1000 * (30 * (2880 * d) + 1598306471))"
    by (rule due_ms_epochs)
  also have "1000 * (30 * (2880 * d) + 1598306471) = 1598306471000 + d * 86400000" by simp
  finally have "due_ms (dec_str (2880 * d)) = num_of_int (1598306471000 + d * 86400000)" .
  then show ?thesis
    using assms duration_days_epochs [of d] by (simp add: show_backup_def due_time_def)
qed

definition sample_job :: "int \<Rightarrow> backup_job" where
  "sample_job i =
     \<lparr>bj_ID = i, bj_Name = ''daily'', bj_CreatedOn = [], bj_MinerId = ''f01'', bj_Cost = Some ''0'', bj_DealCid = ''bafy'',
      bj_PayloadCid = ''bafk'', bj_Duration = ''518400'', bj_UpdatedOn = [], bj_Status = ''Completed''\<rparr>"

theorem due_date_ignores_creation_witness:
  "sb_duration_time (show_backup num_str ((sample_job 7)\<lparr>bj_Duration := dec_str (2880 * 180), bj_CreatedOn := ''1640995200000000''\<rparr>))
     = num_str (num_of_int (1598306471000 + 180 * 86400000))"
  using due_date_ignores_creation [of "(sample_job 7)\<lparr>bj_Duration := dec_str (2880 * 180)\<rparr>" 180 num_str "''1640995200000000''"]
  by simp

section \<open>Which job is rebuilt\<close>

text \<open>
  An open dialog aims at the id \<open>c\<close>; while one of \<open>n\<close> rebuild requests is in flight it is the only one,
  the spinner is on and the dialog closed. The runs of the pages are in theories Account_Views and Jobs_View.
\<close>

definition aims_at :: "'a job_tables_scheme \<Rightarrow> int option \<Rightarrow> nat \<Rightarrow> bool" where
  "aims_at s c n \<longleftrightarrow>
     (jb_dialogVisible s \<longrightarrow> c \<noteq> None \<and> jt_ID (jb_backupPlan s) = c) \<and>
     (0 < n \<longrightarrow> n = 1 \<and> jb_loading s \<and> \<not> jb_dialogVisible s)"

lemma volume_reply_dialog:
  fixes s :: "'a job_tables_scheme"
  shows "jb_dialogVisible (out_state (volume_reply moment_ms l s)) = jb_dialogVisible s \<and>
    jb_backupPlan (out_state (volume_reply moment_ms l s)) = jb_backupPlan s"
proof (cases l)
  case (RestSuccess a)
  obtain jobs k where a: "a = (jobs, k)" by (cases a)
  show ?thesis
    by (cases jobs) (simp_all add: RestSuccess a volume_reply_def volume_answered_def stop_loading_def Let_def)
qed (simp_all add: volume_reply_def volume_answered_def stop_loading_def)

definition listed_jobs :: details where
  "listed_jobs = sort_backups (out_state (volume_reply num_str (RestSuccess (Some [sample_job 7, sample_job 8], 12)) details_init))"

lemma listed_jobs_fields:
  "jb_tableData listed_jobs = Some (map (show_backup num_str) [sample_job 7, sample_job 8])"
  "\<not> jb_loading listed_jobs" "\<not> jb_dialogVisible listed_jobs" "\<not> jb_dialogConfirm listed_jobs" "\<not> jb_dialogDis listed_jobs"
  "jb_parma listed_jobs = \<lparr>pg_limit = 10, pg_offset = 1, pg_total = 12\<rparr>"
  by (simp_all add: listed_jobs_def details_init_def volume_reply_def volume_answered_def sort_backups_def Let_def
      show_backup_def sample_job_def pager_init_def)

end
