(* ===== verification/Dashboard.thy ===== *)
theory Dashboard
  imports Job_Tables
begin

text \<open>
  The overview of the account (\<open>views/myAccount/dashboard/index.vue\<close>), with a card of counters for the
  backup and one for the rebuild jobs, and the texts of the introduction page
  (\<open>components/fs3Backup.vue\<close>).
\<close>

record card =
  cd_title :: string
  cd_btn :: string
  cd_inProcessJobs :: int
  cd_completedJobs :: int
  cd_failedJobs :: int

record job_counts =
  jc_inProcess :: int
  jc_completed :: int
  jc_failed :: int

record dashboard =
  db_backup :: card
  db_rebuild :: card

datatype dashboard_tag = BackupCounts | RebuildCounts

definition dashboard_init :: dashboard where
  "dashboard_init =
     \<lparr>db_backup = \<lparr>cd_title = ''Your backup jobs'', cd_btn = ''All backup jobs details'', cd_inProcessJobs = 0,
        cd_completedJobs = 0, cd_failedJobs = 0\<rparr>,
      db_rebuild = \<lparr>cd_title = ''Your rebuild jobs'', cd_btn = ''All rebuild jobs details'', cd_inProcessJobs = 0,
        cd_completedJobs = 0, cd_failedJobs = 0\<rparr>\<rparr>"

text \<open>The button of the card with an index.\<close>

definition dashboard_link :: "nat \<Rightarrow> dashboard_tag cmd list" where
  "dashboard_link index =
     [RouterPush (ByNameParams ''my_account_dashboard_detail''
        [(''type'', if index \<noteq> 0 then ''rebuild_job'' else ''backup_job'')])]"

definition dashboard_getData :: "string \<Rightarrow> string \<Rightarrow> dashboard_tag cmd list" where
  "dashboard_getData api token =
     (let params = JObj [(''Offset'', JInt 0), (''Limit'', JInt 10)]
      in [Request BackupCounts (axios_post (api @ ''/minio/backup/retrieve/volume'') params token),
          Request RebuildCounts (axios_post (api @ ''/minio/rebuild/retrieve/volume'') params token)])"

definition set_counts :: "job_counts \<Rightarrow> card \<Rightarrow> card" where
  "set_counts c d = d\<lparr>cd_inProcessJobs := jc_inProcess c, cd_completedJobs := jc_completed c, cd_failedJobs := jc_failed c\<rparr>"

fun counts_reply :: "dashboard_tag \<Rightarrow> job_counts rest_reply \<Rightarrow> dashboard \<Rightarrow> dashboard \<times> dashboard_tag cmd list" where
  "counts_reply BackupCounts (RestSuccess c) s = (s\<lparr>db_backup := set_counts c (db_backup s)\<rparr>, [])"
| "counts_reply RebuildCounts (RestSuccess c) s = (s\<lparr>db_rebuild := set_counts c (db_rebuild s)\<rparr>, [])"
| "counts_reply tag (RestRefused m) s = (s, [Toast ToastError m])"
| "counts_reply tag (RestFailure c) s = (s, [])"

definition dashboard_mounted :: "string \<Rightarrow> string \<Rightarrow> dashboard \<Rightarrow> dashboard \<times> dashboard_tag cmd list" where
  "dashboard_mounted api token s = (s, dashboard_getData api token)"

lemma counts_commute:
  "fst (counts_reply RebuildCounts r (fst (counts_reply BackupCounts b s)))
     = fst (counts_reply BackupCounts b (fst (counts_reply RebuildCounts r s)))"
  by (cases r; cases b) simp_all

definition conList :: "(string \<times> string) list" where
  "conList =
     [(''Upload resources'', ''Start with your backup by creating buckets and uploading resources.''),
      (''Choose your plan'', ''Choose your backup plan based on frequency, duration,and price of your backup resources.''),
      (''Create successfully'',
       ''Users can check all created backup plans at My Plans. FS3 also offers rebuilt services of buckets at Dashboard.'')]"

end
