(* ===== verification/App_Frame.thy ===== *)
theory App_Frame
  imports Slide View_Helpers Build_Tools "HOL-Library.Multiset"
begin

text \<open>
  How the frame (\<open>components/Home.vue\<close>) and the two components it shows, the side bar and the file page,
  work together: the listeners its template attaches to their events, the properties it hands down, the
  watchers that run when a property changed, and what the user and the server can do to the three of
  them while the file page is shown. The lemmas say when page and frame agree on the folder.
\<close>

section \<open>Events to the frame\<close>

text \<open>A missing argument is \<open>undefined\<close>, which the listeners only test.\<close>

definition arg_truthy :: "nat \<Rightarrow> json list \<Rightarrow> bool" where
  "arg_truthy i args \<longleftrightarrow> i < length args \<and> json_truthy (args ! i)"

definition arg_text :: "nat \<Rightarrow> json list \<Rightarrow> string" where
  "arg_text i args = (if i < length args then (case args ! i of JStr t \<Rightarrow> t | _ \<Rightarrow> []) else [])"

text \<open>The listeners on the side bar; \<open>None\<close> when the template has none for the event.\<close>

definition slide_listener :: "string \<Rightarrow> string \<Rightarrow> string \<Rightarrow> json list \<Rightarrow> home \<Rightarrow> (home, home_cmd) outcome option" where
  "slide_listener api token e args h =
     (if e = ''homeClickFun'' then Some (Done (homeClickFun (arg_truthy 0 args) h) [])
      else if e = ''getshareHome'' then
        Some (Done (home_getshareHome (arg_truthy 0 args) (arg_truthy 1 args) (arg_truthy 2 args) h) [])
      else if e = ''getretrievalHome'' then Some (Done (home_getretrievalDialog (arg_truthy 0 args) h) [])
      else if e = ''getminioListBucket'' then
        Some (getminioListBucket api token (arg_text 0 args) (arg_truthy 1 args) (arg_truthy 2 args) (arg_truthy 3 args) h)
      else if e = ''getListBuckets'' then (case getListBuckets api token (arg_text 0 args) h of (h', cs) \<Rightarrow> Some (Done h' cs))
      else if e = ''getMenuStretch'' then Some (Done (home_getMenuStretch (arg_truthy 0 args) h) [])
      else None)"

text \<open>The listeners on the file page; \<open>data\<close> is the table a \<open>getRemoveObject\<close> event carries.\<close>

definition page_listener :: "string \<Rightarrow> string \<Rightarrow> s3_object list option \<Rightarrow> string \<Rightarrow> json list \<Rightarrow> home \<Rightarrow> (home, home_cmd) outcome option" where
  "page_listener api token data e args h =
     (if e = ''getDialogClose'' then Some (Done (getDialogClose (arg_truthy 0 args) (arg_truthy 1 args) h) [])
      else if e = ''getaboutServer'' then
        (case getMakeBucket api token (arg_text 0 args) (arg_truthy 1 args) (arg_text 2 args) (arg_text 3 args) h of
           (h', cs) \<Rightarrow> Some (Done h' cs))
      else if e = ''getRemoveObject'' then map_option (\<lambda>d. Done (home_getRemoveObject d h) []) data
      else if e = ''getListObjects'' then Some (getListObjects api token (arg_text 0 args) (arg_text 1 args) h)
      else None)"

text \<open>
  The events among a handler's commands reach the frame in order; an exception of a listener is reported
  by the framework and does not stop the handler that emitted the event.
\<close>

fun run_events :: "(string \<Rightarrow> json list \<Rightarrow> home \<Rightarrow> (home, home_cmd) outcome option) \<Rightarrow> 'r cmd list \<Rightarrow> home \<Rightarrow> home \<times> home_cmd list" where
  "run_events listen [] h = (h, [])"
| "run_events listen (Emit e args # cs) h =
     (case listen e args h of
        None \<Rightarrow> run_events listen cs h
      | Some m \<Rightarrow> (let (h', ds) = run_events listen cs (out_state m) in (h', out_cmds m @ ds)))"
| "run_events listen (_ # cs) h = run_events listen cs h"

text \<open>
  The contract of a child with the frame: the events it may send, and what the listeners keep when they hear
  one. Then a handler that sends only such events keeps it, whatever else it does.
\<close>

locale listener =
  fixes listen :: "string \<Rightarrow> json list \<Rightarrow> home \<Rightarrow> (home, home_cmd) outcome option"
    and may_send :: "string \<Rightarrow> json list \<Rightarrow> bool"
    and keeps :: "home \<Rightarrow> home \<Rightarrow> bool"
  assumes keeps_refl: "keeps h h"
    and keeps_trans: "keeps h h1 \<Longrightarrow> keeps h1 h2 \<Longrightarrow> keeps h h2"
    and heard: "may_send e args \<Longrightarrow> listen e args h = Some m \<Longrightarrow> keeps h (out_state m)"
begin

lemma run_keeps:
  assumes "\<And>e args. Emit e args \<in> set cs \<Longrightarrow> may_send e args"
  shows "keeps h (fst (run_events listen cs h))"
  using assms
proof (induction cs arbitrary: h)
  case (Cons c cs)
  then have rest: "keeps h' (fst (run_events listen cs h'))" for h' by simp
  show ?case
  proof (cases c)
    case (Emit e args)
    have "may_send e args" using Cons.prems [of e args] Emit by simp
    show ?thesis
    proof (cases "listen e args h")
      case None
      then show ?thesis using rest by (simp add: Emit)
    next
      case (Some m)
      from keeps_trans [OF heard [OF \<open>may_send e args\<close> Some] rest] show ?thesis by (simp add: Emit Some case_prod_unfold Let_def)
    qed
  qed (use rest in simp_all)
qed (simp add: keeps_refl)

end

section \<open>Properties and watchers\<close>

record app_frame =
  fr_home :: home
  fr_slide :: slide
  fr_view :: browser_view

text \<open>
  The watchers of the file page, in the order they are declared; \<open>relisted\<close> when the frame assigned a new
  listing since the last flush, \<open>h0\<close> the frame at the last flush. An exception of a watcher is reported
  and the next one runs.
\<close>

definition page_flush :: "(string \<Rightarrow> string) \<Rightarrow> bool \<Rightarrow> home \<Rightarrow> home \<Rightarrow> browser_view \<Rightarrow> browser_view" where
  "page_flush fmt relisted h0 h v =
     (let v1 = (if relisted then aboutListData fmt (hm_listing h) v else v);
          v2 = (if hm_currentBucket h \<noteq> bv_currentBucket v1 then watch_currentBucket (hm_currentBucket h) v1 else v1);
          v3 = (if hm_slideListClick h \<noteq> hm_slideListClick h0 then out_state (watch_slideListClick v2) else v2);
          v4 = (if hm_addFileClick h \<noteq> hm_addFileClick h0 then out_state (watch_addFileClick v3) else v3)
      in if hm_uploadClick h \<noteq> hm_uploadClick h0 then watch_uploadClick v4 else v4)"

definition slide_flush :: "bool \<Rightarrow> home \<Rightarrow> slide \<Rightarrow> slide" where
  "slide_flush relisted h s =
     (let s1 = s\<lparr>sl_currentBucket := hm_currentBucket h, sl_homeClick := hm_homeClick h\<rparr>
      in if relisted then receive_buckets (map_option (map (\<lambda>n. \<lparr>bk_name = n, bk_show = False\<rparr>)) (hm_buckets h)) s1 else s1)"

definition frame_flush :: "(string \<Rightarrow> string) \<Rightarrow> bool \<Rightarrow> bool \<Rightarrow> home \<Rightarrow> app_frame \<Rightarrow> app_frame" where
  "frame_flush fmt new_listing new_buckets h f =
     f\<lparr>fr_home := h, fr_slide := slide_flush new_buckets h (fr_slide f),
       fr_view := page_flush fmt new_listing (fr_home f) h (fr_view f)\<rparr>"

text \<open>A handler of the file page or of the side bar ran: its events, then the watchers.\<close>

definition page_handled :: "string \<Rightarrow> string \<Rightarrow> (string \<Rightarrow> string) \<Rightarrow> s3_object list option \<Rightarrow> browser_view \<Rightarrow> bv_cmd list \<Rightarrow> app_frame \<Rightarrow> app_frame" where
  "page_handled api token fmt data v cs f =
     frame_flush fmt False False (fst (run_events (page_listener api token data) cs (fr_home f))) (f\<lparr>fr_view := v\<rparr>)"

definition slide_handled :: "string \<Rightarrow> string \<Rightarrow> (string \<Rightarrow> string) \<Rightarrow> slide \<Rightarrow> slide_cmd list \<Rightarrow> app_frame \<Rightarrow> app_frame" where
  "slide_handled api token fmt s cs f =
     frame_flush fmt False False (fst (run_events (slide_listener api token) cs (fr_home f))) (f\<lparr>fr_slide := s\<rparr>)"

section \<open>What happens while the file page is shown\<close>

datatype frame_event =
    ClickBucket string bool bool \<comment> \<open>a bucket of the side bar, by its name\<close>
  | ClickFolder string \<comment> \<open>a row of the table that is a folder\<close>
  | ClickCrumb nat
  | ClickMark nat bool
  | ClickMenu nat bool
  | ClickSort string string
  | ClickDelete string
  | ClickDeleteMarked
  | ClickToggle
  | ClickAnywhere
  | MenuOpens "nat option"
  | ListingAnswer "listing rpc_reply"
  | DeletionAnswer string "unit rpc_reply"
  | UploadEvent string upload_event
  | BucketsAnswer string "int option + (string + string list option)" \<comment> \<open>with the bucket it was asked for\<close>
  | FormTyped string \<comment> \<open>the name in the dialog that creates a bucket\<close>
  | PathEdited
  | PathTyped string
  | PathLeft
  | EnterPressed
  | CreationAnswer string "unit rpc_reply" \<comment> \<open>of a bucket named in the dialog\<close>

definition page_cmds :: "string \<Rightarrow> string \<Rightarrow> s3_object list option \<Rightarrow> bv_cmd list \<Rightarrow> app_frame \<Rightarrow> home_cmd list" where
  "page_cmds api token data cs f = snd (run_events (page_listener api token data) cs (fr_home f))"

definition slide_cmds :: "string \<Rightarrow> string \<Rightarrow> slide_cmd list \<Rightarrow> app_frame \<Rightarrow> home_cmd list" where
  "slide_cmds api token cs f = snd (run_events (slide_listener api token) cs (fr_home f))"

text \<open>One event: the three components after it, and the commands of the frame.\<close>

definition react :: "string \<Rightarrow> string \<Rightarrow> (string \<Rightarrow> string) \<Rightarrow> frame_event \<Rightarrow> app_frame \<Rightarrow> app_frame \<times> home_cmd list" where
  "react api token fmt ev f =
     (let v = fr_view f; h = fr_home f;
          page = (\<lambda>data (v', cs). (page_handled api token fmt data v' cs f, page_cmds api token data cs f));
          side = (\<lambda>(s, cs). (slide_handled api token fmt s cs f, slide_cmds api token cs f));
          frame = (\<lambda>new_listing new_buckets m. (frame_flush fmt new_listing new_buckets (out_state m) f, out_cmds m))
      in case ev of
        ClickBucket name silde push \<Rightarrow> side (getListBucket name True silde push (fr_slide f))
      | ClickFolder x \<Rightarrow> page None (curListFolder (folder_key (bv_prefixName v) x) v)
      | ClickCrumb i \<Rightarrow> page None (buckerAdress i v)
      | ClickMark i now \<Rightarrow> page None (out_state (drawPlay i now v), out_cmds (drawPlay i now v))
      | ClickMenu i now \<Rightarrow> page None (out_state (actClient i now v), out_cmds (actClient i now v))
      | ClickSort field order_text \<Rightarrow> page None (changeTableSort field order_text v, [])
      | ClickDelete name \<Rightarrow> page None (deleteBtn name v, [])
      | ClickDeleteMarked \<Rightarrow> page None (deleteListFun api token v)
      | ClickToggle \<Rightarrow> frame False False (Done (addToggle h) [])
      | ClickAnywhere \<Rightarrow> frame False False (Done (wrapperClick h) [])
      | MenuOpens i \<Rightarrow> side (menu_tick i (fr_slide f))
      | ListingAnswer r \<Rightarrow> frame (rpc_ok r) False (case objects_reply r h of (h', cs) \<Rightarrow> Done h' cs)
      | DeletionAnswer obj r \<Rightarrow> (case remove_reply obj r (v, None) of ((v', data), cs) \<Rightarrow> page data (v', cs))
      | UploadEvent file e \<Rightarrow> frame False False (upload_event api token file e h)
      | BucketsAnswer name r \<Rightarrow> frame False (\<not> isl r \<and> \<not> isl (projr r)) (buckets_reply api token name r h)
      | FormTyped t \<Rightarrow> page None (v\<lparr>bv_form_name := t\<rparr>, [])
      | PathEdited \<Rightarrow> page None (editFun v)
      | PathTyped t \<Rightarrow> page None (v\<lparr>bv_name_file := t\<rparr>, [])
      | PathLeft \<Rightarrow> page None (editFileFun v, [])
      | EnterPressed \<Rightarrow> page None (onkeydown 13 v)
      | CreationAnswer name r \<Rightarrow> frame False False (makeBucket_reply api token name [] [] r h))"

definition perform :: "string \<Rightarrow> string \<Rightarrow> (string \<Rightarrow> string) \<Rightarrow> frame_event \<Rightarrow> app_frame \<Rightarrow> app_frame" where
  "perform api token fmt ev f = fst (react api token fmt ev f)"

lemmas perform_defs = perform_def react_def

text \<open>
  What may happen: buckets have names without slashes, a folder of the current listing is the prefix,
  a name and a slash, the breadcrumbs and rows that can be clicked are those on display. Left out is what
  parts page and frame: a list of buckets, or the creation of a bucket, that is answered while the page is inside a
  folder, a path of another bucket that is submitted (for the first, \<open>buckets_answer_parts\<close> below; for the others the last
  sections of theory Frame_Folders and theory Spec2Isabelle), and a page that is left inside a folder and opened
  again. No control of the template is bound to \<open>changeTableSort\<close>; \<open>ClickSort\<close> is there for what it would do.
\<close>

fun offered :: "frame_event \<Rightarrow> app_frame \<Rightarrow> bool" where
  "offered (ClickBucket name silde push) f \<longleftrightarrow> name \<noteq> [] \<and> CHR ''/'' \<notin> set name"
| "offered (ClickFolder x) f \<longleftrightarrow> x \<noteq> [] \<and> CHR ''/'' \<notin> set x"
| "offered (ClickCrumb i) f \<longleftrightarrow> i < length (bv_currentBucketAll (fr_view f))"
| "offered (ClickMark i now) f \<longleftrightarrow> i < length (bv_tableData (fr_view f))"
| "offered (ClickMenu i now) f \<longleftrightarrow> i < length (bv_tableData (fr_view f))"
| "offered (BucketsAnswer name (Inr (Inr bs))) f \<longleftrightarrow> bv_prefixName (fr_view f) = [] \<and> CHR ''/'' \<notin> set name \<and>
     (\<exists>b cs. bs = Some (b # cs) \<and> b \<noteq> [] \<and> CHR ''/'' \<notin> set b)"
| "offered (CreationAnswer name (RpcResult u)) f \<longleftrightarrow> bv_prefixName (fr_view f) = [] \<and> name \<noteq> [] \<and> CHR ''/'' \<notin> set name"
| "offered EnterPressed f \<longleftrightarrow> bv_editNameFile (fr_view f) \<or> bv_name_file (fr_view f) = [] \<or>
     path_pieces (bv_name_file (fr_view f)) \<noteq> [] \<and> hd (path_pieces (bv_name_file (fr_view f))) = bv_currentBucket (fr_view f)"
| "offered ev f \<longleftrightarrow> True"

text \<open>The file page appears: the router creates it afresh from the frame's properties.\<close>

definition open_page :: "(string \<Rightarrow> string) \<Rightarrow> home \<Rightarrow> slide \<Rightarrow> app_frame" where
  "open_page fmt h s =
     \<lparr>fr_home = h, fr_slide = s\<lparr>sl_currentBucket := hm_currentBucket h, sl_homeClick := hm_homeClick h\<rparr>,
      fr_view = bv_mounted fmt (hm_listing h) (bv_init (hm_currentBucket h))\<rparr>"

inductive frame_run :: "string \<Rightarrow> string \<Rightarrow> (string \<Rightarrow> string) \<Rightarrow> app_frame \<Rightarrow> bool"
  for api token :: string and fmt :: "string \<Rightarrow> string" where
  opened_page: "hm_currentBucket h \<noteq> [] \<Longrightarrow> CHR ''/'' \<notin> set (hm_currentBucket h) \<Longrightarrow> hm_prefixData h = [] \<Longrightarrow>
    frame_run api token fmt (open_page fmt h s)"
| happened: "frame_run api token fmt f \<Longrightarrow> offered ev f \<Longrightarrow> frame_run api token fmt (perform api token fmt ev f)"

section \<open>Agreement of frame and page\<close>

definition table_names :: "browser_view \<Rightarrow> string multiset" where
  "table_names v = mset (map rw_name (bv_tableData v))"

definition listing_names :: "listing \<Rightarrow> string multiset" where
  "listing_names l = mset (map ob_name (case ls_objects l of None \<Rightarrow> [] | Some objs \<Rightarrow> objs))"

definition same_folder :: "app_frame \<Rightarrow> bool" where
  "same_folder f \<longleftrightarrow>
     hm_currentBucket (fr_home f) \<noteq> [] \<and> CHR ''/'' \<notin> set (hm_currentBucket (fr_home f)) \<and>
     bv_currentBucket (fr_view f) = hm_currentBucket (fr_home f) \<and>
     bv_prefixName (fr_view f) = hm_prefixData (fr_home f) \<and>
     crumbs_ok (fr_view f) \<and> hd (bv_currentBucketAll (fr_view f)) = hm_currentBucket (fr_home f)"

definition same_names :: "app_frame \<Rightarrow> bool" where
  "same_names f \<longleftrightarrow> table_names (fr_view f) = listing_names (hm_listing (fr_home f))"

text \<open>What the handlers of the page leave unchanged.\<close>

definition folder_of :: "browser_view \<Rightarrow> string \<times> string list \<times> string" where
  "folder_of v = (bv_currentBucket v, bv_currentBucketAll v, bv_prefixName v)"

lemma folder_of_eq:
  "folder_of v = folder_of w \<longleftrightarrow> bv_currentBucket v = bv_currentBucket w \<and>
     bv_currentBucketAll v = bv_currentBucketAll w \<and> bv_prefixName v = bv_prefixName w"
  by (simp add: folder_of_def)

lemma drawPlayClose_frame [frame_simps]:
  "folder_of (drawPlayClose v) = folder_of v" "table_names (drawPlayClose v) = table_names v"
  by (simp_all add: drawPlayClose_def table_names_def folder_of_def image_mset.compositionality comp_def)

lemma drawPlay_frame [frame_simps]:
  "folder_of (out_state (drawPlay i now v)) = folder_of v" "table_names (out_state (drawPlay i now v)) = table_names v"
  "out_cmds (drawPlay i now v) = []"
proof -
  have names: "map rw_name ((bv_tableData v)[i := (bv_tableData v ! i)\<lparr>rw_drawShow := \<not> now\<rparr>]) = map rw_name (bv_tableData v)"
    by (cases "i < length (bv_tableData v)") (simp_all add: map_update list_update_same_conv list_update_beyond)
  then show "table_names (out_state (drawPlay i now v)) = table_names v"
    by (auto simp: drawPlay_def Let_def table_names_def drawPlayClose_def comp_def split: prod.split simp flip: mset_map)
  show "folder_of (out_state (drawPlay i now v)) = folder_of v" "out_cmds (drawPlay i now v) = []"
    by (auto simp: drawPlay_def Let_def drawPlayClose_def folder_of_def split: prod.split)
qed

lemma actClient_frame [frame_simps]:
  "folder_of (out_state (actClient i now v)) = folder_of v" "table_names (out_state (actClient i now v)) = table_names v"
  "set (out_cmds (actClient i now v)) \<subseteq> {Emit ''getDialogClose'' [JBool False, JBool False]}"
proof -
  let ?closed = "map (\<lambda>r. r\<lparr>rw_dropShow := False\<rparr>) (bv_tableData v)"
  have closed: "map rw_name ?closed = map rw_name (bv_tableData v)" by (simp add: comp_def)
  have names: "map rw_name (?closed[i := (?closed ! i)\<lparr>rw_dropShow := b\<rparr>]) = map rw_name (bv_tableData v)" for b
    using closed by (cases "i < length ?closed") (simp_all add: map_update list_update_same_conv list_update_beyond del: map_map)
  show "table_names (out_state (actClient i now v)) = table_names v"
    using names closed
    by (auto simp: actClient_def Let_def table_names_def drawPlayClose_def comp_def simp del: nth_map simp flip: mset_map)
  show "folder_of (out_state (actClient i now v)) = folder_of v"
    "set (out_cmds (actClient i now v)) \<subseteq> {Emit ''getDialogClose'' [JBool False, JBool False]}"
    by (auto simp: actClient_def Let_def drawPlayClose_def folder_of_def)
qed

lemma aboutListData_frame [frame_simps]:
  "folder_of (aboutListData fmt l v) = folder_of v" "table_names (aboutListData fmt l v) = listing_names l"
  by (simp_all add: aboutListData_def folder_of_def table_names_def listing_names_def row_of_def
      image_mset.compositionality comp_def split: option.split)

lemma mset_insert_row: "mset (insert_row before r rs) = add_mset r (mset rs)"
  by (induction rs) auto

lemma sort_frame [frame_simps]:
  "folder_of (changeTableSort field order_text v) = folder_of v"
  "table_names (changeTableSort field order_text v) = table_names v"
proof -
  have "mset (fold (insert_row before) rs acc) = mset rs + mset acc" for before rs acc
    by (induction rs arbitrary: acc) (simp_all add: mset_insert_row)
  then show "table_names (changeTableSort field order_text v) = table_names v"
    by (simp add: changeTableSort_def table_names_def)
qed (simp add: changeTableSort_def folder_of_def)

lemma watch_click_frame:
  "bv_currentBucket (out_state (watch_slideListClick v)) = bv_currentBucket v"
  "bv_currentBucketAll (out_state (watch_slideListClick v)) = split_on CHR ''/'' (bv_currentBucket v)"
  "bv_prefixName (out_state (watch_slideListClick v)) = []"
  "table_names (out_state (watch_slideListClick v)) = table_names v"
  using actClient_frame [of 0 False] drawPlayClose_frame
  by (simp_all add: watch_slideListClick_def folder_of_eq) (simp add: table_names_def)

lemma flush_names:
  "table_names (fr_view (frame_flush fmt new_listing new_buckets h f))
     = (if new_listing then listing_names (hm_listing h) else table_names (fr_view f))"
proof -
  have "table_names (watch_currentBucket b v) = table_names v" for b v
    by (simp add: watch_currentBucket_def table_names_def)
  then show ?thesis
    by (simp add: frame_flush_def page_flush_def Let_def watch_click_frame watch_addFileClick_def watch_uploadClick_def frame_simps)
qed

lemma flush_home [simp]: "fr_home (frame_flush fmt new_listing new_buckets h f) = h"
  by (simp add: frame_flush_def)

lemma crumbs_ok_cong: "folder_of v = folder_of w \<Longrightarrow> crumbs_ok v = crumbs_ok w"
  by (simp add: crumbs_ok_def folder_of_eq)

text \<open>A flush that found no bucket click and the page's own bucket.\<close>

lemma flush_folder_of:
  assumes "bv_currentBucket (fr_view f) = hm_currentBucket h" "hm_slideListClick h = hm_slideListClick (fr_home f)"
  shows "folder_of (fr_view (frame_flush fmt new_listing new_buckets h f)) = folder_of (fr_view f)"
proof -
  have "bv_currentBucket (aboutListData fmt l v) = bv_currentBucket v" for l v
    by (simp add: aboutListData_def)
  then show ?thesis
    using assms
    by (simp add: frame_flush_def page_flush_def Let_def watch_addFileClick_def watch_uploadClick_def frame_simps)
qed

lemma flush_same_folder:
  assumes "hm_currentBucket h \<noteq> []" "CHR ''/'' \<notin> set (hm_currentBucket h)"
    and "bv_currentBucket (fr_view f) = hm_currentBucket h" "bv_prefixName (fr_view f) = hm_prefixData h"
    and "crumbs_ok (fr_view f)" "hd (bv_currentBucketAll (fr_view f)) = hm_currentBucket h"
    and "hm_slideListClick h = hm_slideListClick (fr_home f)"
  shows "same_folder (frame_flush fmt new_listing new_buckets h f)"
  using assms(1-6) flush_folder_of [OF assms(3,7)] crumbs_ok_cong [OF flush_folder_of [OF assms(3,7)]]
  by (simp add: same_folder_def folder_of_eq)

text \<open>The fields of the frame that the page depends on, and the events that leave them alone.\<close>

definition core_of :: "home \<Rightarrow> string \<times> string \<times> listing \<times> int" where
  "core_of h = (hm_currentBucket h, hm_prefixData h, hm_listing h, hm_slideListClick h)"

lemma core_of_eq:
  "core_of h = core_of g \<longleftrightarrow> hm_currentBucket h = hm_currentBucket g \<and> hm_prefixData h = hm_prefixData g \<and>
     hm_listing h = hm_listing g \<and> hm_slideListClick h = hm_slideListClick g"
  by (simp add: core_of_def)

text \<open>The page closing its dialog or asking for a new bucket, and the side bar opening a menu.\<close>

interpretation page_quiet: listener "page_listener api token data" "\<lambda>e args. e \<in> {''getDialogClose'', ''getaboutServer''}"
    "\<lambda>h h'. core_of h' = core_of h"
  for api token data
  by unfold_locales (auto simp: page_listener_def getDialogClose_def getMakeBucket_def Let_def core_of_def)

interpretation menu_quiet: listener "slide_listener api token" "\<lambda>e args. e = ''homeClickFun''" "\<lambda>h h'. core_of h' = core_of h"
  for api token
  by unfold_locales (auto simp: slide_listener_def homeClickFun_def core_of_def)

lemma quiet_event:
  assumes "same_folder f" "same_names f" "core_of h = core_of (fr_home f)"
    and "folder_of v = folder_of (fr_view f)" "table_names v = table_names (fr_view f)"
  shows "same_folder (frame_flush fmt False new_buckets h (f\<lparr>fr_view := v\<rparr>)) \<and>
    same_names (frame_flush fmt False new_buckets h (f\<lparr>fr_view := v\<rparr>))"
proof
  show "same_folder (frame_flush fmt False new_buckets h (f\<lparr>fr_view := v\<rparr>))"
    using assms crumbs_ok_cong [OF assms(4)] by (intro flush_same_folder) (simp_all add: same_folder_def folder_of_eq core_of_eq)
  show "same_names (frame_flush fmt False new_buckets h (f\<lparr>fr_view := v\<rparr>))"
    using assms by (simp add: same_names_def flush_names core_of_eq)
qed

lemma run_events_append:
  "run_events listen (cs @ ds) h =
     (fst (run_events listen ds (fst (run_events listen cs h))),
      snd (run_events listen cs h) @ snd (run_events listen ds (fst (run_events listen cs h))))"
  by (induction listen cs h rule: run_events.induct) (auto simp: Let_def case_prod_unfold split: option.split)

lemma run_events_requests:
  "(\<And>e args. Emit e args \<notin> set cs) \<Longrightarrow> run_events listen cs h = (h, [])"
  by (induction listen cs h rule: run_events.induct) auto

lemma listing_answer_agrees:
  assumes "same_folder f" "same_names f"
  shows "same_folder (frame_flush fmt (rpc_ok r) new_buckets (fst (objects_reply r (fr_home f))) f) \<and>
    same_names (frame_flush fmt (rpc_ok r) new_buckets (fst (objects_reply r (fr_home f))) f)"
proof
  show "same_folder (frame_flush fmt (rpc_ok r) new_buckets (fst (objects_reply r (fr_home f))) f)"
    using assms(1) by (intro flush_same_folder; cases r) (simp_all add: same_folder_def)
  show "same_names (frame_flush fmt (rpc_ok r) new_buckets (fst (objects_reply r (fr_home f))) f)"
    using assms(2) by (cases r) (simp_all add: same_names_def flush_names)
qed

lemma deletion_answer_agrees:
  assumes "same_folder f" "same_names f" "remove_reply obj r (fr_view f, None) = ((v', data), cs)"
  shows "same_folder (page_handled api token fmt data v' cs f) \<and> same_names (page_handled api token fmt data v' cs f)"
proof (cases r)
  case (RpcResult u)
  define rows where "rows = remove_while_mapping obj (length (bv_tableData (fr_view f))) 0 (bv_tableData (fr_view f))"
  have v': "v' = (fr_view f)\<lparr>bv_tableData := rows, bv_deleteDialogVisible := False\<rparr>"
    "data = Some (map object_of rows)" "cs = [Emit ''getRemoveObject'' []]"
    using assms(3) by (simp_all add: RpcResult Let_def rows_def)
  have "crumbs_ok v' = crumbs_ok (fr_view f)" by (rule crumbs_ok_cong) (simp add: v' folder_of_def)
  then have "same_folder (page_handled api token fmt data v' cs f)"
    using assms(1) unfolding page_handled_def
    by (intro flush_same_folder) (simp_all add: same_folder_def v' page_listener_def home_getRemoveObject_def)
  moreover have "table_names (fr_view (page_handled api token fmt data v' cs f)) = table_names v'"
    by (simp add: page_handled_def flush_names)
  moreover have "listing_names (hm_listing (fr_home (page_handled api token fmt data v' cs f))) = table_names v'"
    by (simp add: page_handled_def v' page_listener_def home_getRemoveObject_def listing_names_def table_names_def
        object_of_def image_mset.compositionality comp_def)
  ultimately show ?thesis by (simp add: same_names_def)
qed (use assms quiet_event [OF assms(1,2), of "fr_home f" "fr_view f"] in \<open>auto simp: page_handled_def\<close>)

text \<open>An event of the page that asks for a folder of its bucket.\<close>

lemma page_asks_home:
  assumes "same_folder f" "bv_currentBucket v = bv_currentBucket (fr_view f)"
  shows "page_handled api token fmt None v [emit_list v] f
    = frame_flush fmt False False ((fr_home f)\<lparr>hm_prefixData := bv_prefixName v\<rparr>) (f\<lparr>fr_view := v\<rparr>)"
proof -
  have "bv_currentBucket v \<noteq> []" "bv_currentBucket v = hm_currentBucket (fr_home f)"
    using assms by (simp_all add: same_folder_def)
  then have "fst (run_events (page_listener api token None) [emit_list v] (fr_home f)) = (fr_home f)\<lparr>hm_prefixData := bv_prefixName v\<rparr>"
    by (simp add: emit_list_def page_listener_def arg_text_def getListObjects_named)
  then show ?thesis by (simp only: page_handled_def)
qed

lemma page_asks_agrees:
  assumes "same_folder f" "same_names f" "crumbs_ok v" "bv_currentBucketAll v \<noteq> []"
    and "hd (bv_currentBucketAll v) = hd (bv_currentBucketAll (fr_view f))"
    and "bv_currentBucket v = bv_currentBucket (fr_view f)" "table_names v = table_names (fr_view f)"
  shows "same_folder (page_handled api token fmt None v [emit_list v] f) \<and>
    same_names (page_handled api token fmt None v [emit_list v] f) \<and>
    folder_of (fr_view (page_handled api token fmt None v [emit_list v] f)) = folder_of v"
  unfolding page_asks_home [OF assms(1,6)]
proof (intro conjI)
  let ?g = "frame_flush fmt False False ((fr_home f)\<lparr>hm_prefixData := bv_prefixName v\<rparr>) (f\<lparr>fr_view := v\<rparr>)"
  show "same_folder ?g" using assms by (intro flush_same_folder) (simp_all add: same_folder_def)
  show "same_names ?g" using assms by (simp add: same_names_def flush_names)
  show "folder_of (fr_view ?g) = folder_of v"
    using assms flush_folder_of [of "f\<lparr>fr_view := v\<rparr>"] by (simp add: same_folder_def)
qed

text \<open>A click on a bucket: the frame lists its root and the page goes there.\<close>

lemma pick_flush_agrees:
  assumes "same_names f" "hm_currentBucket h \<noteq> []" "CHR ''/'' \<notin> set (hm_currentBucket h)" "hm_prefixData h = []"
    and "hm_listing h = hm_listing (fr_home f)" "hm_slideListClick h \<noteq> hm_slideListClick (fr_home f)"
    and "hm_addFileClick h = hm_addFileClick (fr_home f)" "hm_uploadClick h = hm_uploadClick (fr_home f)"
  shows "same_folder (frame_flush fmt False False h f) \<and> same_names (frame_flush fmt False False h f)"
proof
  define v where "v = (if hm_currentBucket h \<noteq> bv_currentBucket (fr_view f) then watch_currentBucket (hm_currentBucket h) (fr_view f) else fr_view f)"
  have v: "bv_currentBucket v = hm_currentBucket h" by (simp add: v_def watch_currentBucket_def)
  have "fr_view (frame_flush fmt False False h f) = out_state (watch_slideListClick v)"
    by (simp add: frame_flush_def page_flush_def assms v_def Let_def)
  then show "same_folder (frame_flush fmt False False h f)"
    using assms(2-4) by (simp add: same_folder_def watch_click_frame v split_on_no_sep crumbs_ok_def crumb_prefix_def js_slice_from_1)
  show "same_names (frame_flush fmt False False h f)"
    using assms(1,5) by (simp add: same_names_def flush_names)
qed

lemma picked_home:
  assumes "name \<noteq> []"
  shows "hm_currentBucket (out_state (getminioListBucket api token name d sl p h)) = name \<and>
    hm_prefixData (out_state (getminioListBucket api token name d sl p h)) = [] \<and>
    hm_listing (out_state (getminioListBucket api token name d sl p h)) = hm_listing h \<and>
    hm_slideListClick (out_state (getminioListBucket api token name d sl p h)) = hm_slideListClick h + 1 \<and>
    hm_addFileClick (out_state (getminioListBucket api token name d sl p h)) = hm_addFileClick h \<and>
    hm_uploadClick (out_state (getminioListBucket api token name d sl p h)) = hm_uploadClick h"
  using assms by (simp add: getminioListBucket_def getListObjects_named case_prod_unfold Let_def)

lemma pick_bucket_agrees:
  assumes "same_names f" "name \<noteq> []" "CHR ''/'' \<notin> set name" "getListBucket name True silde push (fr_slide f) = (s, cs)"
  shows "same_folder (slide_handled api token fmt s cs f) \<and> same_names (slide_handled api token fmt s cs f) \<and>
    hm_currentBucket (fr_home (slide_handled api token fmt s cs f)) = name"
proof -
  define h where "h = fst (run_events (slide_listener api token) cs (fr_home f))"
  have "cs = [Emit ''getminioListBucket'' [JStr name, JBool True, JBool silde, JBool push]]"
    using assms(4) by (simp add: getListBucket_def)
  then have "h = out_state (getminioListBucket api token name True silde push (fr_home f))"
    by (simp add: h_def slide_listener_def arg_text_def arg_truthy_def case_prod_unfold Let_def numeral_eq_Suc)
  note h = picked_home [OF assms(2), of api token True silde push "fr_home f", folded this]
  have "same_names (f\<lparr>fr_slide := s\<rparr>)" using assms(1) by (simp add: same_names_def)
  then have "same_folder (frame_flush fmt False False h (f\<lparr>fr_slide := s\<rparr>)) \<and> same_names (frame_flush fmt False False h (f\<lparr>fr_slide := s\<rparr>))"
    using h assms(3) assms(2) by (intro pick_flush_agrees) simp_all
  with h show ?thesis by (simp add: slide_handled_def h_def)
qed

text \<open>Every event the page offers.\<close>

lemma upload_event_core:
  "hm_currentBucket h \<noteq> [] \<Longrightarrow> core_of (out_state (upload_event api token file e h)) = core_of h"
  by (cases e) (simp_all add: upload_event_def core_of_def getListObjects_named)

lemma page_click_agrees:
  assumes "same_folder f" "same_names f" "crumbs_ok v" "bv_currentBucketAll v \<noteq> []"
    and "hd (bv_currentBucketAll v) = hd (bv_currentBucketAll (fr_view f))"
    and "bv_currentBucket v = bv_currentBucket (fr_view f)" "bv_tableData v = bv_tableData (fr_view f)"
    and "perform api token fmt ev f = page_handled api token fmt None v [emit_list v] f"
  shows "same_folder (perform api token fmt ev f) \<and> same_names (perform api token fmt ev f) \<and>
    folder_of (fr_view (perform api token fmt ev f)) = folder_of v"
  unfolding assms(8) by (rule page_asks_agrees) (simp_all add: assms table_names_def)

lemma folder_click_agrees:
  assumes "same_folder f" "same_names f" "offered (ClickFolder x) f"
  shows "same_folder (perform api token fmt (ClickFolder x) f) \<and> same_names (perform api token fmt (ClickFolder x) f) \<and>
    bv_currentBucketAll (fr_view (perform api token fmt (ClickFolder x) f)) = bv_currentBucketAll (fr_view f) @ [x]"
proof -
  have ok: "crumbs_ok (fr_view f)" using assms(1) by (simp add: same_folder_def)
  then have "bv_currentBucketAll (fr_view f) \<noteq> []" by (simp add: crumbs_ok_def)
  note ok = ok this
  define v where "v = fst (curListFolder (folder_key (bv_prefixName (fr_view f)) x) (fr_view f))"
  note v = enter_folder [OF ok(1), of x, folded v_def]
  have "curListFolder (folder_key (bv_prefixName (fr_view f)) x) (fr_view f) = (v, [emit_list v])"
    by (simp add: v_def curListFolder_def Let_def)
  then have "perform api token fmt (ClickFolder x) f = page_handled api token fmt None v [emit_list v] f"
    by (simp add: perform_defs Let_def)
  with page_click_agrees [OF assms(1,2), of v api token fmt] ok v assms(3) show ?thesis by (simp add: folder_of_def)
qed

lemma crumb_click_agrees:
  assumes "same_folder f" "same_names f" "offered (ClickCrumb i) f"
  shows "same_folder (perform api token fmt (ClickCrumb i) f) \<and> same_names (perform api token fmt (ClickCrumb i) f)"
proof -
  have ok: "crumbs_ok (fr_view f)" using assms(1) by (simp add: same_folder_def)
  then have "bv_currentBucketAll (fr_view f) \<noteq> []" by (simp add: crumbs_ok_def)
  note ok = ok this
  define v where "v = fst (buckerAdress i (fr_view f))"
  note v = click_crumb [OF ok(1), of i, folded v_def]
  have "buckerAdress i (fr_view f) = (v, [emit_list v])"
    by (simp add: v_def buckerAdress_def Let_def)
  then have "perform api token fmt (ClickCrumb i) f = page_handled api token fmt None v [emit_list v] f"
    by (simp add: perform_defs Let_def)
  with page_click_agrees [OF assms(1,2), of v api token fmt] ok v assms(3) show ?thesis by simp
qed

text \<open>The other handlers of the page and of the side bar send at most events that leave the core alone.\<close>

lemma page_quiet_agrees:
  assumes "same_folder f" "same_names f" "folder_of v = folder_of (fr_view f)" "table_names v = table_names (fr_view f)"
    and "\<And>e args. Emit e args \<in> set cs \<Longrightarrow> e \<in> {''getDialogClose'', ''getaboutServer''}"
  shows "same_folder (page_handled api token fmt None v cs f) \<and> same_names (page_handled api token fmt None v cs f)"
proof -
  have "core_of (fst (run_events (page_listener api token None) cs (fr_home f))) = core_of (fr_home f)"
    using assms(5) by (rule page_quiet.run_keeps)
  from quiet_event [OF assms(1,2) this assms(3,4)] show ?thesis unfolding page_handled_def .
qed

lemma home_quiet_agrees:
  assumes "same_folder f" "same_names f" "core_of h = core_of (fr_home f)"
  shows "same_folder (frame_flush fmt False new_buckets h f) \<and> same_names (frame_flush fmt False new_buckets h f)"
  using quiet_event [OF assms, of "fr_view f"] by simp

lemma menu_opens_agrees:
  assumes "same_folder f" "same_names f"
  shows "same_folder (perform api token fmt (MenuOpens i) f) \<and> same_names (perform api token fmt (MenuOpens i) f)"
proof -
  let ?h = "fst (run_events (slide_listener api token) (snd (menu_tick i (fr_slide f))) (fr_home f))"
  let ?f = "f\<lparr>fr_slide := fst (menu_tick i (fr_slide f))\<rparr>"
  have "core_of ?h = core_of (fr_home ?f)"
    by (simp, intro menu_quiet.run_keeps) (auto simp: menu_tick_def split: option.splits if_splits)
  moreover have "same_folder ?f" "same_names ?f" using assms by (simp_all add: same_folder_def same_names_def)
  ultimately have "same_folder (frame_flush fmt False False ?h ?f) \<and> same_names (frame_flush fmt False False ?h ?f)"
    by (intro home_quiet_agrees)
  then show ?thesis by (simp add: perform_defs Let_def slide_handled_def case_prod_unfold)
qed

text \<open>The frame chooses a bucket by itself while the page is at the root of one.\<close>

lemma root_flush_agrees:
  assumes "same_folder f" "same_names f" "bv_prefixName (fr_view f) = []"
    and "hm_currentBucket h \<noteq> []" "CHR ''/'' \<notin> set (hm_currentBucket h)" "hm_prefixData h = []"
    and "hm_listing h = hm_listing (fr_home f)" "hm_slideListClick h = hm_slideListClick (fr_home f)"
    and "hm_addFileClick h = hm_addFileClick (fr_home f)" "hm_uploadClick h = hm_uploadClick (fr_home f)"
  shows "same_folder (frame_flush fmt False new_buckets h f) \<and> same_names (frame_flush fmt False new_buckets h f)"
proof
  show "same_names (frame_flush fmt False new_buckets h f)" using assms(2,7) by (simp add: same_names_def flush_names)
  show "same_folder (frame_flush fmt False new_buckets h f)"
  proof (cases "hm_currentBucket h = bv_currentBucket (fr_view f)")
    case True
    with assms show ?thesis by (intro flush_same_folder) (simp_all add: same_folder_def)
  next
    case False
    then have "fr_view (frame_flush fmt False new_buckets h f) = watch_currentBucket (hm_currentBucket h) (fr_view f)"
      using assms(8-10) by (simp add: frame_flush_def page_flush_def Let_def)
    with assms(3-6) show ?thesis
      by (simp add: same_folder_def watch_currentBucket_def split_on_no_sep crumbs_ok_def crumb_prefix_def js_slice_from_1)
  qed
qed

lemma buckets_answer_agrees:
  assumes "same_folder f" "same_names f" "offered (BucketsAnswer name r) f"
  shows "same_folder (perform api token fmt (BucketsAnswer name r) f) \<and> same_names (perform api token fmt (BucketsAnswer name r) f)"
proof (cases "\<exists>bs. r = Inr (Inr bs)")
  case True
  with assms(3) obtain b cs where b: "r = Inr (Inr (Some (b # cs)))" "b \<noteq> []" "CHR ''/'' \<notin> set b"
    and root: "bv_prefixName (fr_view f) = []" "CHR ''/'' \<notin> set name"
    by auto
  let ?h = "(fr_home f)\<lparr>hm_buckets := Some (b # cs), hm_prefixData := [], hm_currentBucket := if name = [] then b else name\<rparr>"
  have p: "perform api token fmt (BucketsAnswer name r) f = frame_flush fmt False True ?h f"
    using b(2) by (simp add: perform_defs Let_def b(1) buckets_reply_def buckets_answered_def getListObjects_def chosen_bucket_def)
  show ?thesis unfolding p using root b(2,3) by (intro root_flush_agrees [OF assms(1,2)]) simp_all
next
  case False
  then have "out_state (buckets_reply api token name r (fr_home f)) = fr_home f" "isl r \<or> isl (projr r)"
    by (cases r; cases "projr r"; auto simp: buckets_reply_def buckets_answered_def buckets_failed_def)+
  then show ?thesis using home_quiet_agrees [OF assms(1,2), of "fr_home f"] by (auto simp: perform_defs Let_def)
qed

text \<open>Inside a folder the list of buckets takes the frame to the root, and the page stays.\<close>

lemma buckets_answer_parts:
  assumes "same_folder f" "bv_prefixName (fr_view f) \<noteq> []" "b = hm_currentBucket (fr_home f)"
  shows "\<not> same_folder (perform api token fmt (BucketsAnswer [] (Inr (Inr (Some (b # cs))))) f)"
proof -
  let ?h = "(fr_home f)\<lparr>hm_buckets := Some (b # cs), hm_prefixData := [], hm_currentBucket := b\<rparr>"
  have "perform api token fmt (BucketsAnswer [] (Inr (Inr (Some (b # cs))))) f = frame_flush fmt False True ?h f"
    by (simp add: perform_defs Let_def buckets_reply_def buckets_answered_def getListObjects_def chosen_bucket_def)
  moreover have "folder_of (fr_view (frame_flush fmt False True ?h f)) = folder_of (fr_view f)"
    using assms by (intro flush_folder_of) (simp_all add: same_folder_def)
  ultimately show ?thesis using assms(2) by (simp add: same_folder_def folder_of_eq)
qed

text \<open>The dialog that creates a bucket, answered at the root.\<close>

lemma creation_home:
  assumes "name \<noteq> []"
  shows "out_state (makeBucket_reply api token name [] [] (RpcResult u) h) = h\<lparr>hm_currentBucket := name, hm_prefixData := []\<rparr>"
  using assms by (simp add: makeBucket_reply_def makeBucket_created_def getListObjects_named getListBuckets_def Let_def)

lemma creation_answer_agrees:
  assumes "same_folder f" "same_names f" "offered (CreationAnswer name r) f"
  shows "same_folder (perform api token fmt (CreationAnswer name r) f) \<and> same_names (perform api token fmt (CreationAnswer name r) f)"
proof (cases r)
  case (RpcResult u)
  have p: "perform api token fmt (CreationAnswer name r) f = frame_flush fmt False False ((fr_home f)\<lparr>hm_currentBucket := name, hm_prefixData := []\<rparr>) f"
    using assms(3) by (simp add: perform_defs Let_def RpcResult creation_home)
  show ?thesis unfolding p using assms(3) by (intro root_flush_agrees [OF assms(1,2)]) (simp_all add: RpcResult)
qed (use home_quiet_agrees [OF assms(1,2), of "fr_home f"] in \<open>simp_all add: perform_defs Let_def makeBucket_reply_def\<close>)

text \<open>
  The enter key: a named bucket is asked for, and a path of the bucket is gone to. The key's commands are those
  that leave the core of the frame alone, and then the request for the folder.
\<close>

definition submits :: "browser_view \<Rightarrow> bool" where
  "submits v \<longleftrightarrow> \<not> bv_editNameFile v \<and> bv_name_file v \<noteq> []"

lemma enter_key:
  assumes "submits v \<longrightarrow> path_pieces (bv_name_file v) \<noteq> [] \<and> hd (path_pieces (bv_name_file v)) = bv_currentBucket v"
  obtains (stays) w cs where "onkeydown 13 v = (w, cs)" "folder_of w = folder_of v" "table_names w = table_names v"
      "\<And>e args. Emit e args \<in> set cs \<Longrightarrow> e = ''getaboutServer''"
  | (goes) w cs where "onkeydown 13 v = (w, cs @ [emit_list w])" "table_names w = table_names v"
      "bv_currentBucket w = bv_currentBucket v" "bv_currentBucketAll w = path_pieces (bv_name_file v)" "crumbs_ok w"
      "hd (bv_currentBucketAll w) = bv_currentBucket v" "\<And>e args. Emit e args \<in> set cs \<Longrightarrow> e = ''getaboutServer''"
proof -
  define c1 where "c1 = (if bv_editNameFile v then [] else [NextTick BlurTick] :: bv_cmd list)"
  define u where "u = (if bv_form_name v \<noteq> [] then bv_getServer v else (v, []))"
  have u: "folder_of (fst u) = folder_of v" "table_names (fst u) = table_names v" "bv_name_file (fst u) = bv_name_file v"
      "bv_editNameFile (fst u) = bv_editNameFile v"
    by (auto simp: u_def bv_getServer_def drawPlayClose_frame) (simp_all add: folder_of_def table_names_def drawPlayClose_def)
  have quiet: "e = ''getaboutServer''" if "Emit e args \<in> set (c1 @ snd u)" for e args
    using that by (auto simp: c1_def u_def bv_getServer_def split: if_splits)
  show thesis
  proof (cases "submits v")
    case False
    then have "onkeydown 13 v = (fst u, c1 @ snd u)"
      using u(3,4) by (auto simp: onkeydown_def Let_def c1_def case_prod_unfold submits_def simp flip: u_def)
    from stays [OF this u(1,2)] quiet show thesis by blast
  next
    case True
    let ?w = "fst (submit_path (fst u))"
    note pieces = assms [rule_format, OF True]
    have same: "bv_currentBucket (fst u) = bv_currentBucket v" using u(1) by (simp add: folder_of_eq)
    have w: "?w = (fst u)\<lparr>bv_currentBucketAll := path_pieces (bv_name_file v), bv_prefixName := crumb_prefix (path_pieces (bv_name_file v))\<rparr>"
      by (simp add: submit_path_def Let_def u(3))
    have "snd (submit_path (fst u)) = [emit_list ?w]" using pieces by (simp add: submit_path_def Let_def u(3) same)
    moreover have "onkeydown 13 v = (?w, c1 @ snd u @ snd (submit_path (fst u)))"
      using True u(3,4) by (auto simp: onkeydown_def Let_def c1_def case_prod_unfold submits_def simp flip: u_def)
    ultimately have "onkeydown 13 v = (?w, (c1 @ snd u) @ [emit_list ?w])" by simp
    moreover have "table_names ?w = table_names v" unfolding w using u(2) by (simp add: table_names_def)
    moreover have "[] \<notin> set (path_pieces t)" for t by (simp add: path_pieces_def)
    then have "crumbs_ok ?w" using pieces unfolding w by (simp add: crumbs_ok_def) (metis list.set_sel(2))
    moreover have "bv_currentBucket ?w = bv_currentBucket v" "bv_currentBucketAll ?w = path_pieces (bv_name_file v)"
      "hd (bv_currentBucketAll ?w) = bv_currentBucket v" using pieces same unfolding w by simp_all
    ultimately show thesis using quiet by (intro goes)
  qed
qed

text \<open>What the frame is after the commands of a key that goes to a folder.\<close>

lemma enter_home:
  assumes "same_folder f" "bv_currentBucket w = bv_currentBucket (fr_view f)"
    and "\<And>e args. Emit e args \<in> set cs \<Longrightarrow> e = ''getaboutServer''"
  shows "\<exists>h. core_of h = core_of (fr_home f) \<and>
    fst (run_events (page_listener api token None) (cs @ [emit_list w]) (fr_home f)) = h\<lparr>hm_prefixData := bv_prefixName w\<rparr>"
proof -
  let ?h = "fst (run_events (page_listener api token None) cs (fr_home f))"
  have core: "core_of ?h = core_of (fr_home f)" using assms(3) by (intro page_quiet.run_keeps) blast
  then have "bv_currentBucket w \<noteq> []" "bv_currentBucket w = hm_currentBucket ?h"
    using assms(1,2) by (simp_all add: same_folder_def core_of_eq)
  then have "fst (run_events (page_listener api token None) [emit_list w] ?h) = ?h\<lparr>hm_prefixData := bv_prefixName w\<rparr>"
    by (simp add: emit_list_def page_listener_def arg_text_def getListObjects_named)
  with core show ?thesis by (intro exI [of _ ?h]) (simp add: run_events_append)
qed

lemma enter_agrees:
  assumes "same_folder f" "same_names f" "offered EnterPressed f"
  shows "same_folder (perform api token fmt EnterPressed f) \<and> same_names (perform api token fmt EnterPressed f)"
proof -
  let ?v = "fr_view f"
  have p: "perform api token fmt EnterPressed f = page_handled api token fmt None w cs f" if "onkeydown 13 ?v = (w, cs)" for w cs
    using that by (simp add: perform_defs Let_def)
  have own: "submits ?v \<longrightarrow> path_pieces (bv_name_file ?v) \<noteq> [] \<and> hd (path_pieces (bv_name_file ?v)) = bv_currentBucket ?v"
    using assms(3) by (auto simp: submits_def)
  show ?thesis
  proof (cases rule: enter_key [OF own])
    case stays: (1 w cs)
    show ?thesis unfolding p [OF stays(1)] by (rule page_quiet_agrees [OF assms(1,2) stays(2,3)]) (use stays(4) in blast)
  next
    case goes: (2 w cs)
    have "\<exists>h. core_of h = core_of (fr_home f) \<and>
        fst (run_events (page_listener api token None) (cs @ [emit_list w]) (fr_home f)) = h\<lparr>hm_prefixData := bv_prefixName w\<rparr>"
      by (rule enter_home [OF assms(1) goes(3)]) (rule goes(7))
    then obtain h where h: "core_of h = core_of (fr_home f)"
      "fst (run_events (page_listener api token None) (cs @ [emit_list w]) (fr_home f)) = h\<lparr>hm_prefixData := bv_prefixName w\<rparr>" by blast
    let ?g = "frame_flush fmt False False (h\<lparr>hm_prefixData := bv_prefixName w\<rparr>) (f\<lparr>fr_view := w\<rparr>)"
    have g: "perform api token fmt EnterPressed f = ?g" by (simp add: p [OF goes(1)] page_handled_def h(2))
    have "same_folder ?g"
      using assms(1) h(1) goes by (intro flush_same_folder) (simp_all add: same_folder_def core_of_eq)
    moreover have "same_names ?g"
      using assms(2) h(1) goes(2) by (simp add: same_names_def flush_names core_of_eq)
    ultimately show ?thesis unfolding g by blast
  qed
qed

lemma perform_agrees:
  assumes "same_folder f" "same_names f" "offered ev f"
  shows "same_folder (perform api token fmt ev f) \<and> same_names (perform api token fmt ev f)"
proof (cases ev)
  case (ClickBucket name silde push)
  with assms pick_bucket_agrees [OF assms(2), of name silde push] show ?thesis
    by (simp add: perform_defs Let_def case_prod_unfold)
next
  case (DeletionAnswer obj r)
  then show ?thesis
    using deletion_answer_agrees [OF assms(1,2)] by (auto simp: perform_defs Let_def split: prod.split)
next
  case (UploadEvent name e)
  have "hm_currentBucket (fr_home f) \<noteq> []" using assms(1) by (simp add: same_folder_def)
  from home_quiet_agrees [OF assms(1,2) upload_event_core [OF this]] show ?thesis
    by (simp add: perform_defs Let_def UploadEvent)
next
  case (ClickMenu i now)
  show ?thesis unfolding perform_defs ClickMenu Let_def frame_event.case prod.case fst_conv out_state.simps
    by (rule page_quiet_agrees [OF assms(1,2)]) (use actClient_frame [of i now "fr_view f"] in auto)
next
  case (ClickMark i now)
  show ?thesis unfolding perform_defs ClickMark Let_def frame_event.case prod.case fst_conv out_state.simps
    by (rule page_quiet_agrees [OF assms(1,2)]) (simp_all add: drawPlay_frame)
next
  case (ClickSort field order_text)
  show ?thesis unfolding perform_defs ClickSort Let_def frame_event.case prod.case fst_conv out_state.simps
    by (rule page_quiet_agrees [OF assms(1,2)]) (simp_all add: sort_frame)
next
  case (ClickDelete name)
  show ?thesis unfolding perform_defs ClickDelete Let_def frame_event.case prod.case fst_conv out_state.simps
    by (rule page_quiet_agrees [OF assms(1,2)]) (simp_all add: deleteBtn_def folder_of_def table_names_def)
next
  case ClickDeleteMarked
  show ?thesis unfolding perform_defs ClickDeleteMarked Let_def frame_event.case deleteListFun_def prod.case fst_conv
    by (rule page_quiet_agrees [OF assms(1,2)]) (auto simp: drawPlayClose_frame getRemoveObject_def bv_post_def)
next
  case ClickToggle
  show ?thesis unfolding perform_defs ClickToggle Let_def frame_event.case prod.case fst_conv out_state.simps
    by (rule home_quiet_agrees [OF assms(1,2)]) (simp add: addToggle_def core_of_def)
next
  case ClickAnywhere
  show ?thesis unfolding perform_defs ClickAnywhere Let_def frame_event.case prod.case fst_conv out_state.simps
    by (rule home_quiet_agrees [OF assms(1,2)]) (simp add: wrapperClick_def core_of_def)
next
  case (ListingAnswer r)
  with listing_answer_agrees [OF assms(1,2)] show ?thesis by (simp add: perform_defs Let_def case_prod_unfold)
next
  case (MenuOpens i)
  with menu_opens_agrees [OF assms(1,2)] show ?thesis by simp
next
  case (FormTyped t)
  show ?thesis unfolding perform_defs FormTyped Let_def frame_event.case prod.case fst_conv
    by (rule page_quiet_agrees [OF assms(1,2)]) (simp_all add: folder_of_def table_names_def)
next
  case PathEdited
  show ?thesis unfolding perform_defs PathEdited Let_def frame_event.case editFun_def prod.case fst_conv
    by (rule page_quiet_agrees [OF assms(1,2)]) (simp_all add: folder_of_def table_names_def)
next
  case (PathTyped t)
  show ?thesis unfolding perform_defs PathTyped Let_def frame_event.case prod.case fst_conv
    by (rule page_quiet_agrees [OF assms(1,2)]) (simp_all add: folder_of_def table_names_def)
next
  case PathLeft
  show ?thesis unfolding perform_defs PathLeft Let_def frame_event.case prod.case fst_conv
    by (rule page_quiet_agrees [OF assms(1,2)]) (simp_all add: editFileFun_def folder_of_def table_names_def)
qed (use assms folder_click_agrees crumb_click_agrees buckets_answer_agrees creation_answer_agrees enter_agrees in \<open>simp_all del: offered.simps\<close>)

text \<open>The page as it opens, and after any events.\<close>

lemma open_page_shows:
  assumes "CHR ''/'' \<notin> set (hm_currentBucket h)"
  shows "fr_home (open_page fmt h s) = h" "bv_currentBucket (fr_view (open_page fmt h s)) = hm_currentBucket h"
    "bv_currentBucketAll (fr_view (open_page fmt h s)) = [hm_currentBucket h]"
    "bv_prefixName (fr_view (open_page fmt h s)) = []" "crumbs_ok (fr_view (open_page fmt h s))"
    "table_names (fr_view (open_page fmt h s)) = listing_names (hm_listing h)"
proof -
  have "table_names (v\<lparr>bv_currentBucketAll := cs\<rparr>) = table_names v" for v cs by (simp add: table_names_def)
  then show "table_names (fr_view (open_page fmt h s)) = listing_names (hm_listing h)"
    by (simp add: open_page_def bv_mounted_def aboutListData_frame)
qed (use assms in \<open>simp_all add: open_page_def bv_mounted_def bv_init_def aboutListData_def crumbs_ok_def crumb_prefix_def
      js_slice_from_1 split_on_no_sep\<close>)

lemma frame_run_agrees: "frame_run api token fmt f \<Longrightarrow> same_folder f \<and> same_names f"
proof (induction rule: frame_run.induct)
  case (opened_page h s)
  then show ?case using open_page_shows [of h fmt s] by (simp add: same_folder_def same_names_def)
qed (simp add: perform_agrees)

definition sample_home :: home where
  "sample_home = home_init\<lparr>hm_buckets := Some [''photos''], hm_currentBucket := ''photos''\<rparr>"

text \<open>A page in a folder.\<close>

definition sample_frame :: app_frame where
  "sample_frame = perform [] [] id (ClickFolder ''2021'') (open_page id sample_home slide_init)"

lemma sample_frame_facts:
  "frame_run [] [] id sample_frame" "bv_currentBucketAll (fr_view sample_frame) = [''photos'', ''2021'']"
  "hm_prefixData (fr_home sample_frame) = ''2021''" "hm_currentBucket (fr_home sample_frame) = ''photos''"
proof -
  let ?f = "open_page id sample_home slide_init"
  have first: "frame_run [] [] id ?f" by (rule opened_page) (simp_all add: sample_home_def home_init_def)
  then show run: "frame_run [] [] id sample_frame" unfolding sample_frame_def by (rule happened) simp
  show crumbs: "bv_currentBucketAll (fr_view sample_frame) = [''photos'', ''2021'']"
    using folder_click_agrees [of ?f "''2021''"] frame_run_agrees [OF first]
    by (simp add: open_page_shows sample_home_def home_init_def sample_frame_def)
  have "same_folder sample_frame" using frame_run_agrees [OF run] ..
  with crumbs show "hm_prefixData (fr_home sample_frame) = ''2021''" "hm_currentBucket (fr_home sample_frame) = ''photos''"
    by (auto simp: same_folder_def crumbs_ok_def crumb_prefix_def js_slice_from_1)
qed

end
