(* ===== verification/Frame_Folders.thy ===== *)
theory Frame_Folders
  imports App_Frame
begin

text \<open>
  The folder on display, for runs of the frame with its side bar and file page (theory App_Frame): where an
  upload goes and what the table lists, with the listing requests in flight; where page and frame part (a
  page opened again, a bucket created inside a folder); and the archive a folder is downloaded as, with the
  names \<open>DownloadZip\<close> of \<open>cmd/web-handlers.go\<close> opens.
\<close>

section \<open>Listings in flight\<close>

text \<open>The listings a handler asked for: bucket and prefix.\<close>

fun asked :: "home_cmd list \<Rightarrow> flight" where
  "asked [] = []"
| "asked (Request (ObjectsReply b pre) q # cs) = (b, pre) # asked cs"
| "asked (_ # cs) = asked cs"

lemma asked_append [simp]: "asked (xs @ ys) = asked xs @ asked ys"
  by (induction xs rule: asked.induct) simp_all

lemma asked_post [simp]: "asked [home_post api token (ObjectsReply b pre) meth params] = [(b, pre)]"
  by (simp add: home_post_def)

text \<open>
  A handler keeps the listing, and either asks for nothing and stays where it is or asks for exactly the
  folder it selects.
\<close>

definition tracks :: "home \<Rightarrow> home \<Rightarrow> home_cmd list \<Rightarrow> bool" where
  "tracks h h' cs \<longleftrightarrow> hm_listing h' = hm_listing h \<and>
     (asked cs = [] \<and> hm_currentBucket h' = hm_currentBucket h \<and> hm_prefixData h' = hm_prefixData h \<or>
      asked cs = [(hm_currentBucket h', hm_prefixData h')])"

text \<open>The events after which the frame still has the listing it had.\<close>

fun keeps_listing :: "frame_event \<Rightarrow> bool" where
  "keeps_listing (ListingAnswer r) \<longleftrightarrow> False"
| "keeps_listing (DeletionAnswer obj r) \<longleftrightarrow> \<not> rpc_ok r"
| "keeps_listing ev \<longleftrightarrow> True"

lemma run_events_silent:
  assumes "\<And>e args h m. Emit e args \<in> set cs \<Longrightarrow> listen e args h = Some m \<Longrightarrow> asked (out_cmds m) = []"
  shows "asked (snd (run_events listen cs h)) = []"
  using assms
proof (induction listen cs h rule: run_events.induct)
  case (2 listen e args cs h)
  show ?case
  proof (cases "listen e args h")
    case None
    have "asked (snd (run_events listen cs h)) = []"
      by (rule "2.IH"(1) [OF None]) (rule "2.prems", simp_all)
    with None show ?thesis by simp
  next
    case (Some m)
    then have "asked (out_cmds m) = []" by (rule "2.prems" [of e args, rotated]) simp
    moreover have "asked (snd (run_events listen cs (out_state m))) = []"
      by (rule "2.IH"(2) [OF Some]) (rule "2.prems", simp_all)
    ultimately show ?thesis using Some by (simp add: case_prod_unfold Let_def)
  qed
qed simp_all

text \<open>
  Events of the page that only close the dialog or ask for a new bucket, and of the side bar that only open a menu.
\<close>

lemma page_silent:
  assumes "\<And>e args. Emit e args \<in> set cs \<Longrightarrow> e \<in> {''getDialogClose'', ''getaboutServer''}"
  shows "tracks h (fst (run_events (page_listener api token data) cs h)) (snd (run_events (page_listener api token data) cs h))"
proof -
  have "core_of (fst (run_events (page_listener api token data) cs h)) = core_of h"
    using assms by (rule page_quiet.run_keeps)
  moreover have "asked (snd (run_events (page_listener api token data) cs h)) = []"
    using assms by (intro run_events_silent) (auto simp: page_listener_def getMakeBucket_def home_post_def split: if_splits)
  ultimately show ?thesis by (simp add: tracks_def core_of_eq)
qed

lemma slide_silent:
  assumes "\<And>e args. Emit e args \<in> set cs \<Longrightarrow> e = ''homeClickFun''"
  shows "tracks h (fst (run_events (slide_listener api token) cs h)) (snd (run_events (slide_listener api token) cs h))"
proof -
  have "core_of (fst (run_events (slide_listener api token) cs h)) = core_of h"
    using assms by (rule menu_quiet.run_keeps)
  moreover have "asked (snd (run_events (slide_listener api token) cs h)) = []"
    using assms by (intro run_events_silent) (auto simp: slide_listener_def)
  ultimately show ?thesis by (simp add: tracks_def core_of_eq)
qed

lemma page_home: "fr_home (page_handled api token fmt data v cs f) = fst (run_events (page_listener api token data) cs (fr_home f))"
  by (simp add: page_handled_def)

lemma slide_home: "fr_home (slide_handled api token fmt s cs f) = fst (run_events (slide_listener api token) cs (fr_home f))"
  by (simp add: slide_handled_def)

lemma asks_tracks:
  assumes "bv_currentBucket v = hm_currentBucket h" "hm_currentBucket h \<noteq> []"
  shows "tracks h (fst (run_events (page_listener api token data) [emit_list v] h))
    (snd (run_events (page_listener api token data) [emit_list v] h))"
  using assms by (simp add: tracks_def emit_list_def page_listener_def arg_text_def getListObjects_named)

lemma pick_tracks:
  assumes "name \<noteq> []"
  shows "tracks h (fst (run_events (slide_listener api token) (snd (getListBucket name True silde push s)) h))
    (snd (run_events (slide_listener api token) (snd (getListBucket name True silde push s)) h))"
  using assms
  by (simp add: tracks_def getListBucket_def slide_listener_def arg_text_def arg_truthy_def getminioListBucket_def
      getListObjects_named case_prod_unfold Let_def numeral_eq_Suc)

lemma upload_tracks:
  assumes "hm_currentBucket h \<noteq> []"
  shows "tracks h (out_state (upload_event api token file e h)) (out_cmds (upload_event api token file e h))"
  using assms by (cases e) (simp_all add: tracks_def upload_event_def getListObjects_named)

lemma buckets_tracks:
  assumes "\<And>bs. r = Inr (Inr bs) \<Longrightarrow> \<exists>b cs. bs = Some (b # cs) \<and> b \<noteq> []"
  shows "tracks h (out_state (buckets_reply api token name r h)) (out_cmds (buckets_reply api token name r h))"
proof (cases "\<exists>bs. r = Inr (Inr bs)")
  case True
  with assms obtain b cs where "r = Inr (Inr (Some (b # cs)))" "b \<noteq> []" by blast
  then show ?thesis
    by (simp add: tracks_def buckets_reply_def buckets_answered_def getListObjects_def chosen_bucket_def Let_def)
next
  case False
  then show ?thesis
    by (cases r; cases "projr r"; auto simp: tracks_def buckets_reply_def buckets_answered_def buckets_failed_def)
qed

lemma creation_tracks:
  assumes "rpc_ok r \<Longrightarrow> name \<noteq> []"
  shows "tracks h (out_state (makeBucket_reply api token name [] [] r h)) (out_cmds (makeBucket_reply api token name [] [] r h))"
proof (cases r)
  case (RpcResult u)
  have "asked (concat (map (\<lambda>x. [home_post api token (BucketsReply n) meth params]) xs)) = []" for n meth params and xs :: "string list"
    by (induction xs) (simp_all add: home_post_def)
  moreover have "asked (home_post api token (BucketsReply n) meth params # cs) = asked cs"
    "asked (home_post api token (ObjectsReply n pre) meth params # cs) = (n, pre) # asked cs" for n pre meth params cs
    by (simp_all add: home_post_def)
  ultimately show ?thesis
    using assms by (simp add: RpcResult makeBucket_reply_def makeBucket_created_def getListObjects_named getListBuckets_def Let_def tracks_def)
qed (simp_all add: makeBucket_reply_def tracks_def)

lemma enter_tracks:
  assumes "same_folder f" "offered EnterPressed f"
  shows "tracks (fr_home f) (fst (run_events (page_listener api token None) (snd (onkeydown 13 (fr_view f))) (fr_home f)))
    (snd (run_events (page_listener api token None) (snd (onkeydown 13 (fr_view f))) (fr_home f)))"
proof -
  let ?v = "fr_view f" and ?L = "page_listener api token None"
  have own: "submits ?v \<longrightarrow> path_pieces (bv_name_file ?v) \<noteq> [] \<and> hd (path_pieces (bv_name_file ?v)) = bv_currentBucket ?v"
    using assms(2) by (auto simp: submits_def)
  show ?thesis
  proof (cases rule: enter_key [OF own])
    case stays: (1 w cs)
    show ?thesis using stays(4) by (simp add: stays(1)) (rule page_silent, blast)
  next
    case goes: (2 w cs)
    let ?h = "fst (run_events ?L cs (fr_home f))"
    have quiet: "tracks (fr_home f) ?h (snd (run_events ?L cs (fr_home f)))" by (rule page_silent) (use goes(7) in blast)
    have core: "core_of ?h = core_of (fr_home f)" by (rule page_quiet.run_keeps) (use goes(7) in blast)
    have silent: "asked (snd (run_events ?L cs (fr_home f))) = []"
      using goes(7) by (intro run_events_silent) (auto simp: page_listener_def getMakeBucket_def home_post_def split: if_splits)
    have "tracks ?h (fst (run_events ?L [emit_list w] ?h)) (snd (run_events ?L [emit_list w] ?h))"
      using assms(1) goes(3) core by (intro asks_tracks) (simp_all add: same_folder_def core_of_eq)
    with quiet silent core show ?thesis by (auto simp: goes(1) run_events_append tracks_def core_of_eq)
  qed
qed

lemma react_tracks:
  assumes "same_folder f" "offered ev f" "keeps_listing ev" "react api token fmt ev f = (f', cs)"
  shows "tracks (fr_home f) (fr_home f') cs"
proof -
  have b: "bv_currentBucket (fr_view f) = hm_currentBucket (fr_home f)" "hm_currentBucket (fr_home f) \<noteq> []"
    using assms(1) by (simp_all add: same_folder_def)
  have "tracks (fr_home f) (fr_home (fst (react api token fmt ev f))) (snd (react api token fmt ev f))"
  proof (cases ev)
    case (ClickBucket name silde push)
    with assms(2) pick_tracks [of name] show ?thesis
      by (simp add: react_def case_prod_unfold slide_home slide_cmds_def)
  next
    case (ClickFolder x)
    have "snd (curListFolder n v) = [emit_list (fst (curListFolder n v))]"
      "bv_currentBucket (fst (curListFolder n v)) = bv_currentBucket v" for n v
      by (simp_all add: curListFolder_def Let_def)
    with ClickFolder b asks_tracks show ?thesis
      by (simp add: react_def case_prod_unfold page_home page_cmds_def Let_def)
  next
    case (ClickCrumb i)
    have "snd (buckerAdress i v) = [emit_list (fst (buckerAdress i v))]"
      "bv_currentBucket (fst (buckerAdress i v)) = bv_currentBucket v" for v
      by (simp_all add: buckerAdress_def Let_def)
    with ClickCrumb b asks_tracks show ?thesis
      by (simp add: react_def case_prod_unfold page_home page_cmds_def Let_def)
  next
    case (ClickMenu i now)
    have "tracks (fr_home f) (fst (run_events (page_listener api token None) (out_cmds (actClient i now (fr_view f))) (fr_home f)))
        (snd (run_events (page_listener api token None) (out_cmds (actClient i now (fr_view f))) (fr_home f)))"
      using actClient_frame(3) [of i now "fr_view f"] by (intro page_silent) blast
    with ClickMenu show ?thesis by (simp add: react_def page_home page_cmds_def Let_def)
  next
    case (MenuOpens i)
    have "tracks (fr_home f) (fst (run_events (slide_listener api token) (snd (menu_tick i (fr_slide f))) (fr_home f)))
        (snd (run_events (slide_listener api token) (snd (menu_tick i (fr_slide f))) (fr_home f)))"
      by (intro slide_silent) (auto simp: menu_tick_def split: option.splits if_splits)
    with MenuOpens show ?thesis by (simp add: react_def case_prod_unfold slide_home slide_cmds_def Let_def)
  next
    case (DeletionAnswer obj r)
    with assms(3) show ?thesis
      by (cases r) (simp_all add: react_def page_home page_cmds_def Let_def tracks_def)
  next
    case (UploadEvent name e)
    with upload_tracks [OF b(2)] show ?thesis by (simp add: react_def Let_def)
  next
    case (BucketsAnswer name r)
    have "\<exists>b cs. bs = Some (b # cs) \<and> b \<noteq> []" if "r = Inr (Inr bs)" for bs
      using assms(2) that BucketsAnswer by auto
    from buckets_tracks [OF this] BucketsAnswer show ?thesis by (simp add: react_def Let_def)
  next
    case EnterPressed
    with enter_tracks [OF assms(1)] assms(2) show ?thesis
      by (simp add: react_def case_prod_unfold page_home page_cmds_def Let_def del: offered.simps)
  next
    case (CreationAnswer name r)
    have "rpc_ok r \<Longrightarrow> name \<noteq> []" using assms(2) by (cases r) (simp_all add: CreationAnswer)
    from creation_tracks [OF this] CreationAnswer show ?thesis by (simp add: react_def Let_def)
  next
    case PathEdited
    show ?thesis by (simp add: PathEdited react_def page_home page_cmds_def Let_def editFun_def tracks_def)
  next
    case ClickDeleteMarked
    have "run_events (page_listener api token None) (snd (deleteListFun api token (fr_view f))) (fr_home f) = (fr_home f, [])"
      by (rule run_events_requests) (auto simp: deleteListFun_def getRemoveObject_def bv_post_def)
    with ClickDeleteMarked show ?thesis
      by (simp add: react_def case_prod_unfold page_home page_cmds_def Let_def tracks_def)
  qed (use assms(3) in \<open>simp_all add: react_def page_home page_cmds_def Let_def tracks_def drawPlay_frame addToggle_def wrapperClick_def\<close>)
  with assms(4) show ?thesis by simp
qed

text \<open>
  Runs with the listing requests in flight, answered in order by a server whose contents do not change.
\<close>

inductive page_run :: "string \<Rightarrow> string \<Rightarrow> (string \<Rightarrow> string) \<Rightarrow> (string \<Rightarrow> string \<Rightarrow> listing) \<Rightarrow> app_frame \<Rightarrow> flight \<Rightarrow> bool"
  for api token :: string and fmt :: "string \<Rightarrow> string" and contents :: "string \<Rightarrow> string \<Rightarrow> listing" where
  page_opens: "hm_currentBucket h \<noteq> [] \<Longrightarrow> CHR ''/'' \<notin> set (hm_currentBucket h) \<Longrightarrow> hm_prefixData h = [] \<Longrightarrow>
    hm_listing h = contents (hm_currentBucket h) [] \<Longrightarrow> page_run api token fmt contents (open_page fmt h s) []"
| page_acts: "page_run api token fmt contents f fl \<Longrightarrow> offered ev f \<Longrightarrow> keeps_listing ev \<Longrightarrow>
    react api token fmt ev f = (f', cs) \<Longrightarrow> page_run api token fmt contents f' (fl @ asked cs)"
| page_answered: "page_run api token fmt contents f ((b, pre) # fl) \<Longrightarrow>
    page_run api token fmt contents (perform api token fmt (ListingAnswer (RpcResult (contents b pre))) f) fl"

lemma page_run_frame: "page_run api token fmt contents f fl \<Longrightarrow> frame_run api token fmt f"
proof (induction rule: page_run.induct)
  case (page_opens h s)
  then show ?case by (intro opened_page)
next
  case (page_acts f fl ev f' cs)
  from happened [OF page_acts.IH page_acts.hyps(2)] page_acts.hyps(4) show ?case by (simp add: perform_def)
next
  case (page_answered f b pre fl)
  from happened [OF page_answered.IH] show ?case by simp
qed

lemma page_run_listing:
  assumes "page_run api token fmt contents f fl"
  shows "(case rev fl of [] \<Rightarrow> shows_current contents (fr_home f)
    | (b, pre) # _ \<Rightarrow> hm_currentBucket (fr_home f) = b \<and> hm_prefixData (fr_home f) = pre)"
  using assms
proof (induction rule: page_run.induct)
  case (page_opens h s)
  then show ?case by (simp add: open_page_shows shows_current_def)
next
  case (page_acts f fl ev f' cs)
  have "same_folder f" using frame_run_agrees [OF page_run_frame [OF page_acts.hyps(1)]] ..
  from react_tracks [OF this page_acts.hyps(2-4)] page_acts.IH show ?case
    by (auto simp: tracks_def shows_current_def split: list.splits prod.splits)
next
  case (page_answered f b pre fl)
  have home: "fr_home (perform api token fmt (ListingAnswer (RpcResult (contents b pre))) f) = (fr_home f)\<lparr>hm_listing := contents b pre\<rparr>"
    by (simp add: perform_defs Let_def)
  show ?case
  proof (cases "rev fl")
    case Nil
    with page_answered.IH show ?thesis by (simp add: home shows_current_def)
  next
    case (Cons x xs)
    with page_answered.IH show ?thesis by (cases x) (simp add: home)
  qed
qed

section \<open>The folder on display\<close>

lemma same_folder_upload:
  assumes s: "same_folder f"
  shows "upload_url api (fr_home f) name
      = api @ ''/minio/upload/'' @ join ''/'' (bv_currentBucketAll (fr_view f)) @ ''/'' @ name \<and>
    hm_currentBucket (fr_home f) = hd (bv_currentBucketAll (fr_view f)) \<and>
    emit_list (fr_view f) = Emit ''getListObjects'' [JStr (hm_currentBucket (fr_home f)), JStr (hm_prefixData (fr_home f))]"
proof -
  from s obtain b cs where bc: "bv_currentBucketAll (fr_view f) = b # cs" "[] \<notin> set cs" "hm_prefixData (fr_home f) = join ''/'' cs"
    "hm_currentBucket (fr_home f) = b"
    by (cases "bv_currentBucketAll (fr_view f)") (auto simp: same_folder_def crumbs_ok_def crumb_prefix_def js_slice_from_1)
  then have "listing_prefix (join ''/'' cs) @ name = (if cs = [] then name else join ''/'' cs @ ''/'' @ name)"
    by (cases "(''/'', cs)" rule: join.cases) (auto simp: listing_prefix_def)
  moreover have "join ''/'' (b # cs) = (if cs = [] then b else b @ ''/'' @ join ''/'' cs)"
    by (simp add: join_Cons)
  ultimately show ?thesis
    using s bc by (simp add: upload_url_def emit_list_def same_folder_def)
qed

text \<open>
  C4: an upload goes to the folder on display. From a page opened at the root of a bucket, whatever the user does on
  the file page and the side bar - buckets, folders, crumbs, marks, deletions, a path of the bucket typed and
  submitted, a new bucket asked for - and whatever the server answers, in any order, except that no list of buckets
  and no creation of a bucket is answered inside a folder, and no path of another bucket is submitted: the address a
  file is uploaded to is the path of the breadcrumbs followed by its name, the side bar's bucket is the first
  crumb, and the next listing request of the page is for that same folder.
\<close>

theorem upload_goes_to_shown_folder:
  assumes "frame_run api token fmt f"
  shows "upload_url api (fr_home f) name
      = api @ ''/minio/upload/'' @ join ''/'' (bv_currentBucketAll (fr_view f)) @ ''/'' @ name \<and>
    hm_currentBucket (fr_home f) = hd (bv_currentBucketAll (fr_view f)) \<and>
    emit_list (fr_view f) = Emit ''getListObjects'' [JStr (hm_currentBucket (fr_home f)), JStr (hm_prefixData (fr_home f))]"
  using frame_run_agrees [OF assms] by (intro same_folder_upload) simp

theorem upload_goes_to_shown_folder_witness:
  "upload_url [] (fr_home sample_frame) ''a.jpg'' = ''/minio/upload/photos/2021/a.jpg''"
  using upload_goes_to_shown_folder [OF sample_frame_facts(1), of "''a.jpg''"] by (simp add: sample_frame_facts)

text \<open>
  C6: the table and the frame list the same objects. Under the same events the names in the table, in any
  order it was sorted into, are those of the listing the frame keeps: also after deletions, which the table
  makes itself and reports.
\<close>

theorem table_shows_listing:
  assumes "frame_run api token fmt f"
  shows "mset (map rw_name (bv_tableData (fr_view f)))
    = mset (map ob_name (case ls_objects (hm_listing (fr_home f)) of None \<Rightarrow> [] | Some objs \<Rightarrow> objs))"
  using frame_run_agrees [OF assms] by (simp add: same_names_def table_names_def listing_names_def)

theorem table_shows_listing_witness:
  "mset (map rw_name (bv_tableData (fr_view (open_page id sample_home slide_init)))) = {#}"
proof -
  have "frame_run [] [] id (open_page id sample_home slide_init)"
    by (rule opened_page) (simp_all add: sample_home_def home_init_def)
  from table_shows_listing [OF this] show ?thesis by (simp add: open_page_def sample_home_def home_init_def)
qed

text \<open>
  C5: the page shows the folder it says it shows. For runs as in the property before, from a page opened with the
  listing of its root, on a server whose contents do not change: when every listing request was answered, in order and
  with success, and no deletion was completed, the table has exactly the names the server has under the bucket and the
  folders of the breadcrumbs, whatever was clicked, typed, marked, sorted or uploaded before.
\<close>

theorem breadcrumbs_name_the_table:
  assumes "page_run api token fmt contents f []"
  shows "mset (map rw_name (bv_tableData (fr_view f))) =
    listing_names (contents (hd (bv_currentBucketAll (fr_view f))) (join ''/'' (tl (bv_currentBucketAll (fr_view f)))))"
proof -
  have f: "same_folder f" "same_names f" using frame_run_agrees [OF page_run_frame [OF assms]] by simp_all
  then have "hm_currentBucket (fr_home f) = hd (bv_currentBucketAll (fr_view f))"
    "hm_prefixData (fr_home f) = crumb_prefix (bv_currentBucketAll (fr_view f))"
    by (auto simp: same_folder_def crumbs_ok_def)
  moreover have "hm_listing (fr_home f) = contents (hm_currentBucket (fr_home f)) (hm_prefixData (fr_home f))"
    using page_run_listing [OF assms] by (simp add: shows_current_def)
  ultimately show ?thesis
    using f(2) by (simp add: same_names_def table_names_def crumb_prefix_def js_slice_from_1)
qed

definition sample_contents :: "string \<Rightarrow> string \<Rightarrow> listing" where
  "sample_contents b pre = \<lparr>ls_objects = Some (if pre = ''2021''
     then [\<lparr>ob_name = ''2021/a.jpg'', ob_lastModified = [], ob_size = Fin 1, ob_contentType = ''image/jpeg''\<rparr>] else []), ls_writable = True\<rparr>"

theorem breadcrumbs_name_the_table_witness:
  "mset (map rw_name (bv_tableData (fr_view (perform [] [] id (ListingAnswer (RpcResult (sample_contents ''photos'' ''2021''))) sample_frame))))
     = {#''2021/a.jpg''#}"
proof -
  let ?f = "open_page id sample_home slide_init"
  let ?g = "perform [] [] id (ListingAnswer (RpcResult (sample_contents ''photos'' ''2021''))) sample_frame"
  have opens: "page_run [] [] id sample_contents ?f []"
    by (rule page_opens) (simp_all add: sample_home_def home_init_def sample_contents_def)
  obtain cs where react: "react [] [] id (ClickFolder ''2021'') ?f = (sample_frame, cs)"
    by (cases "react [] [] id (ClickFolder ''2021'') ?f") (simp add: sample_frame_def perform_def)
  have "same_folder ?f" using frame_run_agrees [OF page_run_frame [OF opens]] ..
  from react_tracks [OF this _ _ react] have "asked cs = [(''photos'', ''2021'')]"
    by (auto simp: tracks_def sample_frame_facts open_page_shows sample_home_def home_init_def)
  with page_acts [OF opens _ _ react] have "page_run [] [] id sample_contents sample_frame [(''photos'', ''2021'')]" by simp
  from page_answered [OF this] have "page_run [] [] id sample_contents ?g []" .
  moreover have "bv_currentBucketAll (fr_view ?g) = [''photos'', ''2021'']"
    using frame_run_agrees [OF sample_frame_facts(1)] sample_frame_facts(2)
      flush_folder_of [of sample_frame "(fr_home sample_frame)\<lparr>hm_listing := sample_contents ''photos'' ''2021''\<rparr>" id True False]
    by (simp add: perform_defs Let_def same_folder_def folder_of_eq)
  ultimately show ?thesis
    using breadcrumbs_name_the_table [of "[]" "[]" id sample_contents ?g] by (simp add: sample_contents_def listing_names_def)
qed

section \<open>Where page and frame part\<close>

text \<open>
  C27: a page that is opened again forgets the folder the frame is in. From another page the button that
  creates a bucket goes back to the file page; it shows the breadcrumb of the bucket's root, but its rows
  are those of the folder left, and the next upload goes into that folder.
\<close>

theorem reopened_page_forgets_folder:
  assumes "frame_run api token fmt f" "hm_prefixData (fr_home f) = d" "d \<noteq> []" "js_indexOf path ''/fs3'' < 0"
  defines "g \<equiv> open_page fmt (fst (createHomeBuck path (fr_home f))) (fr_slide f)"
  shows "snd (createHomeBuck path (fr_home f)) = [RouterPush (ByName ''fs3'')] \<and>
    bv_currentBucketAll (fr_view g) = [hm_currentBucket (fr_home f)] \<and> bv_prefixName (fr_view g) = [] \<and>
    table_names (fr_view g) = listing_names (hm_listing (fr_home f)) \<and>
    upload_url api (fr_home g) name = api @ ''/minio/upload/'' @ hm_currentBucket (fr_home f) @ ''/'' @ d @ ''/'' @ name"
proof -
  let ?h = "fst (createHomeBuck path (fr_home f))"
  have h: "hm_currentBucket ?h = hm_currentBucket (fr_home f)" "hm_prefixData ?h = d" "hm_listing ?h = hm_listing (fr_home f)"
    using assms(2) by (simp_all add: createHomeBuck_def)
  have "CHR ''/'' \<notin> set (hm_currentBucket ?h)"
    using frame_run_agrees [OF assms(1)] by (simp add: same_folder_def h)
  note shown = open_page_shows [OF this, of fmt "fr_slide f", folded g_def]
  then have "upload_url api (fr_home g) name = api @ ''/minio/upload/'' @ hm_currentBucket (fr_home f) @ ''/'' @ d @ ''/'' @ name"
    using assms(3) by (simp add: upload_url_def listing_prefix_def h)
  moreover have "snd (createHomeBuck path (fr_home f)) = [RouterPush (ByName ''fs3'')]"
    using assms(4) by (simp add: createHomeBuck_def)
  ultimately show ?thesis using shown(3,4,6) by (simp add: h)
qed

theorem reopened_page_forgets_folder_witness:
  "upload_url [] (fr_home (open_page id (fst (createHomeBuck ''/my_account/dashboard'' (fr_home sample_frame))) (fr_slide sample_frame))) ''a.jpg''
     = ''/minio/upload/photos/2021/a.jpg''"
proof -
  have "js_indexOf ''/my_account/dashboard'' ''/fs3'' < 0" by code_simp
  from reopened_page_forgets_folder [OF sample_frame_facts(1,3) _ this, where name = "''a.jpg''"]
  show ?thesis by (simp add: sample_frame_facts)
qed

text \<open>The dialog that creates a bucket is submitted, and the server creates it.\<close>

definition create_bucket :: "string \<Rightarrow> string \<Rightarrow> (string \<Rightarrow> string) \<Rightarrow> string \<Rightarrow> app_frame \<Rightarrow> app_frame" where
  "create_bucket api token fmt name f =
     (let (v, cs) = bv_getServer ((fr_view f)\<lparr>bv_form_name := name\<rparr>);
          f1 = page_handled api token fmt None v cs f
      in frame_flush fmt False False (out_state (makeBucket_reply api token name [] [] (RpcResult ()) (fr_home f1))) f1)"

text \<open>
  A bucket created inside a folder is entered with the folder's prefix. The frame lists the root of the
  new bucket and the breadcrumbs show it, but the page keeps the prefix of the folder left: only a click on
  a bucket of the side bar resets it.
\<close>

theorem created_bucket_keeps_prefix:
  assumes "frame_run api token fmt f" "name \<noteq> []" "CHR ''/'' \<notin> set name" "name \<noteq> hm_currentBucket (fr_home f)"
  shows "hm_currentBucket (fr_home (create_bucket api token fmt name f)) = name \<and>
    hm_prefixData (fr_home (create_bucket api token fmt name f)) = [] \<and>
    bv_currentBucketAll (fr_view (create_bucket api token fmt name f)) = [name] \<and>
    bv_prefixName (fr_view (create_bucket api token fmt name f)) = hm_prefixData (fr_home f)"
proof -
  have s: "same_folder f" using frame_run_agrees [OF assms(1)] ..
  define v where "v = drawPlayClose ((fr_view f)\<lparr>bv_form_name := []\<rparr>)"
  have v: "folder_of v = folder_of (fr_view f)" by (simp add: v_def drawPlayClose_frame) (simp add: folder_of_def)
  define h1 where "h1 = (fr_home f)\<lparr>hm_dialogFormVisible := False\<rparr>"
  define f1 where "f1 = frame_flush fmt False False h1 (f\<lparr>fr_view := v\<rparr>)"
  have f1: "fr_home f1 = h1" "folder_of (fr_view f1) = folder_of v"
    using s v flush_folder_of [of "f\<lparr>fr_view := v\<rparr>" h1]
    by (simp_all add: f1_def h1_def same_folder_def folder_of_eq)
  define h2 where "h2 = h1\<lparr>hm_currentBucket := name, hm_prefixData := []\<rparr>"
  have "out_state (makeBucket_reply api token name [] [] (RpcResult ()) h1) = h2"
    using assms(2) by (simp add: makeBucket_reply_def makeBucket_created_def getListObjects_named getListBuckets_def Let_def h2_def)
  then have c: "create_bucket api token fmt name f = frame_flush fmt False False h2 f1"
    by (simp add: create_bucket_def bv_getServer_def page_handled_def page_listener_def getMakeBucket_def arg_text_def
        arg_truthy_def Let_def f1(1)[unfolded f1_def] flip: v_def h1_def f1_def)
  have "fr_view (frame_flush fmt False False h2 f1) = watch_currentBucket name (fr_view f1)"
    using s assms(4) f1 v
    by (simp add: frame_flush_def page_flush_def Let_def h2_def h1_def same_folder_def folder_of_eq)
  with s assms(3) f1 v show ?thesis
    unfolding c by (simp add: h2_def watch_currentBucket_def split_on_no_sep same_folder_def folder_of_eq)
qed

theorem created_bucket_keeps_prefix_witness:
  "bv_prefixName (fr_view (create_bucket [] [] id ''new'' sample_frame)) = ''2021''"
  using created_bucket_keeps_prefix [OF sample_frame_facts(1), of "''new''"] by (simp add: sample_frame_facts)

section \<open>Archives\<close>

text \<open>
  The server's \<open>pathJoin\<close>: Go's \<open>path.Join\<close>, which never ends in a slash, and a slash when the last
  argument has one. \<open>path.Join\<close> of empty arguments is empty.
\<close>

definition go_path_join :: "string list \<Rightarrow> string" where
  "go_path_join elems =
     (if filter (\<lambda>e. e \<noteq> []) elems = [] then []
      else let p = path_join elems in if p \<noteq> ''/'' \<and> last p = CHR ''/'' then butlast p else p)"

definition pathJoin :: "string list \<Rightarrow> string" where
  "pathJoin elems =
     go_path_join elems @ (if elems \<noteq> [] \<and> last elems \<noteq> [] \<and> last (last elems) = CHR ''/'' then ''/'' else [])"

text \<open>The names under which \<open>DownloadZip\<close> opens (or walks) the objects of a request.\<close>

definition zip_opens :: "json \<Rightarrow> string list" where
  "zip_opens args =
     (case json_get args ''objects'' of
        JArr objs \<Rightarrow> map (\<lambda>obj. pathJoin [arg_text 0 [json_get args ''prefix''], arg_text 0 [obj]]) objs
      | _ \<Rightarrow> [])"

lemma pathJoin_plain:
  assumes "list_all plain_segment cs" "list_all plain_segment ds" "plain_segment x"
  shows "pathJoin [join ''/'' cs, join ''/'' (ds @ [x])] = join ''/'' (cs @ ds @ [x])"
proof -
  have dx: "list_all plain_segment (ds @ [x])" and all: "list_all plain_segment (cs @ ds @ [x])" using assms by simp_all
  note key = plain_join [OF _ dx, simplified] and whole = plain_join [OF _ all, simplified]
  have "join ''/'' (filter (\<lambda>a. a \<noteq> []) [join ''/'' cs, join ''/'' (ds @ [x])]) = join ''/'' (cs @ ds @ [x])"
  proof (cases "cs = []")
    case False
    then have "join ''/'' cs \<noteq> []" using plain_join(1) assms(1) by blast
    moreover have "join ''/'' (cs @ ys) = join ''/'' cs @ ''/'' @ join ''/'' ys" if "ys \<noteq> []" for ys
      using False that by (induction "''/''" cs rule: join.induct) (simp_all add: join_Cons)
    ultimately show ?thesis using key(1) by simp
  qed (use key(1) in simp)
  then have "path_join [join ''/'' cs, join ''/'' (ds @ [x])] = join ''/'' (cs @ ds @ [x])"
    using all by (intro path_join_plain) simp_all
  with key whole show ?thesis by (simp add: pathJoin_def go_path_join_def)
qed

text \<open>
  C26: an archive asked for inside a folder opens the wrong objects. The page sends the keys of the marked
  rows, which start with the folder, and the folder as prefix; the server joins the two, so it opens every
  object under the folder's path twice. Only at the root of a bucket are they the objects marked.
\<close>

theorem archive_doubles_folder:
  assumes "crumbs_ok v" "bv_currentBucketAll v = b # cs" "list_all plain_segment cs" "list_all plain_segment names"
    and "bv_deleteDialogIndex v = map (\<lambda>x. join ''/'' (cs @ [x])) names" "bv_drawIndex v > 1"
  shows "\<exists>t q. requests (snd (urltoken_reply api (RpcResult tok) v)) = [(t, q)] \<and>
    zip_opens (req_body q) = map (\<lambda>x. join ''/'' (cs @ cs @ [x])) names \<and>
    (zip_opens (req_body q) = bv_deleteDialogIndex v \<longleftrightarrow> cs = [] \<or> names = [])"
proof -
  have pre: "bv_prefixName v = join ''/'' cs"
    using assms(1,2) by (simp add: crumbs_ok_def crumb_prefix_def js_slice_from_1)
  have "map (\<lambda>x. pathJoin [join ''/'' cs, join ''/'' (cs @ [x])]) names = map (\<lambda>x. join ''/'' (cs @ cs @ [x])) names"
    using assms(3,4) by (auto simp: list_all_iff intro!: pathJoin_plain)
  moreover have "join ''/'' (cs @ cs @ [x]) = join ''/'' (cs @ [x]) \<longleftrightarrow> cs = []" if "x \<in> set names" for x
  proof
    have plain: "list_all plain_segment (cs @ cs @ [x])" "list_all plain_segment (cs @ [x])"
      using assms(3,4) that by (simp_all add: list_all_iff)
    assume "join ''/'' (cs @ cs @ [x]) = join ''/'' (cs @ [x])"
    then have "cs @ cs @ [x] = cs @ [x]"
      using plain_join(4) [OF _ plain(1)] plain_join(4) [OF _ plain(2)] by simp
    then show "cs = []" by simp
  qed simp
  ultimately show ?thesis
    using assms(2,5,6)
    by (cases names) (auto simp: getDownload_def Let_def zip_opens_def pre arg_text_def comp_def)
qed

theorem archive_doubles_folder_witness:
  "\<exists>t q. requests (snd (urltoken_reply [] (RpcResult ''tok'')
       ((bv_init ''photos'')\<lparr>bv_currentBucketAll := [''photos'', ''2021''], bv_prefixName := ''2021'', bv_drawIndex := 2,
          bv_deleteDialogIndex := [''2021/a.jpg'', ''2021/b.jpg'']\<rparr>))) = [(t, q)] \<and>
     zip_opens (req_body q) = [''2021/2021/a.jpg'', ''2021/2021/b.jpg'']"
proof -
  let ?v = "(bv_init ''photos'')\<lparr>bv_currentBucketAll := [''photos'', ''2021''], bv_prefixName := ''2021'', bv_drawIndex := 2,
          bv_deleteDialogIndex := [''2021/a.jpg'', ''2021/b.jpg'']\<rparr>"
  have "crumbs_ok ?v" by (simp add: crumbs_ok_def crumb_prefix_def js_slice_from_1)
  from archive_doubles_folder [OF this, of "''photos''" "[''2021'']" "[''a.jpg'', ''b.jpg'']" "[]" "''tok''"]
  show ?thesis by (auto simp: plain_segment_def simp del: urltoken_reply.simps)
qed

end
