(* ===== verification/Page_Elements.thy ===== *)
theory Page_Elements
  imports Account_Common
begin

text \<open>
  What a template renders: a tree of elements with the attributes that carry meaning (labels, values,
  titles), the events its controls send to the component, and texts. Classes, styles, images, icons,
  widths and placements are left out. The widgets of element-ui are rendered as documented: a table shows
  its column labels and a row for each datum, \<open>v-loading\<close> lays a mask over an element, a dialog exists on
  screen while it is visible, has a close button and masks the rest of the page, and the pager offers the
  other pages unless there is only one.
\<close>

datatype 'e elem =
    Text string
  | Node string "(string \<times> string) list" "(string \<times> 'e) list" "'e elem list"
  | Mask "'e elem"

text \<open>
  The events a user can cause with the pointer, those the keyboard can cause as well - an overlay takes the clicks, but
  leaves the focus where it is - and the texts on screen.
\<close>

fun reachable :: "'e elem \<Rightarrow> 'e list" where
  "reachable (Text t) = []"
| "reachable (Node tag attrs evs children) = map snd evs @ concat (map reachable children)"
| "reachable (Mask e) = []"

fun operable :: "'e elem \<Rightarrow> 'e list" where
  "operable (Text t) = []"
| "operable (Node tag attrs evs children) = map snd evs @ concat (map operable children)"
| "operable (Mask e) = operable e"

fun texts :: "'e elem \<Rightarrow> string list" where
  "texts (Text t) = [t]"
| "texts (Node tag attrs evs children) = concat (map texts children)"
| "texts (Mask e) = texts e"

text \<open>\<open>v-if\<close>, \<open>v-for\<close>, \<open>v-loading\<close>.\<close>

definition v_if :: "bool \<Rightarrow> 'e elem list \<Rightarrow> 'e elem list" where
  "v_if c es = (if c then es else [])"

definition v_loading :: "bool \<Rightarrow> 'e elem \<Rightarrow> 'e elem" where
  "v_loading b e = (if b then Mask e else e)"

definition box :: "'e elem list \<Rightarrow> 'e elem" where
  "box children = Node ''div'' [] [] children"

definition button :: "string \<Rightarrow> 'e \<Rightarrow> 'e elem" where
  "button label e = Node ''el-button'' [] [(''click'', e)] [Text label]"

text \<open>A disabled button is on screen and sends nothing.\<close>

definition button_if :: "bool \<Rightarrow> string \<Rightarrow> 'e \<Rightarrow> 'e elem" where
  "button_if enabled label e = (if enabled then button label e else Node ''el-button'' [(''disabled'', ''true'')] [] [Text label])"

definition link :: "string \<Rightarrow> 'e \<Rightarrow> 'e elem" where
  "link label e = Node ''router-link'' [] [(''click'', e)] [Text label]"

text \<open>A table: labels and cells of its columns, and its data.\<close>

type_synonym ('r, 'e) column = "string \<times> ('r \<Rightarrow> 'e elem list)"

definition el_table :: "string \<Rightarrow> ('r, 'e) column list \<Rightarrow> 'r list \<Rightarrow> 'e elem" where
  "el_table empty_text cols rows =
     Node ''el-table'' [] []
       (Node ''thead'' [] [] (map (\<lambda>c. Text (fst c)) cols) #
        (if rows = [] then [Text empty_text]
         else map (\<lambda>r. Node ''tr'' [] [] (map (\<lambda>c. Node ''td'' [] [] (snd c r)) cols)) rows))"

text \<open>The pager: as many pages as the limit makes of the total; a click on another page is its number.\<close>

definition page_count :: "pager \<Rightarrow> int" where
  "page_count p = max 1 ((pg_total p + pg_limit p - 1) div pg_limit p)"

definition el_pagination :: "pager \<Rightarrow> (int \<Rightarrow> 'e) \<Rightarrow> 'e elem list" where
  "el_pagination p turn =
     v_if (1 < page_count p)
       [Node ''el-pagination'' [(''total'', int_str (pg_total p)), (''current'', int_str (pg_offset p))]
          (map (\<lambda>k. (''current-change'', turn k)) (filter (\<lambda>k. k \<noteq> pg_offset p) [1..page_count p])) []]"

text \<open>A dialog with its close button, its body and its footer.\<close>

definition el_dialog :: "bool \<Rightarrow> string \<Rightarrow> 'e \<Rightarrow> 'e elem list \<Rightarrow> 'e elem list" where
  "el_dialog visible title close body =
     v_if visible [Node ''el-dialog'' [(''title'', title)] [(''close'', close)] (Text title # body)]"

text \<open>
  A page under its dialogs: the topmost visible one takes the clicks. On these pages a dialog that opens
  over another comes after it in the document.
\<close>

definition under_dialogs :: "'e elem \<Rightarrow> 'e elem list \<Rightarrow> 'e elem" where
  "under_dialogs page dialogs =
     (if dialogs = [] then page else Node ''body'' [] [] (Mask page # map Mask (butlast dialogs) @ [last dialogs]))"

text \<open>A child component in a page: its controls send the events of its own template.\<close>

fun relabel :: "('a \<Rightarrow> 'b) \<Rightarrow> 'a elem \<Rightarrow> 'b elem" where
  "relabel f (Text t) = Text t"
| "relabel f (Node tag attrs evs children) = Node tag attrs (map (\<lambda>(k, e). (k, f e)) evs) (map (relabel f) children)"
| "relabel f (Mask e) = Mask (relabel f e)"

lemma reachable_operable: "set (reachable e) \<subseteq> set (operable e)"
  by (induction e rule: reachable.induct) fastforce+

lemma operable_v_loading [simp]: "operable (v_loading b e) = operable e"
  by (simp add: v_loading_def)

lemma reachable_v_loading [simp]: "reachable (v_loading b e) = (if b then [] else reachable e)"
  by (simp add: v_loading_def)

lemma reachable_box [simp]: "reachable (box es) = concat (map reachable es)"
  by (simp add: box_def)

lemma reachable_button [simp]: "reachable (button label e) = [e]" "reachable (button_if c label e) = (if c then [e] else [])"
  by (simp_all add: button_def button_if_def)

lemma reachable_link [simp]: "reachable (link label e) = [e]"
  by (simp add: link_def)

lemma reachable_v_if [simp]: "concat (map reachable (v_if c es)) = (if c then concat (map reachable es) else [])"
  by (simp add: v_if_def)

lemma reachable_table:
  "set (reachable (el_table t cols rows)) = {e. \<exists>r \<in> set rows. \<exists>c \<in> set cols. \<exists>x \<in> set (snd c r). e \<in> set (reachable x)}"
  by (auto simp: el_table_def)

lemma reachable_pagination:
  "set (concat (map reachable (el_pagination p turn)))
     = (if 1 < page_count p then {turn k | k. 1 \<le> k \<and> k \<le> page_count p \<and> k \<noteq> pg_offset p} else {})"
  by (auto simp: el_pagination_def)

lemma reachable_dialog:
  "concat (map reachable (el_dialog visible title close body)) = (if visible then close # concat (map reachable body) else [])"
  by (simp add: el_dialog_def)

lemma el_dialog_Nil [simp]: "el_dialog visible title close body = [] \<longleftrightarrow> \<not> visible"
  by (simp add: el_dialog_def v_if_def)

lemma reachable_under:
  "reachable (under_dialogs page dialogs) = (if dialogs = [] then reachable page else reachable (last dialogs))"
  by (simp add: under_dialogs_def comp_def)

lemma reachable_relabel [simp]: "reachable (relabel f e) = map f (reachable e)"
  by (induction e rule: reachable.induct)
    (auto simp: map_concat comp_def case_prod_unfold intro!: arg_cong [of _ _ concat])

end
