(* ===== verification/File_View.thy ===== *)
theory File_View
  imports Page_Elements App_Frame
begin

text \<open>
  What the file page renders (template of \<open>views/minio/index.vue\<close>) and what its controls do, the click on
  the page around them included: a click goes from the control outwards unless the template stops it. The
  lemmas describe which events the page offers, and that a confirmed deletion removes what the screen
  showed as marked.
\<close>

section \<open>The header\<close>

datatype file_event =
    ClickPage
  | Crumb nat
  | EditPath
  | TypePath
  | LeavePath
  | ToggleMenu
  | OpenPassword
  | FullScreen
  | ToggleAbout
  | SignOut bool \<comment> \<open>through the link, or beside it\<close>
  | Expand row
  | MarkRow nat bool
  | OpenFolder string
  | RowMenu nat
  | BackupObject nat
  | ShareObject nat
  | DeleteObject nat
  | CopyCid string
  | AskDeleteMarked
  | DownloadMarked
  | CloseMarked
  | DismissDrawer
  | TypeBucket
  | DismissBucket
  | ConfirmDelete
  | AbandonDelete
  | CloseShare
  | ChangeExpiry
  | ClosePassword

text \<open>A value in a text: nothing for a missing one.\<close>

fun shown_text :: "json \<Rightarrow> string" where
  "shown_text (JStr s) = s"
| "shown_text (JNum x) = num_str x"
| "shown_text (JBool b) = (if b then ''true'' else ''false'')"
| "shown_text v = []"

definition used_bytes :: "json \<Rightarrow> jsnum" where
  "used_bytes userd = (case userd of JNum x \<Rightarrow> x | _ \<Rightarrow> NaN)"

definition path_view :: "browser_view \<Rightarrow> file_event elem list" where
  "path_view v =
     (if bv_editNameFile v
      then map (\<lambda>(i, item). Node ''a'' [] [(''click'', Crumb i)] [Text item]) (enumerate 0 (bv_currentBucketAll v)) @
        [Node ''a'' [(''title'', ''Choose or create new path'')] [(''click'', EditPath)] []]
      else [Node ''el-input'' [(''value'', bv_name_file v)] [(''input'', TypePath), (''blur'', LeavePath)] []])"

definition user_menu :: "browser_view \<Rightarrow> file_event elem" where
  "user_menu v =
     box ([Node ''button'' [] [(''click'', ToggleMenu)] [], Node ''button'' [] [(''click'', ToggleMenu)] []] @
       v_if (bv_signShow v)
         [Node ''li'' [] [(''click'', OpenPassword)] [Text ''Change Password''],
          Node ''li'' [] [(''click'', FullScreen)] [Text ''Fullscreen''],
          Node ''li'' [] [(''click'', ToggleAbout)] [Text ''About''],
          Node ''li'' [] [(''click'', SignOut False)] [link ''Sign Out'' (SignOut True)]])"

definition file_header :: "(jsnum \<Rightarrow> jsnum) \<Rightarrow> json \<Rightarrow> browser_view \<Rightarrow> file_event elem" where
  "file_header math_log userd v =
     Node ''header'' [] []
       [Node ''h2'' [] [] (path_view v),
        box [Text ''Used: '', Text (formatbytes math_log (used_bytes userd))],
        user_menu v]"

section \<open>The table\<close>

text \<open>The icons of the \<open>v-if\<close> / \<open>v-else-if\<close> chain.\<close>

fun icon_class :: "row_kind \<Rightarrow> string" where
  "icon_class TextRow = ''el-icon-document''"
| "icon_class ImageRow = ''icon-wenjiantupian''"
| "icon_class ZipRow = ''icon-zip''"
| "icon_class ExcelRow = ''icon-exclxlsxlsx''"
| "icon_class PdfRow = ''icon-pdf''"
| "icon_class MediaRow = ''icon-geshi_tongyongshipin''"
| "icon_class WordRow = ''icon-word1''"
| "icon_class PptRow = ''icon-PPT''"
| "icon_class SlidesRow = ''icon-ppt''"
| "icon_class FolderRow = ''el-icon-folder''"
| "icon_class OtherRow = ''icon-wenjian''"

text \<open>
  The table widget displays the rows in its own, possibly sorted, order; a cell has the row and its
  position there, and the template reads \<open>tableData\<close> at that position for the marks and the menu.
\<close>

definition mark_icon :: "row_kind \<Rightarrow> nat \<Rightarrow> row \<Rightarrow> file_event elem" where
  "mark_icon k i t =
     (if rw_drawShow t then Node ''i'' [(''class'', icon_class k)] [(''click'', MarkRow i True)] []
      else Node ''i'' [(''class'', ''el-icon-check'')] [(''click'', MarkRow i False)] [])"

definition name_cell :: "browser_view \<Rightarrow> nat \<times> row \<Rightarrow> file_event elem list" where
  "name_cell v ir =
     (case ir of (i, r) \<Rightarrow>
        let k = row_kind_of r; name = slideName (bv_prefixName v) (rw_name r)
        in [box [mark_icon k i (bv_tableData v ! i),
                 if k = FolderRow then Node ''span'' [] [(''click'', OpenFolder (rw_name r))] [Text name] else Text name]])"

definition row_menu :: "browser_view \<Rightarrow> nat \<times> row \<Rightarrow> file_event elem list" where
  "row_menu v ir =
     v_if (bv_drawIndex v < 1) [Node ''span'' [] [(''click'', RowMenu (fst ir))] []] @
     v_if (rw_dropShow (bv_tableData v ! fst ir))
       [Node ''a'' [(''title'', ''Download Object'')] [(''click'', MarkRow (fst ir) True)] [],
        Node ''a'' [(''title'', ''Backup to Filecoin'')] [(''click'', BackupObject (fst ir))] [],
        Node ''a'' [(''title'', ''Share Object'')] [(''click'', ShareObject (fst ir))] [],
        Node ''a'' [(''title'', ''Delete Object'')] [(''click'', DeleteObject (fst ir))] []]"

definition cid_cell :: "string \<Rightarrow> file_event elem list" where
  "cid_cell txt = [Node ''el-popover'' [] [] [Text txt, button txt (CopyCid txt)]]"

definition deal_member :: "shown_deal \<Rightarrow> string \<Rightarrow> string" where
  "deal_member d k = shown_text (json_get (sd_rest d) k)"

definition deal_columns :: "(shown_deal, file_event) column list" where
  "deal_columns =
     [(''Date'', \<lambda>d. [Text (sd_timeStamp d)]),
      (''W3SS ID'', \<lambda>d. [Text (deal_member d ''minerId'')]),
      (''Price'', \<lambda>d. [Text (deal_member d ''price'' @ '' FIL'')]),
      (''Deal CID'', \<lambda>d. cid_cell (deal_member d ''dealCid'')),
      (''Data CID'', \<lambda>d. cid_cell (deal_member d ''dataCid'')),
      (''Duration'', \<lambda>d. [Text (deal_member d ''duration'')])]"

text \<open>
  The deals of the expanded row. A deal without data makes the cells throw, and the table stays as it
  was rendered before, empty: the list is emptied when a row is expanded.
\<close>

definition deals_table :: "browser_view \<Rightarrow> file_event elem" where
  "deals_table v =
     el_table ''No Data'' deal_columns (if None \<in> set (bv_exChangeList v) then [] else map the (bv_exChangeList v))"

definition expand_cell :: "browser_view \<Rightarrow> nat \<times> row \<Rightarrow> file_event elem list" where
  "expand_cell v ir =
     Node ''i'' [] [(''click'', Expand (snd ir))] [] # v_if (rw_name (snd ir) \<in> set (bv_expands v)) [deals_table v]"

definition file_columns :: "(jsnum \<Rightarrow> jsnum) \<Rightarrow> browser_view \<Rightarrow> (nat \<times> row, file_event) column list" where
  "file_columns math_log v =
     [([], expand_cell v),
      (''Name'', name_cell v),
      (''Size'', \<lambda>ir. [Text (formatbytes math_log (rw_size (snd ir)))]),
      (''Last Modified'', \<lambda>ir. [Text (formatter (snd ir))]),
      ([], row_menu v)]"

definition file_table :: "(jsnum \<Rightarrow> jsnum) \<Rightarrow> row list \<Rightarrow> browser_view \<Rightarrow> file_event elem" where
  "file_table math_log screen v = el_table ''No Data'' (file_columns math_log v) (enumerate 0 screen)"

section \<open>The drawer and the dialogs\<close>

definition marked_drawer :: "browser_view \<Rightarrow> file_event elem list" where
  "marked_drawer v =
     v_if (bv_drawer v)
       [Node ''el-drawer'' [] [(''before-close'', DismissDrawer)]
          [Text (int_str (bv_drawIndex v) @ '' Object selected''), button ''Delete selected'' AskDeleteMarked,
           button (if bv_drawIndex v > 1 then ''Download all as zip'' else ''Download object'') DownloadMarked,
           button [] CloseMarked]]"

definition about_box :: "json \<Rightarrow> browser_view \<Rightarrow> file_event elem list" where
  "about_box about v =
     v_if (bv_openAboutShow v)
       [Node ''div'' [] [(''click'', ToggleAbout)]
          (concat (map (\<lambda>(title, k). [Text title, Text (shown_text (json_get about k))])
            [(''VERSION'', ''MinioVersion''), (''MEMORY'', ''MinioMemory''), (''PLATFORM'', ''MinioPlatform''),
             (''RUNTIME'', ''MinioRuntime'')]))]"

definition bucket_dialog :: "bool \<Rightarrow> browser_view \<Rightarrow> file_event elem list" where
  "bucket_dialog visible v =
     el_dialog visible [] DismissBucket
       [Node ''el-input'' [(''value'', bv_form_name v), (''placeholder'', ''Bucket Name'')] [(''input'', TypeBucket)] []]"

definition deletion_dialog :: "browser_view \<Rightarrow> file_event elem list" where
  "deletion_dialog v =
     el_dialog (bv_deleteDialogVisible v) [] AbandonDelete
       [Text ''Are you sure you want to delete?'', Text ''This cannot be undone!'',
        button ''Delete'' ConfirmDelete, button ''Cancel'' AbandonDelete]"

text \<open>The two child components, by the properties they get and the events they can send back.\<close>

definition child_dialogs :: "browser_view \<Rightarrow> file_event elem list" where
  "child_dialogs v =
     v_if (bv_isRouterAlive v \<and> bv_shareDialog v)
       [Node ''share-dialog'' [(''share_input'', bv_share_input v), (''postAdress'', bv_postAdress v)]
          ((''getshareDialog'', CloseShare) # (if bv_shareObjectShow v then [(''getShareGet'', ChangeExpiry)] else [])) []] @
     v_if (bv_changePass v) [Node ''change-password'' [] [(''getChangePass'', ClosePassword)] []]"

definition file_dialogs :: "json \<Rightarrow> bool \<Rightarrow> browser_view \<Rightarrow> file_event elem list" where
  "file_dialogs about form_visible v =
     about_box about v @ bucket_dialog form_visible v @ deletion_dialog v @ child_dialogs v"

text \<open>The dialog at position \<open>front\<close> was opened last, and is in front.\<close>

definition bring_front :: "nat \<Rightarrow> 'a list \<Rightarrow> 'a list" where
  "bring_front front ds = (if front < length ds then take front ds @ drop (Suc front) ds @ [ds ! front] else ds)"

definition file_page :: "nat \<Rightarrow> (jsnum \<Rightarrow> jsnum) \<Rightarrow> json \<Rightarrow> json \<Rightarrow> bool \<Rightarrow> row list \<Rightarrow> browser_view \<Rightarrow> file_event elem" where
  "file_page front math_log userd about form_visible screen v =
     under_dialogs
       (Node ''div'' [] [(''click'', ClickPage)] ([file_header math_log userd v, file_table math_log screen v] @ marked_drawer v))
       (bring_front front (file_dialogs about form_visible v))"

section \<open>What the events do\<close>

text \<open>What the handlers read outside the component.\<close>

record page_env =
  pe_api :: string
  pe_token :: string
  pe_host :: string
  pe_available :: "string list" \<comment> \<open>the full-screen calls of the browser\<close>
  pe_copied :: "bool option"
  pe_typed :: string
  pe_expiry :: "int \<times> int \<times> int" \<comment> \<open>days, hours, minutes\<close>

fun done_with :: "'s \<times> 'c list \<Rightarrow> ('s, 'c) outcome" where
  "done_with (s, cs) = Done s cs"

text \<open>The rows that stay expanded after a click on the arrow of \<open>r\<close>.\<close>

definition expanded_after :: "row \<Rightarrow> browser_view \<Rightarrow> nat" where
  "expanded_after r v =
     (if rw_name r \<in> set (bv_expands v) then length (bv_expands v) - 1 else length (bv_expands v) + 1)"

definition set_num :: "int \<times> int \<times> int \<Rightarrow> browser_view \<Rightarrow> browser_view" where
  "set_num n v = (case n of (d, h, m) \<Rightarrow> v\<lparr>bv_num_Day := d, bv_num_Hours := h, bv_num_Minutes := m\<rparr>)"

fun file_handle :: "page_env \<Rightarrow> file_event \<Rightarrow> browser_view \<Rightarrow> (browser_view, bv_cmd) outcome" where
  "file_handle env ClickPage v = Done v []"
| "file_handle env (Crumb i) v = done_with (buckerAdress i v)"
| "file_handle env EditPath v = done_with (editFun v)"
| "file_handle env TypePath v = Done (v\<lparr>bv_name_file := pe_typed env\<rparr>) []"
| "file_handle env LeavePath v = Done (editFileFun v) []"
| "file_handle env ToggleMenu v = Done (signBtn v) []"
| "file_handle env OpenPassword v = Done (v\<lparr>bv_changePass := True\<rparr>) []"
| "file_handle env FullScreen v = done_with (handleFullScreen (pe_available env) v)"
| "file_handle env ToggleAbout v = Done (openAbout v) []"
| "file_handle env (SignOut via_link) v =
     Done v ((if via_link then [RouterPush (ByPath ''/fs3/login'')] else []) @ snd (bv_logout (pe_api env) (pe_token env) v))"
| "file_handle env (Expand r) v = done_with (exChange (pe_api env) (pe_token env) r (expanded_after r v) v)"
| "file_handle env (MarkRow i now) v = drawPlay i now v"
| "file_handle env (OpenFolder name) v = done_with (curListFolder name v)"
| "file_handle env (RowMenu i) v = actClient i True v"
| "file_handle env (BackupObject i) v = Done (ShareToFil (bv_tableData v ! i) v) []"
| "file_handle env (ShareObject i) v = shareBtn (pe_api env) (pe_token env) (pe_host env) i v"
| "file_handle env (DeleteObject i) v = Done (deleteBtn (rw_name (bv_tableData v ! i)) v) []"
| "file_handle env (CopyCid txt) v = Done v (copyLink txt (pe_copied env))"
| "file_handle env AskDeleteMarked v = Done (v\<lparr>bv_deleteDialogVisible := True\<rparr>) []"
| "file_handle env DownloadMarked v = done_with (downloadFun (pe_api env) (pe_token env) v)"
| "file_handle env CloseMarked v = Done (drawPlayClose v) []"
| "file_handle env DismissDrawer v = Done v []"
| "file_handle env TypeBucket v = Done (v\<lparr>bv_form_name := pe_typed env\<rparr>) []"
| "file_handle env DismissBucket v = done_with (bv_getDialogClose v)"
| "file_handle env ConfirmDelete v = done_with (deleteListFun (pe_api env) (pe_token env) v)"
| "file_handle env AbandonDelete v = Done (v\<lparr>bv_deleteDialogVisible := False\<rparr>) []"
| "file_handle env CloseShare v = Done (bv_getshareDialog False v) []"
| "file_handle env ChangeExpiry v = getPresignedGet (pe_api env) (pe_token env) (pe_host env) (set_num (pe_expiry env) v)"
| "file_handle env ClosePassword v = Done (getChangePass False v) []"

text \<open>
  Clicks that end at their control: \<open>.stop\<close> in the template, and the table's own arrow; typing and leaving
  a field are no clicks.
\<close>

fun stays :: "file_event \<Rightarrow> bool" where
  "stays ToggleMenu = True"
| "stays (RowMenu i) = True"
| "stays (Expand r) = True"
| "stays TypePath = True"
| "stays LeavePath = True"
| "stays TypeBucket = True"
| "stays ev = False"

text \<open>The handler of the control, then the one of the page; an exception of the first is reported only.\<close>

definition file_click :: "page_env \<Rightarrow> file_event \<Rightarrow> browser_view \<Rightarrow> browser_view \<times> bv_cmd list" where
  "file_click env ev v =
     (let m = file_handle env ev v
      in if stays ev then (out_state m, out_cmds m)
         else let m' = actClient 0 False (out_state m) in (out_state m', out_cmds m @ out_cmds m'))"

section \<open>Which events the page offers\<close>

lemma set_bring_front: "set (bring_front front ds) = set ds"
proof (cases "front < length ds")
  case True
  from id_take_nth_drop [OF this] have "set ds = set (take front ds @ ds ! front # drop (Suc front) ds)" by simp
  with True show ?thesis by (auto simp: bring_front_def)
qed (simp add: bring_front_def)

lemma bring_front_Nil [simp]: "bring_front front ds = [] \<longleftrightarrow> ds = []"
  by (auto simp: bring_front_def)

definition dialog_events :: "file_event set" where
  "dialog_events = {ToggleAbout, TypeBucket, DismissBucket, ConfirmDelete, AbandonDelete, CloseShare, ChangeExpiry, ClosePassword}"

lemma dialogs_offer:
  assumes "d \<in> set (file_dialogs about form_visible v)" "ev \<in> set (reachable d)"
  shows "ev \<in> dialog_events \<and> (ev = ConfirmDelete \<longrightarrow> bv_deleteDialogVisible v)"
  using assms
  by (auto simp: file_dialogs_def about_box_def bucket_dialog_def deletion_dialog_def child_dialogs_def el_dialog_def v_if_def
      dialog_events_def split: if_splits)

lemma name_cell_offers:
  "set (concat (map reachable (name_cell v (i, r)))) \<subseteq> {MarkRow i True, MarkRow i False, OpenFolder (rw_name r)}"
  by (auto simp: name_cell_def mark_icon_def Let_def)

lemma row_menu_offers:
  "set (concat (map reachable (row_menu v (i, r)))) \<subseteq>
     {RowMenu i} \<union> (if rw_dropShow (bv_tableData v ! i) then {MarkRow i True, BackupObject i, ShareObject i, DeleteObject i} else {})"
  by (auto simp: row_menu_def v_if_def)

lemma deals_offer: "ev \<in> set (reachable (deals_table v)) \<Longrightarrow> \<exists>t. ev = CopyCid t"
  by (auto simp: deals_table_def reachable_table deal_columns_def cid_cell_def)

lemma table_offers:
  assumes "ev \<in> set (reachable (file_table math_log screen v))"
  shows "(\<exists>t. ev = CopyCid t) \<or> (\<exists>i < length screen. ev = Expand (screen ! i) \<or> ev = OpenFolder (rw_name (screen ! i)) \<or>
    ev = RowMenu i \<or> (\<exists>now. ev = MarkRow i now) \<or>
    rw_dropShow (bv_tableData v ! i) \<and> ev \<in> {BackupObject i, ShareObject i, DeleteObject i})"
proof -
  have "set (enumerate 0 screen) = (\<lambda>i. (i, screen ! i)) ` {..<length screen}"
    by (auto simp: in_set_enumerate_eq image_iff)
  then obtain i where i: "i < length screen"
    "ev \<in> set (concat (map reachable (expand_cell v (i, screen ! i)))) \<or> ev \<in> set (concat (map reachable (name_cell v (i, screen ! i)))) \<or>
     ev \<in> set (concat (map reachable (row_menu v (i, screen ! i))))"
    using assms by (auto simp: file_table_def reachable_table file_columns_def)
  from i(2) show ?thesis
  proof (elim disjE)
    assume "ev \<in> set (concat (map reachable (expand_cell v (i, screen ! i))))"
    then have "ev = Expand (screen ! i) \<or> (\<exists>t. ev = CopyCid t)"
      using deals_offer [of ev v] by (auto simp: expand_cell_def v_if_def split: if_splits)
    with i(1) show ?thesis by blast
  next
    assume "ev \<in> set (concat (map reachable (name_cell v (i, screen ! i))))"
    from subsetD [OF name_cell_offers this] i(1) show ?thesis by blast
  next
    assume "ev \<in> set (concat (map reachable (row_menu v (i, screen ! i))))"
    from subsetD [OF row_menu_offers this] i(1) show ?thesis by (auto split: if_splits)
  qed
qed

definition header_events :: "file_event set" where
  "header_events = {EditPath, TypePath, LeavePath, ToggleMenu, OpenPassword, FullScreen, ToggleAbout, SignOut True, SignOut False}"

lemma header_offers:
  assumes "ev \<in> set (reachable (file_header math_log userd v))"
  shows "ev \<in> header_events \<or> (\<exists>i < length (bv_currentBucketAll v). ev = Crumb i)"
proof -
  have "set (enumerate 0 (bv_currentBucketAll v)) = (\<lambda>i. (i, bv_currentBucketAll v ! i)) ` {..<length (bv_currentBucketAll v)}"
    by (auto simp: in_set_enumerate_eq image_iff)
  with assms show ?thesis
    by (auto simp: file_header_def path_view_def user_menu_def v_if_def header_events_def split: if_splits)
qed

lemma file_offers:
  assumes "ev \<in> set (reachable (file_page front math_log userd about form_visible screen v))"
  shows "ev \<in> dialog_events \<and> (ev = ConfirmDelete \<longrightarrow> bv_deleteDialogVisible v) \<or>
    \<not> bv_deleteDialogVisible v \<and>
      (ev = ClickPage \<or> ev \<in> header_events \<or> (\<exists>i < length (bv_currentBucketAll v). ev = Crumb i) \<or> (\<exists>t. ev = CopyCid t) \<or>
       (\<exists>i < length screen. ev = Expand (screen ! i) \<or> ev = OpenFolder (rw_name (screen ! i)) \<or> ev = RowMenu i \<or>
          (\<exists>now. ev = MarkRow i now) \<or> rw_dropShow (bv_tableData v ! i) \<and> ev \<in> {BackupObject i, ShareObject i, DeleteObject i}) \<or>
       bv_drawer v \<and> ev \<in> {AskDeleteMarked, DownloadMarked, CloseMarked, DismissDrawer})"
proof (cases "file_dialogs about form_visible v = []")
  case True
  then have "\<not> bv_deleteDialogVisible v" by (simp add: file_dialogs_def deletion_dialog_def)
  then show ?thesis
    using assms True header_offers [of ev math_log userd v] table_offers [of ev math_log screen v]
    by (auto simp: file_page_def reachable_under marked_drawer_def v_if_def split: if_splits)
next
  case False
  then have "last (bring_front front (file_dialogs about form_visible v)) \<in> set (file_dialogs about form_visible v)"
    using last_in_set [of "bring_front front (file_dialogs about form_visible v)"] by (simp add: set_bring_front)
  with False assms show ?thesis
    using dialogs_offer by (auto simp: file_page_def reachable_under)
qed

section \<open>What a confirmed deletion removes\<close>

text \<open>
  The names the screen shows with a check, when the table widget displays \<open>screen\<close>; and the names the
  deletion is asked for: those, or the name in the row whose bin was clicked.
\<close>

definition checked :: "row list \<Rightarrow> browser_view \<Rightarrow> string list" where
  "checked screen v = map (rw_name \<circ> snd) (filter (\<lambda>ir. \<not> rw_drawShow (bv_tableData v ! fst ir)) (enumerate 0 screen))"

fun asked_on :: "row list \<Rightarrow> browser_view \<Rightarrow> file_event \<Rightarrow> string list \<Rightarrow> string list" where
  "asked_on screen v AskDeleteMarked c = checked screen v"
| "asked_on screen v (DeleteObject i) c = [rw_name (screen ! i)]"
| "asked_on screen v ConfirmDelete c = []"
| "asked_on screen v ev c = c"

definition same_selection :: "browser_view \<Rightarrow> browser_view \<Rightarrow> bool" where
  "same_selection v w \<longleftrightarrow> bv_tableData v = bv_tableData w \<and> bv_drawIndex v = bv_drawIndex w \<and> bv_drawer v = bv_drawer w \<and>
     bv_deleteDialogIndex v = bv_deleteDialogIndex w \<and> bv_deleteDialogVisible v = bv_deleteDialogVisible w"

text \<open>
  What changes the page besides the user. Some things leave the selection: listings, answers to other requests, the
  plus button of the frame, and everything that has no part in it. Others drop it: the token of an archive, an upload
  that is done, a click on a bucket, and the key that asks for a new bucket.
\<close>

inductive page_keeps :: "browser_view \<Rightarrow> browser_view \<Rightarrow> bool" where
  page_lists: "bv_drawIndex v = 0 \<Longrightarrow> page_keeps v (aboutListData fmt l v)"
| page_removes: "obj \<notin> set (bv_deleteDialogIndex v) \<Longrightarrow> page_keeps v (fst (fst (remove_reply obj r (v, parent))))"
| page_no_token: "\<not> rpc_ok r \<Longrightarrow> page_keeps v (fst (urltoken_reply api r v))"
| page_key: "k \<noteq> 13 \<or> bv_form_name v = [] \<Longrightarrow> page_keeps v (fst (onkeydown k v))"
| page_plus: "page_keeps v (out_state (watch_addFileClick v))"
| page_other: "same_selection v w \<Longrightarrow> page_keeps v w"

inductive page_drops :: "browser_view \<Rightarrow> browser_view \<Rightarrow> bool" where
  page_token: "page_drops v (fst (urltoken_reply api (RpcResult tok) v))"
| page_bucket_key: "bv_form_name v \<noteq> [] \<Longrightarrow> page_drops v (fst (onkeydown 13 v))"
| page_upload: "page_drops v (watch_uploadClick v)"
| page_bucket: "page_drops v (out_state (watch_slideListClick v))"

text \<open>
  The page in use, with the names a deletion is asked for: by the last control that asks for one, until it
  is confirmed or the selection is dropped. The user does with the pointer what the page offers while the table widget
  keeps the order of the data; no listing arrives while rows are marked, and no object is removed while it is marked
  again.
\<close>

inductive file_use :: "browser_view \<Rightarrow> string list \<Rightarrow> bool" where
  file_opens: "file_use (bv_mounted fmt l (bv_init b)) []"
| file_clicks: "file_use v c \<Longrightarrow>
    ev \<in> set (reachable (file_page front math_log userd about form_visible (bv_tableData v) v)) \<Longrightarrow>
    file_use (fst (file_click env ev v)) (asked_on (bv_tableData v) v ev c)"
| file_keeps: "file_use v c \<Longrightarrow> page_keeps v w \<Longrightarrow> file_use w c"
| file_drops: "file_use v c \<Longrightarrow> page_drops v w \<Longrightarrow> file_use w []"

definition asked_ok :: "browser_view \<Rightarrow> string list \<Rightarrow> bool" where
  "asked_ok v c \<longleftrightarrow>
     bv_drawIndex v = int (length (selected v)) \<and> (bv_drawer v \<longleftrightarrow> selected v \<noteq> []) \<and>
     (selected v \<noteq> [] \<longrightarrow> bv_deleteDialogIndex v = selected v \<and> (\<forall>r \<in> set (bv_tableData v). \<not> rw_dropShow r)) \<and>
     (bv_deleteDialogVisible v \<longrightarrow> bv_deleteDialogIndex v = c)"

lemma asked_ok_same: "same_selection v w \<Longrightarrow> asked_ok v c = asked_ok w c"
  by (simp add: same_selection_def asked_ok_def selected_def)

lemma asked_ok_closed: "asked_ok v c \<Longrightarrow> asked_ok (drawPlayClose v) []"
  by (simp add: asked_ok_def) (simp add: drawPlayClose_def)

lemma asked_ok_hidden: "\<not> bv_deleteDialogVisible v \<Longrightarrow> asked_ok v c = asked_ok v d"
  by (simp add: asked_ok_def)

lemma bubble:
  "out_state (actClient 0 False v) = v\<lparr>bv_tableData := map (\<lambda>r. r\<lparr>rw_dropShow := False\<rparr>) (bv_tableData v), bv_signShow := False\<rparr>"
  by (cases "bv_tableData v") (simp_all add: actClient_def Let_def)

lemma selected_menus [simp]:
  "selected (v\<lparr>bv_tableData := map (\<lambda>r. r\<lparr>rw_dropShow := False\<rparr>) rows, bv_signShow := b\<rparr>) = selected (v\<lparr>bv_tableData := rows\<rparr>)"
  by (simp add: selected_def filter_map comp_def)

lemma selected_rows [simp]: "selected (v\<lparr>bv_tableData := bv_tableData v\<rparr>) = selected v"
  by simp

text \<open>The click on the page around a control closes the menus, so that marking is enough to agree.\<close>

lemma bubble_ok:
  assumes "bv_drawIndex v = int (length (selected v))" "bv_drawer v \<longleftrightarrow> selected v \<noteq> []"
    and "selected v \<noteq> [] \<Longrightarrow> bv_deleteDialogIndex v = selected v"
    and "bv_deleteDialogVisible v \<Longrightarrow> bv_deleteDialogIndex v = c"
  shows "asked_ok (out_state (actClient 0 False v)) c"
  using assms by (auto simp: asked_ok_def bubble)

lemma bubble_keeps: "asked_ok v c \<Longrightarrow> asked_ok (out_state (actClient 0 False v)) c"
  by (rule bubble_ok) (simp_all add: asked_ok_def)

lemma checked_unsorted: "checked (bv_tableData v) v = selected v"
proof -
  have "filter (\<lambda>ir. \<not> rw_drawShow (bv_tableData v ! fst ir)) (enumerate 0 (bv_tableData v))
      = filter (\<lambda>ir. \<not> rw_drawShow (snd ir)) (enumerate 0 (bv_tableData v))"
    by (rule filter_cong) (auto simp: in_set_enumerate_eq)
  moreover have "map (rw_name \<circ> snd) (filter (\<lambda>ir. \<not> rw_drawShow (snd ir)) (enumerate n rows))
      = map rw_name (filter (\<lambda>r. \<not> rw_drawShow r) rows)" for n rows
    by (induction rows arbitrary: n) simp_all
  ultimately show ?thesis by (simp add: checked_def selected_def)
qed

text \<open>The controls that leave the selection alone.\<close>

fun selects :: "file_event \<Rightarrow> bool" where
  "selects (MarkRow i now) = True"
| "selects (RowMenu i) = True"
| "selects (DeleteObject i) = True"
| "selects AskDeleteMarked = True"
| "selects CloseMarked = True"
| "selects ConfirmDelete = True"
| "selects AbandonDelete = True"
| "selects ev = False"

lemma presigned_same: "same_selection v (out_state (getPresignedGet api token host v))"
  by (auto simp: getPresignedGet_def same_selection_def split: option.split)

lemma handle_same: "\<not> selects ev \<Longrightarrow> same_selection v (out_state (file_handle env ev v))"
proof (cases ev)
  case (ShareObject i)
  show ?thesis
    by (auto simp: ShareObject shareBtn_def getPresignedGet_def same_selection_def split: option.split)
next
  case ChangeExpiry
  have "same_selection v (set_num n v)" for n by (cases n) (simp add: set_num_def same_selection_def)
  then show ?thesis
    using presigned_same [of "set_num (pe_expiry env) v"] by (simp add: ChangeExpiry same_selection_def)
qed (simp_all add: same_selection_def buckerAdress_def editFun_def editFileFun_def signBtn_def handleFullScreen_def openAbout_def
    exChange_def tableJson_def curListFolder_def ShareToFil_def downloadFun_def bv_getDialogClose_def bv_getshareDialog_def
    getChangePass_def Let_def)

lemma mark_selected:
  assumes "i < length (bv_tableData v)"
  shows "\<exists>w. out_state (drawPlay i now v) = w \<and> bv_drawIndex w = int (length (selected w)) \<and> bv_deleteDialogIndex w = selected w \<and>
    (bv_drawer w \<longleftrightarrow> selected w \<noteq> []) \<and> bv_deleteDialogVisible w = bv_deleteDialogVisible v"
proof -
  have "bv_deleteDialogVisible (out_state (drawPlay i now v)) = bv_deleteDialogVisible v"
    by (auto simp: drawPlay_def Let_def drawPlayClose_def split: prod.split)
  with drawPlay_result [OF assms, of now] show ?thesis by auto
qed

lemma menu_selected:
  "i < length (bv_tableData v) \<Longrightarrow> \<not> bv_deleteDialogVisible v \<Longrightarrow> asked_ok (out_state (actClient i True v)) c"
  by (auto simp: actClient_def Let_def asked_ok_def drawPlayClose_def selected_def filter_empty_conv)

text \<open>A click of what the page offers.\<close>

lemma click_asked:
  assumes "asked_ok v c" "ev \<in> set (reachable (file_page front math_log userd about form_visible (bv_tableData v) v))"
  shows "asked_ok (fst (file_click env ev v)) (asked_on (bv_tableData v) v ev c)"
proof (cases "selects ev")
  case False
  then have same: "same_selection v (out_state (file_handle env ev v))" by (rule handle_same)
  have "asked_on (bv_tableData v) v ev c = c" using False by (cases ev) simp_all
  moreover have "asked_ok (out_state (file_handle env ev v)) c" using asked_ok_same [OF same] assms(1) by simp
  ultimately show ?thesis by (auto simp: file_click_def Let_def bubble_keeps)
next
  case True
  note offers = file_offers [OF assms(2)]
  show ?thesis
  proof (cases ev)
    case (MarkRow i now)
    have i: "i < length (bv_tableData v)" "\<not> bv_deleteDialogVisible v"
      using offers by (auto simp: MarkRow dialog_events_def header_events_def)
    from mark_selected [OF i(1), of now] i(2) show ?thesis
      by (auto simp: MarkRow file_click_def Let_def intro!: bubble_ok)
  next
    case (RowMenu i)
    then have "i < length (bv_tableData v)" "\<not> bv_deleteDialogVisible v"
      using offers by (auto simp: dialog_events_def header_events_def)
    then show ?thesis using menu_selected by (simp add: RowMenu file_click_def Let_def)
  next
    case (DeleteObject i)
    then have "i < length (bv_tableData v)" "rw_dropShow (bv_tableData v ! i)"
      using offers by (auto simp: dialog_events_def header_events_def)
    then have "selected v = []" using assms(1) nth_mem by (fastforce simp: asked_ok_def)
    moreover have "selected (deleteBtn n v) = selected v" for n by (simp add: deleteBtn_def selected_def)
    ultimately show ?thesis
      using assms(1) unfolding file_click_def DeleteObject
      by (simp add: Let_def) (rule bubble_ok, simp_all add: deleteBtn_def asked_ok_def)
  next
    case AskDeleteMarked
    then have "bv_drawer v" using offers by (auto simp: dialog_events_def header_events_def)
    moreover have "selected (v\<lparr>bv_deleteDialogVisible := True\<rparr>) = selected v" by (simp add: selected_def)
    ultimately show ?thesis
      using assms(1) unfolding file_click_def AskDeleteMarked
      by (simp add: Let_def checked_unsorted) (rule bubble_ok, simp_all add: asked_ok_def)
  next
    case CloseMarked
    then have "\<not> bv_deleteDialogVisible v" using offers by (auto simp: dialog_events_def header_events_def)
    then have "\<not> bv_deleteDialogVisible (drawPlayClose v)" by (simp add: drawPlayClose_def)
    from asked_ok_hidden [OF this, of "[]" c] asked_ok_closed [OF assms(1)] show ?thesis
      by (simp add: CloseMarked file_click_def Let_def bubble_keeps)
  next
    case ConfirmDelete
    then show ?thesis using assms(1) by (simp add: file_click_def Let_def bubble_keeps asked_ok_closed deleteListFun_def)
  next
    case AbandonDelete
    have "selected (v\<lparr>bv_deleteDialogVisible := False\<rparr>) = selected v" by (simp add: selected_def)
    then show ?thesis
      using assms(1) unfolding file_click_def AbandonDelete
      by (simp add: Let_def) (rule bubble_ok, simp_all add: asked_ok_def)
  qed (use True in simp_all)
qed

lemma remove_keeps:
  "(\<And>r. P r \<Longrightarrow> rw_name r \<noteq> obj) \<Longrightarrow> filter P (remove_while_mapping obj n k rows) = filter P rows"
proof (induction obj n k rows rule: remove_while_mapping.induct)
  case (2 obj n k rows)
  show ?case
  proof (cases "k < length rows \<and> obj = rw_name (rows ! k)")
    case True
    then have "js_splice rows (int k) 1 = take k rows @ drop (Suc k) rows" by (simp add: js_splice_def Let_def)
    moreover have "filter P rows = filter P (take k rows) @ filter P (drop (Suc k) rows)"
      using True 2(2) [of "rows ! k"] id_take_nth_drop [of k rows] by (metis filter.simps(2) filter_append)
    ultimately have "filter P (js_splice rows (int k) 1) = filter P rows" by simp
    with True 2 show ?thesis by (simp del: One_nat_def)
  next
    case False
    with "2.IH" [OF "2.prems"] show ?thesis by (simp only: remove_while_mapping.simps if_False)
  qed
qed simp

lemma remove_subset: "set (remove_while_mapping obj n k rows) \<subseteq> set rows"
proof (induction obj n k rows rule: remove_while_mapping.induct)
  case (2 obj n k rows)
  have "set (js_splice rows (int k) 1) \<subseteq> set rows" by (rule set_js_splice)
  with 2 show ?case by (auto split: if_splits)
qed simp

lemma remove_asked:
  assumes "asked_ok v c" "obj \<notin> set (bv_deleteDialogIndex v)"
  shows "asked_ok (fst (fst (remove_reply obj r (v, parent)))) c"
proof (cases r)
  case (RpcResult u)
  let ?rows = "remove_while_mapping obj (length (bv_tableData v)) 0 (bv_tableData v)"
  have unmarked: "obj \<notin> set (selected v)" using assms by (cases "selected v = []") (auto simp: asked_ok_def)
  have "filter (\<lambda>r. \<not> rw_drawShow r \<and> rw_name r \<noteq> obj) ?rows = filter (\<lambda>r. \<not> rw_drawShow r \<and> rw_name r \<noteq> obj) (bv_tableData v)"
    by (rule remove_keeps) simp
  moreover have "\<And>rows. set rows \<subseteq> set (bv_tableData v) \<Longrightarrow>
      filter (\<lambda>r. \<not> rw_drawShow r \<and> rw_name r \<noteq> obj) rows = filter (\<lambda>r. \<not> rw_drawShow r) rows"
    using unmarked by (intro filter_cong) (auto simp: selected_def)
  ultimately have "filter (\<lambda>r. \<not> rw_drawShow r) ?rows = filter (\<lambda>r. \<not> rw_drawShow r) (bv_tableData v)"
    using remove_subset by simp
  then have "selected (v\<lparr>bv_tableData := ?rows, bv_deleteDialogVisible := False\<rparr>) = selected v" by (simp add: selected_def)
  moreover have "set ?rows \<subseteq> set (bv_tableData v)" by (rule remove_subset)
  ultimately show ?thesis
    using assms(1) unfolding asked_ok_def by (simp add: RpcResult Let_def) (blast dest: subsetD)
qed (use assms in simp_all)

lemma submit_same: "same_selection v (fst (submit_path v))"
  by (simp add: submit_path_def Let_def same_selection_def)

lemma keeps_asked: "page_keeps v w \<Longrightarrow> asked_ok v c \<Longrightarrow> asked_ok w c"
proof (induction rule: page_keeps.induct)
  case (page_lists v fmt l)
  have none: "selected (aboutListData fmt l v) = []"
    by (auto simp: aboutListData_def selected_def filter_empty_conv row_of_def split: option.split)
  have "selected v = []" using page_lists by (simp add: asked_ok_def)
  with page_lists none show ?case by (simp add: asked_ok_def) (simp add: aboutListData_def)
next
  case (page_no_token r v api)
  then show ?case by (cases r) simp_all
next
  case (page_key k v)
  then show ?case using asked_ok_same [OF submit_same [of v]] by (auto simp: onkeydown_def Let_def case_prod_unfold)
next
  case (page_plus v)
  then show ?case by (simp add: watch_addFileClick_def bubble_keeps)
next
  case (page_other v w)
  then show ?case using asked_ok_same by blast
qed (auto intro: remove_asked)

lemma drops_asked: "page_drops v w \<Longrightarrow> asked_ok v c \<Longrightarrow> asked_ok w []"
proof (induction rule: page_drops.induct)
  case (page_token v api tok)
  have "same_selection v (v\<lparr>bv_presonToken := tok\<rparr>)" by (simp add: same_selection_def)
  from asked_ok_same [OF this] page_token show ?case by (simp add: Let_def asked_ok_closed)
next
  case (page_bucket_key v)
  have "same_selection v (v\<lparr>bv_form_name := []\<rparr>)" by (simp add: same_selection_def)
  from asked_ok_same [OF this] page_bucket_key have "asked_ok (fst (bv_getServer v)) []"
    by (simp add: bv_getServer_def asked_ok_closed)
  with page_bucket_key.hyps asked_ok_same [OF submit_same [of "fst (bv_getServer v)"]] show ?case
    by (auto simp: onkeydown_def Let_def case_prod_unfold)
next
  case (page_upload v)
  then show ?case by (simp add: watch_uploadClick_def asked_ok_closed)
next
  case (page_bucket v)
  then have "asked_ok (v\<lparr>bv_currentBucketAll := xs, bv_prefixName := p\<rparr>) c" for xs p
    by (simp add: asked_ok_def selected_def)
  from asked_ok_closed [OF this] show ?case by (simp add: watch_slideListClick_def bubble_keeps)
qed

lemma file_use_asked: "file_use v c \<Longrightarrow> asked_ok v c"
proof (induction rule: file_use.induct)
  case (file_opens fmt l b)
  show ?case
    by (auto simp: asked_ok_def bv_mounted_def aboutListData_def bv_init_def selected_def filter_empty_conv row_of_def split: option.split)
qed (auto intro: click_asked keeps_asked drops_asked)

lemma confirm_sends:
  assumes "file_use v c" "bv_deleteDialogVisible v"
  shows "snd (file_click env ConfirmDelete v) = map (\<lambda>name. getRemoveObject (pe_api env) (pe_token env) name v) c"
proof -
  from file_use_asked [OF assms(1)] assms(2) have "bv_deleteDialogIndex v = c" by (simp add: asked_ok_def)
  moreover have "out_cmds (actClient 0 False w) = []" for w by (cases "bv_tableData w") (simp_all add: actClient_def Let_def)
  ultimately show ?thesis by (simp add: file_click_def Let_def deleteListFun_def)
qed

text \<open>
  C11: a confirmed deletion removes what the screen showed. In every use of the page with the pointer in which the table
  keeps the order of its data, no listing arrives while rows are marked and no object is removed while it is
  marked again: when the dialog's Delete can be clicked, the click sends exactly one request for each name that had
  a check when the deletion was asked for, or the one request for the row whose bin was clicked. Only when the
  selection was dropped under the dialog - by an upload that ended, an archive's token, another bucket, or the key that
  asks for a new bucket - there is nothing to send.
\<close>

theorem deletes_what_was_asked:
  assumes "file_use v c"
    and "ConfirmDelete \<in> set (reachable (file_page front math_log userd about form_visible (bv_tableData v) v))"
  shows "snd (file_click env ConfirmDelete v) = map (\<lambda>name. getRemoveObject (pe_api env) (pe_token env) name v) c"
  using confirm_sends [OF assms(1)] file_offers [OF assms(2)] by (auto simp: header_events_def)

lemma mark_offered:
  assumes "file_dialogs about form_visible v = []" "i < length screen"
  shows "MarkRow i (rw_drawShow (bv_tableData v ! i)) \<in> set (reachable (file_page front math_log userd about form_visible screen v))"
proof -
  let ?ev = "MarkRow i (rw_drawShow (bv_tableData v ! i))"
  have "(i, screen ! i) \<in> set (enumerate 0 screen)" using assms(2) by (auto simp: in_set_enumerate_eq)
  moreover have "?ev \<in> set (concat (map reachable (name_cell v (i, screen ! i))))"
    by (simp add: name_cell_def mark_icon_def Let_def)
  ultimately have "?ev \<in> set (reachable (file_table math_log screen v))"
    unfolding file_table_def reachable_table file_columns_def by (intro CollectI bexI [of _ "(i, screen ! i)"]) auto
  then show ?thesis using assms(1) by (simp add: file_page_def reachable_under)
qed

lemma drawer_offered:
  assumes "file_dialogs about form_visible v = []" "bv_drawer v"
  shows "AskDeleteMarked \<in> set (reachable (file_page front math_log userd about form_visible screen v))"
  using assms by (simp add: file_page_def reachable_under marked_drawer_def v_if_def)

lemma confirm_offered_alone:
  assumes "bv_deleteDialogVisible v" "\<not> bv_openAboutShow v" "\<not> (bv_isRouterAlive v \<and> bv_shareDialog v)" "\<not> bv_changePass v"
  shows "ConfirmDelete \<in> set (reachable (file_page front math_log userd about False screen v))"
proof -
  have "file_dialogs about False v = deletion_dialog v"
    using assms by (simp add: file_dialogs_def about_box_def bucket_dialog_def child_dialogs_def v_if_def el_dialog_def)
  moreover have "bring_front front (deletion_dialog v) = deletion_dialog v" for front
    by (cases front) (simp_all add: bring_front_def deletion_dialog_def el_dialog_def v_if_def)
  ultimately show ?thesis using assms(1) by (simp add: file_page_def reachable_under deletion_dialog_def el_dialog_def v_if_def)
qed

definition sample_env :: page_env where
  "sample_env = \<lparr>pe_api = [], pe_token = [], pe_host = [], pe_available = [], pe_copied = None, pe_typed = [], pe_expiry = (1, 0, 0)\<rparr>"

definition sample_view :: browser_view where
  "sample_view = bv_mounted id \<lparr>ls_objects = Some (map object_of sample_rows), ls_writable = True\<rparr> (bv_init ''b'')"

theorem deletes_what_was_asked_witness:
  "\<exists>v. snd (file_click sample_env ConfirmDelete v) = [getRemoveObject [] [] ''b.txt'' v]"
proof -
  let ?page = "\<lambda>v. set (reachable (file_page 0 id JUndef JUndef False (bv_tableData v) v))"
  define v1 where "v1 = fst (file_click sample_env (MarkRow 1 True) sample_view)"
  define v2 where "v2 = fst (file_click sample_env AskDeleteMarked v1)"
  have fields: "length (bv_tableData sample_view) = 3" "rw_drawShow (bv_tableData sample_view ! 1)"
    "file_dialogs JUndef False sample_view = []"
    by (simp_all add: sample_view_def bv_mounted_def aboutListData_def sample_rows_def row_of_def object_of_def bv_init_def
        file_dialogs_def about_box_def bucket_dialog_def deletion_dialog_def child_dialogs_def v_if_def)
  have "file_use sample_view []" unfolding sample_view_def by (rule file_opens)
  moreover have "MarkRow 1 True \<in> ?page sample_view"
    using mark_offered [OF fields(3), of 1 "bv_tableData sample_view"] fields(1,2) by simp
  ultimately have r1: "file_use v1 []" unfolding v1_def using file_clicks by fastforce
  have v1: "bv_drawer v1" "bv_deleteDialogIndex v1 = [''b.txt'']" "file_dialogs JUndef False v1 = []"
    by (simp_all add: v1_def file_click_def bubble drawPlay_def sample_view_def bv_mounted_def aboutListData_def sample_rows_def
        row_of_def object_of_def bv_init_def file_dialogs_def about_box_def bucket_dialog_def deletion_dialog_def child_dialogs_def v_if_def)
  from file_clicks [OF r1 drawer_offered [OF v1(3,1)]]
  have r2: "file_use v2 (checked (bv_tableData v1) v1)" by (simp add: v2_def)
  have v2: "bv_deleteDialogVisible v2" "bv_deleteDialogIndex v2 = [''b.txt'']"
    "\<not> bv_openAboutShow v2" "\<not> (bv_isRouterAlive v2 \<and> bv_shareDialog v2)" "\<not> bv_changePass v2"
    using v1(2,3)
    by (simp_all add: v2_def file_click_def Let_def bubble file_dialogs_def about_box_def child_dialogs_def v_if_def split: if_splits)
  have "selected v1 = [''b.txt'']"
    using file_use_asked [OF r1] v1(1,2) by (auto simp: asked_ok_def)
  then show ?thesis
    using deletes_what_was_asked [OF r2 confirm_offered_alone [OF v2(1,3-5)], where env = sample_env]
    by (auto simp: checked_unsorted sample_env_def)
qed

section \<open>The rendered page in the frame\<close>

lemma bubble_frame:
  "folder_of (out_state (actClient 0 False v)) = folder_of v" "table_names (out_state (actClient 0 False v)) = table_names v"
  "out_cmds (actClient 0 False v) = []"
  by (simp_all add: frame_simps, cases "bv_tableData v", simp_all add: actClient_def Let_def)

text \<open>The controls that are neither a crumb nor a folder: they keep the folder, and tell the frame at most to close a dialog.\<close>

fun moves :: "file_event \<Rightarrow> bool" where
  "moves (Crumb i) = True"
| "moves (OpenFolder name) = True"
| "moves ev = False"

definition quiet_cmds :: "bv_cmd list \<Rightarrow> bool" where
  "quiet_cmds cs \<longleftrightarrow> (\<forall>e args. Emit e args \<in> set cs \<longrightarrow> e = ''getDialogClose'')"

lemma quiet_cmds_simps [simp]:
  "quiet_cmds []" "quiet_cmds (c # cs) \<longleftrightarrow> (\<forall>e args. c = Emit e args \<longrightarrow> e = ''getDialogClose'') \<and> quiet_cmds cs"
  "quiet_cmds (cs @ ds) \<longleftrightarrow> quiet_cmds cs \<and> quiet_cmds ds" "quiet_cmds (map DomCall xs)"
  by (auto simp: quiet_cmds_def)

lemma presigned_quiet:
  "folder_of (out_state (getPresignedGet api token host v)) = folder_of v"
  "table_names (out_state (getPresignedGet api token host v)) = table_names v"
  "quiet_cmds (out_cmds (getPresignedGet api token host v))"
  by (auto simp: getPresignedGet_def bv_post_def quiet_cmds_def split: option.split)

lemma handle_quiet:
  assumes "\<not> moves ev"
  shows "folder_of (out_state (file_handle env ev v)) = folder_of v \<and> table_names (out_state (file_handle env ev v)) = table_names v \<and>
    quiet_cmds (out_cmds (file_handle env ev v))"
proof (cases ev)
  case (MarkRow i now)
  then show ?thesis by (simp add: frame_simps quiet_cmds_def)
next
  case (RowMenu i)
  have "quiet_cmds (out_cmds (actClient i True v))"
    unfolding quiet_cmds_def by (fastforce dest: subsetD [OF actClient_frame(3)])
  then show ?thesis by (simp add: RowMenu frame_simps)
next
  case CloseMarked
  then show ?thesis by (simp add: frame_simps quiet_cmds_def)
next
  case ConfirmDelete
  then show ?thesis by (auto simp: deleteListFun_def frame_simps quiet_cmds_def getRemoveObject_def bv_post_def)
next
  case (ShareObject i)
  show ?thesis
    by (auto simp: ShareObject shareBtn_def getPresignedGet_def bv_post_def quiet_cmds_def folder_of_def table_names_def split: option.split)
next
  case ChangeExpiry
  have "folder_of (set_num n v) = folder_of v" "table_names (set_num n v) = table_names v" for n
    by (cases n, simp add: set_num_def folder_of_def table_names_def)+
  then show ?thesis by (simp add: ChangeExpiry presigned_quiet)
next
  case FullScreen
  have "\<exists>xs. snd (handleFullScreen available v) = map DomCall xs" for available
    unfolding handleFullScreen_def Let_def snd_conv by blast
  then obtain xs where xs: "snd (handleFullScreen (pe_available env) v) = map DomCall xs" by blast
  have "folder_of (fst (handleFullScreen a v)) = folder_of v \<and> table_names (fst (handleFullScreen a v)) = table_names v" for a
    by (simp add: handleFullScreen_def Let_def folder_of_def table_names_def)
  from this [of "pe_available env"] xs show ?thesis
    by (cases "handleFullScreen (pe_available env) v") (simp add: FullScreen)
next
  case (CopyCid cid)
  then show ?thesis by (auto simp: copyLink_def quiet_cmds_def)
qed (use assms in \<open>simp_all add: folder_of_def table_names_def editFun_def editFileFun_def signBtn_def
    openAbout_def bv_logout_def bv_post_def exChange_def Let_def tableJson_def ShareToFil_def deleteBtn_def downloadFun_def
    bv_getDialogClose_def bv_getshareDialog_def getChangePass_def\<close>)

definition file_in_frame :: "string \<Rightarrow> string \<Rightarrow> (string \<Rightarrow> string) \<Rightarrow> page_env \<Rightarrow> file_event \<Rightarrow> app_frame \<Rightarrow> app_frame" where
  "file_in_frame api token fmt env ev f =
     (case file_click env ev (fr_view f) of (v, cs) \<Rightarrow> page_handled api token fmt None v cs f)"

lemma quiet_in_frame:
  assumes "same_folder f" "same_names f" "\<not> moves ev"
  shows "same_folder (file_in_frame api token fmt env ev f) \<and> same_names (file_in_frame api token fmt env ev f)"
proof -
  let ?r = "file_click env ev (fr_view f)"
  have r: "folder_of (fst ?r) = folder_of (fr_view f)" "table_names (fst ?r) = table_names (fr_view f)" "quiet_cmds (snd ?r)"
    using handle_quiet [OF assms(3), of env "fr_view f"] by (auto simp: file_click_def Let_def bubble_frame)
  have "core_of (fst (run_events (page_listener api token None) (snd ?r) (fr_home f))) = core_of (fr_home f)"
    using r(3) by (intro page_quiet.run_keeps) (auto simp: quiet_cmds_def)
  from quiet_event [OF assms(1,2) this r(1,2)] show ?thesis
    by (simp add: file_in_frame_def page_handled_def case_prod_unfold)
qed

lemma click_keeps_agreement:
  assumes "same_folder f" "same_names f"
    and "\<And>i. ev = Crumb i \<Longrightarrow> i < length (bv_currentBucketAll (fr_view f))"
    and "\<And>name. ev = OpenFolder name \<Longrightarrow> \<exists>x. name = folder_key (bv_prefixName (fr_view f)) x \<and> x \<noteq> [] \<and> CHR ''/'' \<notin> set x"
  shows "same_folder (file_in_frame api token fmt env ev f) \<and> same_names (file_in_frame api token fmt env ev f)"
proof (cases "moves ev")
  case False
  with assms(1,2) show ?thesis by (rule quiet_in_frame)
next
  case True
  let ?v = "fr_view f"
  have ok: "crumbs_ok ?v" "bv_currentBucketAll ?v \<noteq> []" using assms(1) by (auto simp: same_folder_def crumbs_ok_def)
  have bubbled: "same_folder (file_in_frame api token fmt env ev f) \<and> same_names (file_in_frame api token fmt env ev f)"
    if handled: "file_handle env ev ?v = Done w [emit_list w]" "\<not> stays ev"
      and w: "crumbs_ok w" "hd (bv_currentBucketAll w) = hd (bv_currentBucketAll ?v)" "bv_currentBucket w = bv_currentBucket ?v"
        "table_names w = table_names ?v" for w
  proof -
    let ?w = "out_state (actClient 0 False w)"
    have folder: "folder_of ?w = folder_of w" "table_names ?w = table_names w" by (rule bubble_frame)+
    then have eqs: "bv_currentBucket ?w = bv_currentBucket w" "bv_prefixName ?w = bv_prefixName w"
      "bv_currentBucketAll ?w = bv_currentBucketAll w" by (simp_all add: folder_of_eq)
    have "file_click env ev ?v = (?w, [emit_list ?w])"
      using handled by (simp add: file_click_def Let_def bubble_frame emit_list_def eqs)
    moreover have "same_folder (page_handled api token fmt None ?w [emit_list ?w] f) \<and> same_names (page_handled api token fmt None ?w [emit_list ?w] f)"
      using page_asks_agrees [OF assms(1,2), of ?w api token fmt] w crumbs_ok_cong [OF folder(1)] folder(2) eqs
      by (auto simp: crumbs_ok_def)
    ultimately show ?thesis by (simp add: file_in_frame_def)
  qed
  show ?thesis
  proof (cases ev)
    case (Crumb i)
    then have i: "i < length (bv_currentBucketAll ?v)" by (rule assms(3))
    show ?thesis
    proof (rule bubbled)
      show "file_handle env ev ?v = Done (fst (buckerAdress i ?v)) [emit_list (fst (buckerAdress i ?v))]"
        by (simp add: Crumb buckerAdress_def Let_def)
    qed (use click_crumb [OF ok(1) i] ok(2) in \<open>simp_all add: Crumb table_names_def hd_take\<close>)
  next
    case (OpenFolder name)
    then obtain x where x: "name = folder_key (bv_prefixName ?v) x" "x \<noteq> []" "CHR ''/'' \<notin> set x" using assms(4) by blast
    show ?thesis
    proof (rule bubbled)
      show "file_handle env ev ?v = Done (fst (curListFolder name ?v)) [emit_list (fst (curListFolder name ?v))]"
        by (simp add: OpenFolder curListFolder_def Let_def)
    qed (use enter_folder [OF ok(1) x(2,3)] ok(2) in \<open>simp_all add: OpenFolder x(1) table_names_def\<close>)
  qed (use True in simp_all)
qed

text \<open>
  Whatever control of the rendered page is clicked, sorted or not, the page and the frame keep
  agreeing on the folder, and the table keeps the names of the frame's listing, provided the table's
  folders are names below the current prefix, as in a listing of it.
\<close>

theorem rendered_page_keeps_agreement:
  assumes "same_folder f" "same_names f"
    and "ev \<in> set (reachable (file_page front math_log userd about form_visible screen (fr_view f)))"
    and "\<And>name. ev = OpenFolder name \<Longrightarrow> \<exists>x. name = folder_key (bv_prefixName (fr_view f)) x \<and> x \<noteq> [] \<and> CHR ''/'' \<notin> set x"
  shows "same_folder (file_in_frame api token fmt env ev f) \<and> same_names (file_in_frame api token fmt env ev f)"
proof (rule click_keeps_agreement [OF assms(1,2)])
  show "i < length (bv_currentBucketAll (fr_view f))" if "ev = Crumb i" for i
    using file_offers [OF assms(3)] that by (auto simp: dialog_events_def header_events_def)
qed (rule assms(4))

lemma crumb_offered:
  assumes "file_dialogs about form_visible v = []" "bv_editNameFile v" "i < length (bv_currentBucketAll v)"
  shows "Crumb i \<in> set (reachable (file_page front math_log userd about form_visible screen v))"
proof -
  have "(i, bv_currentBucketAll v ! i) \<in> set (enumerate 0 (bv_currentBucketAll v))" using assms(3) by (auto simp: in_set_enumerate_eq)
  then have "Crumb i \<in> set (reachable (file_header math_log userd v))"
    using assms(2) by (auto simp: file_header_def path_view_def intro!: bexI [of _ "(i, bv_currentBucketAll v ! i)"])
  then show ?thesis using assms(1) by (simp add: file_page_def reachable_under)
qed

theorem rendered_page_keeps_agreement_witness:
  "same_names (file_in_frame [] [] id sample_env (Crumb 0) (open_page id sample_home slide_init))"
proof -
  let ?f = "open_page id sample_home slide_init"
  have "frame_run [] [] id ?f" by (rule opened_page) (simp_all add: sample_home_def home_init_def)
  then have agree: "same_folder ?f" "same_names ?f" by (simp_all add: frame_run_agrees)
  then have "0 < length (bv_currentBucketAll (fr_view ?f))" by (auto simp: same_folder_def crumbs_ok_def)
  moreover have "bv_editNameFile (fr_view ?f)" "file_dialogs JUndef False (fr_view ?f) = []"
    by (simp_all add: open_page_def bv_mounted_def aboutListData_def bv_init_def file_dialogs_def about_box_def bucket_dialog_def
        deletion_dialog_def child_dialogs_def v_if_def)
  ultimately have "Crumb 0 \<in> set (reachable (file_page 0 id JUndef JUndef False [] (fr_view ?f)))" by (intro crumb_offered)
  from rendered_page_keeps_agreement [OF agree this] show ?thesis by simp
qed

end
