(* ===== verification/Slide_View.thy ===== *)
theory Slide_View
  imports Page_Elements App_Frame
begin

text \<open>
  What the side bar renders (template of \<open>components/Slide.vue\<close>), what its controls do together with the
  click handlers around them (the entry of the bucket, the side bar, the frame), and which bucket the
  policy dialog changes.
\<close>

section \<open>The template\<close>

datatype side_event =
    ClickSide
  | Stretch bool
  | TypeSearch
  | PickBucket string
  | MenuOf nat string
  | EditPolicy string nat
  | BackupOf string
  | RetrieveOf string
  | DeleteOf string nat
  | GoRoute string
  | GoHost
  | SideLogout bool \<comment> \<open>through the link, or beside it\<close>
  | TypePrefix
  | PickPolicy string
  | AddPolicy
  | RemovePolicy bucket_policy
  | ClosePolicies

definition bucket_entry :: "slide \<Rightarrow> nat \<times> bucket \<Rightarrow> side_event elem" where
  "bucket_entry s ib =
     (case ib of (index, item) \<Rightarrow>
        Node ''el-col'' (if bk_name item = sl_currentBucket s \<and> sl_allActive s then [(''class'', ''active'')] else [])
          [(''click'', PickBucket (bk_name item))]
          ([box [Text (bk_name item)], Node ''i'' [] [(''click'', MenuOf index (bk_name item))] []] @
           v_if (bk_show item \<and> sl_homeClick s)
             [Node ''ul'' [] []
                [Node ''li'' [] [(''click'', EditPolicy (bk_name item) index)] [Text ''Edit policy''],
                 Node ''li'' [] [(''click'', BackupOf (bk_name item))] [Text ''Backup to Filecoin''],
                 Node ''li'' [] [(''click'', RetrieveOf (bk_name item))] [Text ''Retrieval''],
                 Node ''li'' [] [(''click'', DeleteOf (bk_name item) index)] [Text ''Delete'']]]))"

definition bucket_search :: "slide \<Rightarrow> side_event elem" where
  "bucket_search s =
     box [Node ''el-input'' [(''placeholder'', ''Search Buckets...''), (''value'', sl_search s)] [(''input'', TypeSearch)] [],
          box (map (bucket_entry s) (enumerate 0 (shown_list s)))]"

definition backup_links :: "slide \<Rightarrow> side_event elem" where
  "backup_links s =
     box [Node ''router-link'' [(''style'', if sl_introduceColor s then ''color: #2f85e5'' else ''color: #fff'')]
            [(''click'', GoRoute ''backup'')] [Text ''FS3 Backup''],
          box (map (\<lambda>(name, tree, label). Node ''router-link'' (if sl_activeTree s = tree then [(''class'', ''active'')] else [])
                 [(''click'', GoRoute name)] [Text label])
            [(''my_account_dashboard'', ''2'', ''Dashboard''), (''my_account_myPlans'', ''3'', ''Backup Plans''),
             (''my_account_jobs'', ''4'', ''Jobs'')])]"

definition side_foot :: "string \<Rightarrow> slide \<Rightarrow> side_event elem" where
  "side_foot location s =
     box (v_if (\<not> sl_menuStretch s) [Node ''a'' [(''href'', ''/'')] [(''click'', GoHost)] [Text location]] @
          [Node ''div'' [] [(''click'', SideLogout False)] [link [] (SideLogout True)]])"

text \<open>The label of an option, or the value when there is none.\<close>

definition policy_label :: "string \<Rightarrow> string" where
  "policy_label v = (case map_of policy_options v of Some l \<Rightarrow> l | None \<Rightarrow> v)"

definition policy_dialog :: "slide \<Rightarrow> side_event elem list" where
  "policy_dialog s =
     el_dialog (sl_dialogFormVisible s) (sl_titlePolicy s) ClosePolicies
       (Node ''el-form-item'' [] []
          [Node ''el-input'' [(''value'', sl_value s), (''placeholder'', ''Prefix'')] [(''input'', TypePrefix)] [],
           Node ''el-select'' [(''value'', sl_valueSelect s)] []
             (map (\<lambda>(v, label). Node ''el-option'' [(''value'', v)] [(''click'', PickPolicy v)] [Text label]) policy_options),
           button ''Add'' AddPolicy] #
        map (\<lambda>domain. Node ''el-form-item'' [] []
               [box [Text (if bp_prefix domain \<noteq> [] then bp_prefix domain else ''*'')],
                Node ''el-select'' [(''disabled'', ''true'')] [] [Text (policy_label (bp_policy domain))],
                button ''Remove'' (RemovePolicy domain)])
          (case sl_policies s of None \<Rightarrow> [] | Some ps \<Rightarrow> ps))"

definition slide_page :: "string \<Rightarrow> slide \<Rightarrow> side_event elem" where
  "slide_page location s =
     under_dialogs
       (Node ''div'' [] [(''click'', ClickSide)]
          ((if sl_menuStretch s then [Node ''svg'' [] [(''click'', Stretch False)] []]
            else [Node ''svg'' [] [(''click'', Stretch True)] [], bucket_search s, backup_links s]) @
           [side_foot location s]))
       (policy_dialog s)"

section \<open>What the events do\<close>

text \<open>The handlers of a control and of the entry around it; \<open>typed\<close> is the text of the field typed into.\<close>

fun side_inner :: "string \<Rightarrow> string \<Rightarrow> string \<Rightarrow> side_event \<Rightarrow> slide \<Rightarrow> (slide, slide_cmd) outcome" where
  "side_inner api token typed ClickSide s = Done s []"
| "side_inner api token typed (Stretch b) s = (case menuToggleStreth b s of (s', cs) \<Rightarrow> Done s' cs)"
| "side_inner api token typed TypeSearch s = Done (type_search typed s) []"
| "side_inner api token typed (PickBucket name) s = (case getListBucket name True False False s of (s', cs) \<Rightarrow> Done s' cs)"
| "side_inner api token typed (MenuOf i name) s = (case caozuoFun (Some i) name s of (s', cs) \<Rightarrow> Done s' cs)"
| "side_inner api token typed (EditPolicy name i) s = dialogFun api token name s"
| "side_inner api token typed (BackupOf name) s =
     (case backupFun s of (s1, c1) \<Rightarrow> case getListBucket name True False False s1 of (s2, c2) \<Rightarrow> Done s2 (c1 @ c2))"
| "side_inner api token typed (RetrieveOf name) s =
     (case retrievalFun s of (s1, c1) \<Rightarrow> case getListBucket name True False False s1 of (s2, c2) \<Rightarrow> Done s2 (c1 @ c2))"
| "side_inner api token typed (DeleteOf name i) s = (case dialogDeleteFun api token name s of (s', cs) \<Rightarrow> Done s' cs)"
| "side_inner api token typed (GoRoute name) s = Done s [RouterPush (ByName name)]"
| "side_inner api token typed GoHost s = Done s [Navigate ''/'' []]"
| "side_inner api token typed (SideLogout via_link) s =
     (case slide_logout api token s of (s', cs) \<Rightarrow> Done s' ((if via_link then [RouterPush (ByPath ''/fs3/login'')] else []) @ cs))"
| "side_inner api token typed TypePrefix s = Done (s\<lparr>sl_value := typed\<rparr>) []"
| "side_inner api token typed (PickPolicy v) s = Done (s\<lparr>sl_valueSelect := v\<rparr>) []"
| "side_inner api token typed AddPolicy s = (case addPolicies api token s of (s', cs) \<Rightarrow> Done s' cs)"
| "side_inner api token typed (RemovePolicy domain) s = (case removePolicies api token domain s of (s', cs) \<Rightarrow> Done s' cs)"
| "side_inner api token typed ClosePolicies s = Done (s\<lparr>sl_dialogFormVisible := False\<rparr>) []"

text \<open>
  Clicks that end at their control (\<open>.stop\<close>); typing is no click, and the options of a select are rendered
  outside the side bar.
\<close>

fun side_stays :: "side_event \<Rightarrow> bool" where
  "side_stays TypeSearch = True"
| "side_stays (MenuOf i name) = True"
| "side_stays (EditPolicy name i) = True"
| "side_stays (DeleteOf name i) = True"
| "side_stays TypePrefix = True"
| "side_stays (PickPolicy v) = True"
| "side_stays ev = False"

text \<open>Other clicks go on to the side bar itself, which closes the menus.\<close>

definition side_handle :: "string \<Rightarrow> string \<Rightarrow> string \<Rightarrow> side_event \<Rightarrow> slide \<Rightarrow> (slide, slide_cmd) outcome" where
  "side_handle api token typed ev s =
     (let m = side_inner api token typed ev s
      in if side_stays ev then m
         else case caozuoFun None [] (out_state m) of (s', cs) \<Rightarrow> Done s' (out_cmds m @ cs))"

fun menu_ticks :: "slide_cmd list \<Rightarrow> nat option list" where
  "menu_ticks [] = []"
| "menu_ticks (NextTick (MenuTick i) # cs) = i # menu_ticks cs"
| "menu_ticks (_ # cs) = menu_ticks cs"

definition menu_turn :: "string \<Rightarrow> string \<Rightarrow> (string \<Rightarrow> string) \<Rightarrow> nat option \<Rightarrow> app_frame \<Rightarrow> app_frame" where
  "menu_turn api token fmt i f = (case menu_tick i (fr_slide f) of (s, cs) \<Rightarrow> slide_handled api token fmt s cs f)"

text \<open>
  A click in the side bar: its handlers and their events to the frame, the frame's own handler for clicks
  that reach it, the watchers, and then the deferred part of the menus.
\<close>

definition side_click :: "string \<Rightarrow> string \<Rightarrow> (string \<Rightarrow> string) \<Rightarrow> string \<Rightarrow> side_event \<Rightarrow> app_frame \<Rightarrow> app_frame" where
  "side_click api token fmt typed ev f =
     (let m = side_handle api token typed ev (fr_slide f);
          h = fst (run_events (slide_listener api token) (out_cmds m) (fr_home f));
          h' = (if side_stays ev then h else wrapperClick h)
      in fold (menu_turn api token fmt) (menu_ticks (out_cmds m)) (frame_flush fmt False False h' (f\<lparr>fr_slide := out_state m\<rparr>)))"

section \<open>Which events the side bar offers\<close>

definition policy_events :: "side_event set" where
  "policy_events = {TypePrefix, AddPolicy, ClosePolicies} \<union> range PickPolicy \<union> range RemovePolicy"

lemma entry_offers:
  "set (reachable (bucket_entry s (i, b))) =
     {PickBucket (bk_name b), MenuOf i (bk_name b)} \<union>
     (if bk_show b \<and> sl_homeClick s then {EditPolicy (bk_name b) i, BackupOf (bk_name b), RetrieveOf (bk_name b), DeleteOf (bk_name b) i}
      else {})"
  by (auto simp: bucket_entry_def v_if_def)

lemma policy_dialog_offers:
  "sl_dialogFormVisible s \<Longrightarrow> set (reachable (last (policy_dialog s))) \<subseteq> policy_events"
  by (auto simp: policy_dialog_def el_dialog_def v_if_def policy_events_def policy_options_def)

lemma slide_offers:
  assumes "ev \<in> set (reachable (slide_page location s))"
  shows "sl_dialogFormVisible s \<and> ev \<in> policy_events \<or>
    \<not> sl_dialogFormVisible s \<and>
      (ev \<in> {ClickSide, TypeSearch, GoHost} \<or> (\<exists>b. ev = Stretch b \<or> ev = SideLogout b) \<or> (\<exists>n. ev = GoRoute n) \<or>
       \<not> sl_menuStretch s \<and> (\<exists>i < length (shown_list s). ev \<in> set (reachable (bucket_entry s (i, shown_list s ! i)))))"
proof (cases "sl_dialogFormVisible s")
  case True
  then have "policy_dialog s \<noteq> []" by (simp add: policy_dialog_def)
  with assms policy_dialog_offers [OF True] show ?thesis by (auto simp: slide_page_def reachable_under True)
next
  case False
  then have closed: "policy_dialog s = []" by (simp add: policy_dialog_def)
  have "set (enumerate 0 (shown_list s)) = (\<lambda>i. (i, shown_list s ! i)) ` {..<length (shown_list s)}"
    by (auto simp: in_set_enumerate_eq image_iff)
  moreover have "set (reachable (backup_links s)) \<subseteq> range GoRoute" by (auto simp: backup_links_def)
  moreover have "set (reachable (side_foot location s)) \<subseteq> {GoHost, SideLogout True, SideLogout False}"
    by (auto simp: side_foot_def v_if_def)
  ultimately show ?thesis
    using assms False by (auto simp: slide_page_def reachable_under closed bucket_search_def split: if_splits)
qed

lemma edit_offered:
  assumes "EditPolicy name i \<in> set (reachable (slide_page location s))"
  shows "sl_homeClick s \<and> (\<exists>b \<in> set (shown_list s). bk_show b \<and> name = bk_name b)"
proof -
  obtain k where k: "k < length (shown_list s)" "EditPolicy name i \<in> set (reachable (bucket_entry s (k, shown_list s ! k)))"
    using slide_offers [OF assms] by (auto simp: policy_events_def)
  then have "bk_show (shown_list s ! k) \<and> sl_homeClick s \<and> name = bk_name (shown_list s ! k)"
    unfolding entry_offers by (simp split: if_splits)
  with nth_mem [OF k(1)] show ?thesis by blast
qed

section \<open>Which bucket the policy dialog changes\<close>

text \<open>
  The side bar in use. With \<open>careful\<close> the search text is not typed while a menu is open, and no list of
  buckets arrives under the open dialog. The rest of the frame may do what it likes except to choose
  another bucket or to open a menu.
\<close>

inductive side_run :: "bool \<Rightarrow> app_frame \<Rightarrow> bool" for careful :: bool where
  side_opens: "\<not> hm_homeClick h \<Longrightarrow> side_run careful (open_page fmt h (receive_buckets P slide_init))"
| side_clicks: "side_run careful f \<Longrightarrow> ev \<in> set (reachable (slide_page location (fr_slide f))) \<Longrightarrow> \<forall>i. ev \<noteq> MenuOf i [] \<Longrightarrow>
    careful \<and> ev = TypeSearch \<longrightarrow> \<not> sl_homeClick (fr_slide f) \<Longrightarrow> side_run careful (side_click api token fmt typed ev f)"
| side_policies: "side_run careful f \<Longrightarrow> side_run careful (f\<lparr>fr_slide := fst (policies_reply r (fr_slide f))\<rparr>)"
| side_set_policy: "side_run careful f \<Longrightarrow> side_run careful (f\<lparr>fr_slide := fst (setPolicy_reply api token r' (fr_slide f))\<rparr>)"
| side_buckets: "side_run careful f \<Longrightarrow> careful \<longrightarrow> \<not> sl_dialogFormVisible (fr_slide f) \<Longrightarrow>
    side_run careful (perform api token fmt (BucketsAnswer name a) f)"
| side_others: "side_run careful f \<Longrightarrow> hm_currentBucket (fr_home g) = hm_currentBucket (fr_home f) \<Longrightarrow>
    (hm_homeClick (fr_home g) \<longrightarrow> hm_homeClick (fr_home f)) \<Longrightarrow>
    fr_slide g = (fr_slide f)\<lparr>sl_homeClick := hm_homeClick (fr_home g)\<rparr> \<Longrightarrow> side_run careful g"

definition policy_title :: "string \<Rightarrow> string" where
  "policy_title name = ''Bucket Policy ('' @ name @ '')''"

definition titled :: "slide \<Rightarrow> string \<Rightarrow> bool" where
  "titled s bucket \<longleftrightarrow> (sl_dialogFormVisible s \<longrightarrow> sl_titlePolicy s = policy_title bucket)"

definition side_ok :: "app_frame \<Rightarrow> bool" where
  "side_ok f \<longleftrightarrow>
     sl_currentBucket (fr_slide f) = hm_currentBucket (fr_home f) \<and> sl_homeClick (fr_slide f) = hm_homeClick (fr_home f) \<and>
     view_ok (fr_slide f) \<and> titled (fr_slide f) (hm_currentBucket (fr_home f)) \<and>
     (hm_homeClick (fr_home f) \<longrightarrow> (\<forall>b \<in> set (shown_list (fr_slide f)). bk_show b \<longrightarrow> bk_name b = hm_currentBucket (fr_home f)))"

lemma shown_list_cong:
  "sl_all s = sl_all t \<Longrightarrow> sl_minioListBuckets s = sl_minioListBuckets t \<Longrightarrow> shown_list s = shown_list t"
  by (auto simp: shown_list_def split: option.split bucket_view.split)

lemma flush_slide:
  "fr_slide (frame_flush fmt new_listing False h f) = (fr_slide f)\<lparr>sl_currentBucket := hm_currentBucket h, sl_homeClick := hm_homeClick h\<rparr>"
  by (simp add: frame_flush_def slide_flush_def)

lemma flushed_props [simp]:
  "view_ok (s\<lparr>sl_currentBucket := b, sl_homeClick := c\<rparr>) = view_ok s"
  "shown_list (s\<lparr>sl_currentBucket := b, sl_homeClick := c\<rparr>) = shown_list s"
  "titled (s\<lparr>sl_currentBucket := b, sl_homeClick := c\<rparr>) = titled s"
  "view_ok (s\<lparr>sl_currentBucket := b\<rparr>) = view_ok s" "shown_list (s\<lparr>sl_currentBucket := b\<rparr>) = shown_list s"
  "titled (s\<lparr>sl_currentBucket := b\<rparr>) = titled s"
  "view_ok (s\<lparr>sl_homeClick := c\<rparr>) = view_ok s" "shown_list (s\<lparr>sl_homeClick := c\<rparr>) = shown_list s"
  "titled (s\<lparr>sl_homeClick := c\<rparr>) = titled s"
  by (auto intro!: view_ok_cong shown_list_cong simp: titled_def fun_eq_iff)

lemma update_keeps:
  "sl_dialogFormVisible (update_shown f s) = sl_dialogFormVisible s" "sl_titlePolicy (update_shown f s) = sl_titlePolicy s"
  "sl_currentBucket (update_shown f s) = sl_currentBucket s" "sl_homeClick (update_shown f s) = sl_homeClick s"
  by (simp_all add: update_shown_def split: option.split bucket_view.split)

lemma shown_only:
  "view_ok s \<Longrightarrow> b \<in> set (shown_list (update_shown f s)) \<Longrightarrow> bk_show b \<Longrightarrow>
   \<exists>k < length (shown_list s). f k \<and> bk_name b = bk_name (shown_list s ! k)"
  by (auto simp: shown_update in_set_enumerate_eq)

text \<open>The deferred part of a click: with no index the menus close, with one its bucket's menu opens.\<close>

lemma menu_turn_frame:
  assumes "menu_tick i (fr_slide f) = (s, cs)"
  shows "hm_currentBucket (fr_home (menu_turn api token fmt i f)) = hm_currentBucket (fr_home f)"
    "hm_homeClick (fr_home (menu_turn api token fmt i f)) = (hm_homeClick (fr_home f) \<or> cs \<noteq> [])"
    "fr_slide (menu_turn api token fmt i f) =
      s\<lparr>sl_currentBucket := hm_currentBucket (fr_home f), sl_homeClick := hm_homeClick (fr_home f) \<or> cs \<noteq> []\<rparr>"
proof -
  have "cs = [] \<or> cs = [Emit ''homeClickFun'' [JBool True]]"
    using assms by (auto simp: menu_tick_def split: option.splits if_splits)
  then show "hm_currentBucket (fr_home (menu_turn api token fmt i f)) = hm_currentBucket (fr_home f)"
    "hm_homeClick (fr_home (menu_turn api token fmt i f)) = (hm_homeClick (fr_home f) \<or> cs \<noteq> [])"
    "fr_slide (menu_turn api token fmt i f) =
      s\<lparr>sl_currentBucket := hm_currentBucket (fr_home f), sl_homeClick := hm_homeClick (fr_home f) \<or> cs \<noteq> []\<rparr>"
    by (auto simp: menu_turn_def assms slide_handled_def flush_slide slide_listener_def homeClickFun_def arg_truthy_def)
qed

lemma menu_turn_ok:
  assumes "view_ok (fr_slide f)" "titled (fr_slide f) (hm_currentBucket (fr_home f))"
    and "\<And>k. i = Some k \<Longrightarrow> k < length (shown_list (fr_slide f)) \<Longrightarrow> bk_name (shown_list (fr_slide f) ! k) = hm_currentBucket (fr_home f)"
  shows "side_ok (menu_turn api token fmt i f)"
proof -
  let ?s = "update_shown (\<lambda>k. i = Some k) (fr_slide f)"
  obtain cs where cs: "menu_tick i (fr_slide f) = (?s, cs)" by (simp add: menu_tick_def)
  have "view_ok ?s" using assms(1) by (rule view_ok_update)
  moreover have "titled ?s b = titled (fr_slide f) b" for b by (simp add: titled_def update_keeps)
  moreover have "bk_name b = hm_currentBucket (fr_home f)" if "b \<in> set (shown_list ?s)" "bk_show b" for b
    using shown_only [OF assms(1) that] assms(3) by auto
  ultimately show ?thesis using assms(2) by (simp add: side_ok_def menu_turn_frame [OF cs])
qed

text \<open>The events of a click to the frame choose at most one bucket, and open no menu.\<close>

definition picks :: "string \<Rightarrow> slide_cmd" where
  "picks name = Emit ''getminioListBucket'' [JStr name, JBool True, JBool False, JBool False]"

lemma pick_home:
  "out_state (getminioListBucket api token name d s p h) = h' \<Longrightarrow>
   hm_homeClick h' = hm_homeClick h \<and> (name \<noteq> [] \<longrightarrow> hm_currentBucket h' = name)"
  by (cases "name = []"; cases s; auto simp: getminioListBucket_def getListObjects_named Let_def)

lemma slide_listens:
  "slide_listener api token ''getminioListBucket'' [JStr name, JBool True, JBool False, JBool False] h
     = Some (getminioListBucket api token name True False False h)"
  "slide_listener api token ''getshareHome'' args h = Some (Done (home_getshareHome (arg_truthy 0 args) (arg_truthy 1 args) (arg_truthy 2 args) h) [])"
  "slide_listener api token ''getretrievalHome'' args h = Some (Done (home_getretrievalDialog (arg_truthy 0 args) h) [])"
  "slide_listener api token ''getMenuStretch'' args h = Some (Done (home_getMenuStretch (arg_truthy 0 args) h) [])"
  by (simp_all add: slide_listener_def arg_text_def arg_truthy_def numeral_eq_Suc)

text \<open>A click that reaches the side bar: the menus close, whatever it did before.\<close>

lemma closing_click:
  assumes "\<not> side_stays ev" "view_ok (out_state (side_inner api token typed ev (fr_slide f)))"
    and "menu_ticks (out_cmds (side_inner api token typed ev (fr_slide f))) = []"
    and "titled (out_state (side_inner api token typed ev (fr_slide f)))
      (hm_currentBucket (fst (run_events (slide_listener api token) (out_cmds (side_inner api token typed ev (fr_slide f))) (fr_home f))))"
  shows "side_ok (side_click api token fmt typed ev f)"
proof -
  let ?m = "side_inner api token typed ev (fr_slide f)"
  let ?h = "wrapperClick (fst (run_events (slide_listener api token) (out_cmds ?m) (fr_home f)))"
  have ticks: "menu_ticks (xs @ [NextTick (MenuTick i)]) = menu_ticks xs @ [i]" for xs i
    by (induction xs rule: menu_ticks.induct) simp_all
  have events: "run_events (slide_listener api token) (xs @ [NextTick t]) h = run_events (slide_listener api token) xs h" for xs t h
    by (induction "slide_listener api token" xs h rule: run_events.induct) (simp_all split: option.split)
  have "side_click api token fmt typed ev f
      = menu_turn api token fmt None (frame_flush fmt False False ?h (f\<lparr>fr_slide := out_state ?m\<rparr>))"
    using assms(1,3) by (simp add: side_click_def side_handle_def Let_def caozuoFun_def ticks events)
  moreover have "hm_currentBucket ?h = hm_currentBucket (fst (run_events (slide_listener api token) (out_cmds ?m) (fr_home f)))"
    by (simp add: wrapperClick_def)
  ultimately show ?thesis
    using assms(2,4) by (simp, intro menu_turn_ok) (simp_all add: flush_slide)
qed

text \<open>A click that ends at its control and tells the frame nothing.\<close>

lemma staying_click:
  assumes "side_ok f" "side_stays ev" "side_inner api token typed ev (fr_slide f) = m"
    and "out_cmds m = [] \<or> (\<exists>t q. out_cmds m = [Request t q])"
    and "view_ok (out_state m)" "titled (out_state m) (hm_currentBucket (fr_home f))"
    and "hm_homeClick (fr_home f) \<Longrightarrow> \<forall>b \<in> set (shown_list (out_state m)). bk_show b \<longrightarrow> bk_name b = hm_currentBucket (fr_home f)"
  shows "side_ok (side_click api token fmt typed ev f)"
proof -
  have "side_click api token fmt typed ev f = frame_flush fmt False False (fr_home f) (f\<lparr>fr_slide := out_state m\<rparr>)"
    using assms(2-4) by (auto simp: side_click_def side_handle_def Let_def)
  then show ?thesis using assms(1,5-7) by (simp add: side_ok_def flush_slide)
qed

lemma view_ok_fields [simp]:
  "view_ok (s\<lparr>sl_allActive := x\<rparr>) = view_ok s" "view_ok (s\<lparr>sl_menuStretch := x\<rparr>) = view_ok s"
  "view_ok (s\<lparr>sl_value := y\<rparr>) = view_ok s" "view_ok (s\<lparr>sl_valueSelect := y\<rparr>) = view_ok s"
  "view_ok (s\<lparr>sl_titlePolicy := y\<rparr>) = view_ok s" "view_ok (s\<lparr>sl_dialogFormVisible := x\<rparr>) = view_ok s" "view_ok (s\<lparr>sl_policies := ps\<rparr>) = view_ok s"
  "view_ok (s\<lparr>sl_shareDialog := x, sl_shareObjectShow := z, sl_shareFileShow := w\<rparr>) = view_ok s"
  "view_ok (s\<lparr>sl_shareDialog := x, sl_shareObjectShow := z, sl_shareFileShow := w, sl_allActive := v\<rparr>) = view_ok s"
  by (auto intro!: view_ok_cong)

lemma shown_fields [simp]:
  "shown_list (s\<lparr>sl_allActive := x\<rparr>) = shown_list s" "shown_list (s\<lparr>sl_value := y\<rparr>) = shown_list s"
  "shown_list (s\<lparr>sl_valueSelect := y\<rparr>) = shown_list s" "shown_list (s\<lparr>sl_policies := ps\<rparr>) = shown_list s"
  by (auto intro!: shown_list_cong)

lemma type_search_ok: "view_ok s \<Longrightarrow> view_ok (type_search v s)"
  by (auto simp: type_search_def searchBucketFun_def view_ok_copy) (auto simp: view_ok_def matching_def split: option.splits)

lemma type_search_title [simp]: "titled (type_search v s) b = titled s b"
  by (simp add: titled_def type_search_def searchBucketFun_def copy_prop_def)

lemma addPolicies_state: "\<exists>cs. addPolicies api token s = (s, cs) \<and> ((\<exists>n t m. cs = replicate n (Toast t m)) \<or> (\<exists>t q. cs = [Request t q]))"
  by (auto simp: addPolicies_def Let_def setPolicyChange_def slide_post_def map_replicate_const)

lemma quiet_toasts:
  "run_events listen (replicate n (Toast t m)) h = (h, [])" "menu_ticks (replicate n (Toast t m)) = []"
  by (induction n) simp_all

lemma dialog_click_ok:
  assumes "side_ok f" "ev \<in> {AddPolicy, ClosePolicies} \<union> range RemovePolicy"
  shows "side_ok (side_click api token fmt typed ev f)"
proof -
  from addPolicies_state obtain cs where cs: "addPolicies api token (fr_slide f) = (fr_slide f, cs)"
    "(\<exists>n t m. cs = replicate n (Toast t m)) \<or> (\<exists>t q. cs = [Request t q])" by blast
  show ?thesis
  proof (rule closing_click)
    show "\<not> side_stays ev" using assms(2) by auto
    show "view_ok (out_state (side_inner api token typed ev (fr_slide f)))"
      using assms cs by (auto simp: side_ok_def removePolicies_def)
    show "menu_ticks (out_cmds (side_inner api token typed ev (fr_slide f))) = []"
      using assms(2) cs by (auto simp: removePolicies_def slide_post_def quiet_toasts)
    show "titled (out_state (side_inner api token typed ev (fr_slide f)))
      (hm_currentBucket (fst (run_events (slide_listener api token) (out_cmds (side_inner api token typed ev (fr_slide f))) (fr_home f))))"
      using assms cs by (auto simp: side_ok_def removePolicies_def slide_post_def quiet_toasts titled_def)
  qed
qed

lemma plain_click_ok:
  assumes "side_ok f" "\<not> sl_dialogFormVisible (fr_slide f)" "\<not> side_stays ev" "ev \<noteq> AddPolicy"
  shows "side_ok (side_click api token fmt typed ev f)"
proof (rule closing_click [OF assms(3)])
  have "view_ok (fr_slide f)" using assms(1) by (simp add: side_ok_def)
  then show "view_ok (out_state (side_inner api token typed ev (fr_slide f)))"
    using assms(3,4) by (cases ev) (simp_all add: menuToggleStreth_def getListBucket_def backupFun_def retrievalFun_def slide_logout_def removePolicies_def)
  show "menu_ticks (out_cmds (side_inner api token typed ev (fr_slide f))) = []"
    using assms(3,4) by (cases ev)
      (simp_all add: menuToggleStreth_def getListBucket_def backupFun_def retrievalFun_def slide_logout_def removePolicies_def slide_post_def)
  show "titled (out_state (side_inner api token typed ev (fr_slide f)))
      (hm_currentBucket (fst (run_events (slide_listener api token) (out_cmds (side_inner api token typed ev (fr_slide f))) (fr_home f))))"
    using assms(2-4) by (cases ev)
      (simp_all add: titled_def menuToggleStreth_def getListBucket_def backupFun_def retrievalFun_def slide_logout_def removePolicies_def)
qed

lemma menu_click_ok:
  assumes "side_ok f" "\<not> sl_dialogFormVisible (fr_slide f)" "name \<noteq> []" "i < length (shown_list (fr_slide f))"
    "name = bk_name (shown_list (fr_slide f) ! i)"
  shows "side_ok (side_click api token fmt typed (MenuOf i name) f)"
proof -
  define h where "h = out_state (getminioListBucket api token name True False False (fr_home f))"
  have h: "hm_currentBucket h = name" using pick_home [of api token name True False False "fr_home f" h] assms(3) by (simp add: h_def)
  have "side_click api token fmt typed (MenuOf i name) f
      = menu_turn api token fmt (Some i) (frame_flush fmt False False h (f\<lparr>fr_slide := (fr_slide f)\<lparr>sl_allActive := True\<rparr>\<rparr>))"
    using assms(3) by (simp add: side_click_def side_handle_def Let_def caozuoFun_def getListBucket_def slide_listens h_def)
  then show ?thesis
    using assms h by (simp, intro menu_turn_ok) (simp_all add: flush_slide side_ok_def titled_def)
qed

lemma side_click_ok:
  assumes "side_ok f" "ev \<in> set (reachable (slide_page location (fr_slide f)))" "\<forall>i. ev \<noteq> MenuOf i []"
    "ev = TypeSearch \<longrightarrow> \<not> sl_homeClick (fr_slide f)"
  shows "side_ok (side_click api token fmt typed ev f)"
proof (cases "sl_dialogFormVisible (fr_slide f)")
  case True
  with slide_offers [OF assms(2)] have "ev \<in> policy_events" by blast
  show ?thesis
  proof (cases ev)
    case TypePrefix
    with assms(1) show ?thesis by (intro staying_click [OF assms(1) _ refl]) (simp_all add: side_ok_def titled_def)
  next
    case (PickPolicy v)
    with assms(1) show ?thesis by (intro staying_click [OF assms(1) _ refl]) (simp_all add: side_ok_def titled_def)
  qed (use \<open>ev \<in> policy_events\<close> dialog_click_ok [OF assms(1)] in \<open>auto simp: policy_events_def\<close>)
next
  case False
  note offers = slide_offers [OF assms(2)] entry_offers [of "fr_slide f"]
  have ok: "view_ok (fr_slide f)" "sl_homeClick (fr_slide f) = hm_homeClick (fr_home f)" using assms(1) by (simp_all add: side_ok_def)
  show ?thesis
  proof (cases "side_stays ev")
    case stays: True
    show ?thesis
    proof (cases ev)
      case TypeSearch
      with assms(1,4) ok show ?thesis by (intro staying_click [OF assms(1) _ refl]) (simp_all add: type_search_ok side_ok_def)
    next
      case (MenuOf i name)
      with offers False assms(3) have "name \<noteq> []" "i < length (shown_list (fr_slide f))" "name = bk_name (shown_list (fr_slide f) ! i)"
        by (auto split: if_splits)
      then show ?thesis unfolding MenuOf by (intro menu_click_ok [OF assms(1) False])
    next
      case (EditPolicy name i)
      then obtain b where b: "b \<in> set (shown_list (fr_slide f))" "bk_show b" "sl_homeClick (fr_slide f)" "name = bk_name b"
        using edit_offered assms(2) by blast
      then have name: "name = hm_currentBucket (fr_home f)" using assms(1) by (simp add: side_ok_def)
      obtain v where v: "sl_all (fr_slide f) = Some v" using b(1) by (cases "sl_all (fr_slide f)") (simp_all add: shown_list_def)
      let ?s = "(fr_slide f)\<lparr>sl_titlePolicy := policy_title name, sl_dialogFormVisible := True\<rparr>"
      have ok': "view_ok ?s" using ok(1) by simp
      have inner: "side_inner api token typed ev (fr_slide f) = Done (update_shown (\<lambda>i. False) ?s)
          [slide_post api token PoliciesReply ''web.ListAllBucketPolicies'' [(''bucketName'', JStr name)]]"
        by (simp add: EditPolicy dialogFun_def v Let_def getListAllBucketPolicies_def policy_title_def)
      show ?thesis
      proof (rule staying_click [OF assms(1) _ inner])
        show "titled (out_state (Done (update_shown (\<lambda>i. False) ?s) [slide_post api token PoliciesReply ''web.ListAllBucketPolicies'' [(''bucketName'', JStr name)]])) (hm_currentBucket (fr_home f))"
          by (simp add: titled_def update_keeps name)
      qed (use view_ok_update [OF ok'] shown_only [OF ok'] in \<open>auto simp: EditPolicy slide_post_def\<close>)
    next
      case (DeleteOf name i)
      with assms(1) show ?thesis by (intro staying_click [OF assms(1) _ refl]) (auto simp: dialogDeleteFun_def slide_post_def side_ok_def)
    qed (use stays offers False in \<open>auto simp: policy_events_def split: if_splits\<close>)
  next
    case bubbles: False
    show ?thesis
      by (rule plain_click_ok [OF assms(1) False bubbles]) (use offers False in \<open>auto split: if_splits\<close>)
  qed
qed

lemma receive_keeps:
  "view_ok (receive_buckets P t)" "sl_currentBucket (receive_buckets P t) = sl_currentBucket t"
  "sl_homeClick (receive_buckets P t) = sl_homeClick t" "sl_dialogFormVisible (receive_buckets P t) = sl_dialogFormVisible t"
  by (auto simp: receive_buckets_def getMinioData_def view_ok_copy split: option.split) (simp_all add: copy_prop_def)

lemma buckets_turn_ok:
  assumes "side_ok f" "\<not> sl_dialogFormVisible (fr_slide f)"
  shows "side_ok (perform api token fmt (BucketsAnswer name a) f)"
proof -
  let ?m = "buckets_reply api token name a (fr_home f)"
  show ?thesis
  proof (cases "\<not> isl a \<and> \<not> isl (projr a)")
    case True
    let ?s = "(fr_slide f)\<lparr>sl_currentBucket := hm_currentBucket (out_state ?m), sl_homeClick := hm_homeClick (out_state ?m)\<rparr>"
    have s: "fr_slide (perform api token fmt (BucketsAnswer name a) f)
        = receive_buckets (map_option (map (\<lambda>n. \<lparr>bk_name = n, bk_show = False\<rparr>)) (hm_buckets (out_state ?m))) ?s"
      using True by (simp add: perform_defs frame_flush_def slide_flush_def Let_def)
    have "\<not> bk_show b" if "b \<in> set (shown_list (receive_buckets P t))" for b P t
      using that by (auto simp: receive_buckets_def getMinioData_def copy_prop_def shown_list_def hide_def split: option.splits)
    with assms(2) s show ?thesis by (auto simp: side_ok_def titled_def perform_defs Let_def receive_keeps)
  next
    case False
    then have "out_state ?m = fr_home f"
      by (cases a; cases "projr a"; auto simp: buckets_reply_def buckets_answered_def buckets_failed_def)
    with False assms(1) show ?thesis by (auto simp: perform_defs Let_def side_ok_def flush_slide)
  qed
qed

lemma side_run_ok: "side_run careful f \<Longrightarrow> careful \<Longrightarrow> side_ok f"
proof (induction rule: side_run.induct)
  case (side_opens h fmt P)
  then show ?case by (simp add: side_ok_def open_page_def titled_def receive_keeps) (simp add: slide_init_def)
next
  case (side_clicks f ev location api token fmt typed)
  then show ?case by (intro side_click_ok) auto
next
  case (side_policies f r)
  then show ?case by (cases r) (auto simp: side_ok_def titled_def)
next
  case (side_set_policy f api token r)
  then show ?case by (cases r) (auto simp: side_ok_def titled_def getListAllBucketPolicies_def)
next
  case (side_buckets f api token fmt name a)
  then show ?case by (intro buckets_turn_ok) auto
next
  case (side_others f g)
  then show ?case by (auto simp: side_ok_def)
qed

text \<open>
  C17: the policy dialog changes the bucket it names. In every use of the side bar in which the search is not
  typed while a menu is open and no list of buckets arrives under the dialog: when Add can be clicked, the
  title names a bucket, and Add warns about conflicting entries or sends the one request that sets the chosen
  policy for the prefix of that bucket.
\<close>

theorem policy_dialog_names_bucket:
  assumes "side_run True f" "AddPolicy \<in> set (reachable (slide_page location (fr_slide f)))"
  shows "\<exists>b. sl_titlePolicy (fr_slide f) = ''Bucket Policy ('' @ b @ '')'' \<and>
    requests (snd (addPolicies api token (fr_slide f))) =
      (if \<exists>item \<in> set (case sl_policies (fr_slide f) of None \<Rightarrow> [] | Some ps \<Rightarrow> ps). policy_conflicts (fr_slide f) item then []
       else [(SetPolicyReply, axios_post (api @ ''/minio/webrpc'') (rpc_body ''web.SetBucketPolicy''
              [(''bucketName'', JStr b), (''policy'', JStr (sl_valueSelect (fr_slide f))), (''prefix'', JStr (sl_value (fr_slide f)))]) token)])"
proof -
  let ?s = "fr_slide f"
  have "sl_dialogFormVisible ?s" using slide_offers [OF assms(2)] entry_offers [of ?s] by (auto split: if_splits)
  with side_run_ok [OF assms(1)] have "sl_titlePolicy ?s = policy_title (sl_currentBucket ?s)"
    by (simp add: side_ok_def titled_def)
  moreover have "requests (map (\<lambda>_. Toast t m) xs) = []" for t m and xs :: "bucket_policy list" by (induction xs) simp_all
  ultimately show ?thesis
    by (intro exI [of _ "sl_currentBucket ?s"])
      (auto simp: addPolicies_def Let_def setPolicyChange_def slide_post_def policy_title_def filter_empty_conv)
qed

text \<open>
  The side bar's part of a click: besides its own state it depends on the frame's bucket and on whether a menu
  is open, which it is handed down.
\<close>

fun picked :: "slide_cmd list \<Rightarrow> string \<Rightarrow> string" where
  "picked [] b = b"
| "picked (Emit e args # cs) b = picked cs (if e = ''getminioListBucket'' \<and> arg_text 0 args \<noteq> [] then arg_text 0 args else b)"
| "picked (_ # cs) b = picked cs b"

definition menu_step :: "nat option \<Rightarrow> slide \<Rightarrow> slide" where
  "menu_step i s = (case menu_tick i s of (s', cs) \<Rightarrow> s'\<lparr>sl_homeClick := sl_homeClick s \<or> cs \<noteq> []\<rparr>)"

definition side_step :: "string \<Rightarrow> side_event \<Rightarrow> slide \<Rightarrow> slide" where
  "side_step typed ev s =
     (let m = side_handle [] [] typed ev s
      in fold menu_step (menu_ticks (out_cmds m))
           ((out_state m)\<lparr>sl_currentBucket := picked (out_cmds m) (sl_currentBucket s), sl_homeClick := side_stays ev \<and> sl_homeClick s\<rparr>))"

definition synced :: "app_frame \<Rightarrow> bool" where
  "synced f \<longleftrightarrow> sl_currentBucket (fr_slide f) = hm_currentBucket (fr_home f) \<and> sl_homeClick (fr_slide f) = hm_homeClick (fr_home f)"

lemma menu_turn_step:
  assumes "synced f"
  shows "fr_slide (menu_turn api token fmt i f) = menu_step i (fr_slide f) \<and> synced (menu_turn api token fmt i f)"
proof -
  obtain s cs where m: "menu_tick i (fr_slide f) = (s, cs)" by (cases "menu_tick i (fr_slide f)")
  then have "s = update_shown (\<lambda>k. i = Some k) (fr_slide f)" by (simp add: menu_tick_def)
  with assms show ?thesis
    by (simp add: menu_turn_frame [OF m] menu_step_def m synced_def update_keeps)
qed

lemma menu_turns_step:
  "synced f \<Longrightarrow> fr_slide (fold (menu_turn api token fmt) is f) = fold menu_step is (fr_slide f) \<and>
    synced (fold (menu_turn api token fmt) is f)"
  by (induction "is" arbitrary: f) (simp_all add: menu_turn_step)

text \<open>What the commands of the side bar do to the frame's bucket and its menu flag.\<close>

fun slide_emits :: "slide_cmd list \<Rightarrow> bool" where
  "slide_emits [] = True"
| "slide_emits (Emit e args # cs) \<longleftrightarrow> slide_emits cs \<and>
     (e \<in> {''getshareHome'', ''getretrievalHome'', ''getMenuStretch''} \<or>
      e = ''getminioListBucket'' \<and> args = [JStr (arg_text 0 args), JBool True, JBool False, JBool False] \<and> arg_text 0 args \<noteq> [])"
| "slide_emits (_ # cs) = slide_emits cs"

lemma emits_step:
  "slide_emits cs \<Longrightarrow> hm_currentBucket (fst (run_events (slide_listener api token) cs h)) = picked cs (hm_currentBucket h) \<and>
     hm_homeClick (fst (run_events (slide_listener api token) cs h)) = hm_homeClick h"
proof (induction cs arbitrary: h rule: slide_emits.induct)
  case (2 e args cs)
  show ?case
  proof (cases "e = ''getminioListBucket''")
    case True
    then have args: "args = [JStr (arg_text 0 args), JBool True, JBool False, JBool False]" "arg_text 0 args \<noteq> []" "slide_emits cs"
      using 2(2) by auto
    from slide_listens(1) [of api token "arg_text 0 args" h]
    have "slide_listener api token e args h = Some (getminioListBucket api token (arg_text 0 args) True False False h)"
      unfolding True args(1) [symmetric] .
    then show ?thesis
      using 2(1) [OF args(3)] pick_home [OF refl, of api token "arg_text 0 args" True False False h] args(2) True
      by (simp add: case_prod_unfold Let_def)
  next
    case False
    with 2(2) have "\<exists>m. slide_listener api token e args h = Some m \<and>
        hm_currentBucket (out_state m) = hm_currentBucket h \<and> hm_homeClick (out_state m) = hm_homeClick h" and cs: "slide_emits cs"
      by (auto simp: slide_listens home_getshareHome_def home_getretrievalDialog_def home_getMenuStretch_def)
    then obtain m where "slide_listener api token e args h = Some m" "hm_currentBucket (out_state m) = hm_currentBucket h"
      "hm_homeClick (out_state m) = hm_homeClick h" by blast
    with 2(1) [OF cs, of "out_state m"] False show ?thesis by (simp add: case_prod_unfold Let_def)
  qed
qed simp_all

lemma side_click_slide:
  assumes "synced f" "slide_emits (out_cmds (side_handle [] [] typed ev (fr_slide f)))"
  shows "fr_slide (side_click [] [] fmt typed ev f) = side_step typed ev (fr_slide f) \<and> synced (side_click [] [] fmt typed ev f)"
proof -
  let ?m = "side_handle [] [] typed ev (fr_slide f)"
  define h where "h = fst (run_events (slide_listener [] []) (out_cmds ?m) (fr_home f))"
  define h' where "h' = (if side_stays ev then h else wrapperClick h)"
  let ?f = "frame_flush fmt False False h' (f\<lparr>fr_slide := out_state ?m\<rparr>)"
  have "hm_currentBucket h' = picked (out_cmds ?m) (hm_currentBucket (fr_home f))" "hm_homeClick h' = (side_stays ev \<and> hm_homeClick (fr_home f))"
    using emits_step [OF assms(2), of "[]" "[]" "fr_home f"] by (simp_all add: h'_def h_def wrapperClick_def)
  with assms(1) have "fr_slide ?f = (out_state ?m)\<lparr>sl_currentBucket := picked (out_cmds ?m) (sl_currentBucket (fr_slide f)),
      sl_homeClick := side_stays ev \<and> sl_homeClick (fr_slide f)\<rparr>" "synced ?f"
    by (simp_all add: flush_slide synced_def)
  moreover have "side_click [] [] fmt typed ev f = fold (menu_turn [] [] fmt) (menu_ticks (out_cmds ?m)) ?f"
    by (simp add: side_click_def Let_def h_def h'_def)
  ultimately show ?thesis
    using menu_turns_step [of ?f "[]" "[]" fmt "menu_ticks (out_cmds ?m)"] by (simp add: side_step_def Let_def)
qed

text \<open>A list of events, each offered when it happens, and careful if asked for.\<close>

fun all_offered :: "bool \<Rightarrow> (string \<times> side_event) list \<Rightarrow> slide \<Rightarrow> bool" where
  "all_offered careful [] s = True"
| "all_offered careful ((typed, ev) # evs) s =
     (ev \<in> set (reachable (slide_page [] s)) \<and> (case ev of MenuOf i name \<Rightarrow> name \<noteq> [] | _ \<Rightarrow> True) \<and>
      (careful \<and> ev = TypeSearch \<longrightarrow> \<not> sl_homeClick s) \<and> slide_emits (out_cmds (side_handle [] [] typed ev s)) \<and>
      all_offered careful evs (side_step typed ev s))"

definition slide_after :: "(string \<times> side_event) list \<Rightarrow> slide \<Rightarrow> slide" where
  "slide_after evs s = fold (\<lambda>(typed, ev). side_step typed ev) evs s"

lemma run_after:
  "side_run careful f \<Longrightarrow> synced f \<Longrightarrow> all_offered careful evs (fr_slide f) \<Longrightarrow>
   \<exists>g. side_run careful g \<and> fr_slide g = slide_after evs (fr_slide f)"
proof (induction evs arbitrary: f)
  case Nil
  then show ?case by (auto simp: slide_after_def)
next
  case (Cons e evs)
  obtain typed ev where e: "e = (typed, ev)" by (cases e)
  have ev: "ev \<in> set (reachable (slide_page [] (fr_slide f)))" "\<forall>i. ev \<noteq> MenuOf i []"
    "careful \<and> ev = TypeSearch \<longrightarrow> \<not> sl_homeClick (fr_slide f)" using Cons.prems(3) by (auto simp: e)
  let ?g = "side_click [] [] id typed ev f"
  from Cons.prems(3) have "slide_emits (out_cmds (side_handle [] [] typed ev (fr_slide f)))" by (simp add: e)
  from side_click_slide [OF Cons.prems(2) this, of id] have g: "fr_slide ?g = side_step typed ev (fr_slide f)" "synced ?g" by simp_all
  from side_clicks [OF Cons.prems(1) ev] have "side_run careful ?g" .
  from Cons.IH [OF this g(2)] Cons.prems(3) show ?case by (auto simp: e g(1) slide_after_def)
qed

lemma entry_in_page:
  assumes "\<not> sl_dialogFormVisible s" "\<not> sl_menuStretch s" "i < length (shown_list s)"
  shows "set (reachable (bucket_entry s (i, shown_list s ! i))) \<subseteq> set (reachable (slide_page location s))"
proof -
  have closed: "policy_dialog s = []" using assms(1) by (simp add: policy_dialog_def)
  have "(i, shown_list s ! i) \<in> set (enumerate 0 (shown_list s))" using assms(3) by (auto simp: in_set_enumerate_eq)
  then show ?thesis using assms(2) by (auto simp: slide_page_def reachable_under closed bucket_search_def)
qed

lemma side_offered:
  assumes "\<not> sl_dialogFormVisible s" "\<not> sl_menuStretch s" "i < length (shown_list s)"
  shows "TypeSearch \<in> set (reachable (slide_page location s))"
    "MenuOf i (bk_name (shown_list s ! i)) \<in> set (reachable (slide_page location s))"
    "bk_show (shown_list s ! i) \<Longrightarrow> sl_homeClick s \<Longrightarrow> EditPolicy (bk_name (shown_list s ! i)) i \<in> set (reachable (slide_page location s))"
proof -
  show "MenuOf i (bk_name (shown_list s ! i)) \<in> set (reachable (slide_page location s))"
    "bk_show (shown_list s ! i) \<Longrightarrow> sl_homeClick s \<Longrightarrow> EditPolicy (bk_name (shown_list s ! i)) i \<in> set (reachable (slide_page location s))"
    using entry_in_page [OF assms, of location] unfolding entry_offers by auto
  have "policy_dialog s = []" using assms(1) by (simp add: policy_dialog_def)
  then show "TypeSearch \<in> set (reachable (slide_page location s))"
    using assms(2) by (simp add: slide_page_def reachable_under bucket_search_def)
qed

lemma add_offered: "sl_dialogFormVisible s \<Longrightarrow> AddPolicy \<in> set (reachable (slide_page location s))"
  by (simp add: slide_page_def reachable_under policy_dialog_def el_dialog_def v_if_def)

text \<open>Side bars with the buckets a and b, by the marks of their menus.\<close>

definition two_marks :: "bool \<Rightarrow> bool \<Rightarrow> bucket list" where
  "two_marks x y = [\<lparr>bk_name = ''a'', bk_show = x\<rparr>, \<lparr>bk_name = ''b'', bk_show = y\<rparr>]"

definition two_slide :: "bucket list \<Rightarrow> bucket_view \<Rightarrow> string \<Rightarrow> string \<Rightarrow> bool \<Rightarrow> slide" where
  "two_slide P view search current open_menu =
     slide_init\<lparr>sl_minioListBuckets := Some P, sl_all := Some view, sl_search := search, sl_currentBucket := current,
       sl_homeClick := open_menu\<rparr>"

lemmas step_defs = two_slide_def two_marks_def side_step_def side_handle_def slide_init_def Let_def caozuoFun_def
  getListBucket_def arg_text_def menu_step_def menu_tick_def shown_list_def update_shown_def

lemma step1: "side_step ''a'' TypeSearch (two_slide (two_marks x y) view v current c)
    = two_slide (two_marks x y) (Shared [0]) ''a'' current c"
  by (simp add: step_defs type_search_def searchBucketFun_def matching_def js_indexOf_def)

lemma step2: "side_step [] (MenuOf 0 ''a'') (two_slide (two_marks False False) (Shared [0]) ''a'' ''a'' False)
    = two_slide (two_marks True False) (Shared [0]) ''a'' ''a'' True"
  by (simp add: step_defs)

lemma step3: "side_step ''b'' TypeSearch (two_slide (two_marks x y) view v current c)
    = two_slide (two_marks x y) (Shared [Suc 0]) ''b'' current c"
  by (simp add: step_defs type_search_def searchBucketFun_def matching_def js_indexOf_def)

lemma step4: "side_step [] (MenuOf 0 ''b'') (two_slide (two_marks True False) (Shared [Suc 0]) ''b'' ''a'' True)
    = two_slide (two_marks True True) (Shared [Suc 0]) ''b'' ''b'' True"
  by (simp add: step_defs)

lemma step5: "side_step [] TypeSearch (two_slide (two_marks x y) view v current c)
    = two_slide (two_marks x y) (Copied (two_marks x y)) [] current c"
  by (simp add: step_defs type_search_def searchBucketFun_def copy_prop_def)

lemma step6: "side_step [] (EditPolicy name i) (two_slide P (Copied (two_marks x y)) v current c)
    = (two_slide P (Copied (two_marks False False)) v current c)\<lparr>sl_titlePolicy := policy_title name, sl_dialogFormVisible := True\<rparr>"
  by (simp add: step_defs dialogFun_def getListAllBucketPolicies_def slide_post_def policy_title_def)

lemma step7: "side_step [] (MenuOf (Suc 0) ''b'') (two_slide P (Copied (two_marks False False)) v current c)
    = two_slide P (Copied (two_marks False True)) v ''b'' True"
  by (simp add: step_defs)

definition two_home :: home where
  "two_home = home_init\<lparr>hm_buckets := Some [''a'', ''b''], hm_currentBucket := ''a''\<rparr>"

definition two_start :: slide where
  "two_start = two_slide (two_marks False False) (Copied (two_marks False False)) [] ''a'' False"

lemma two_start_run:
  assumes "all_offered careful evs two_start"
  shows "\<exists>g. side_run careful g \<and> fr_slide g = slide_after evs two_start"
proof -
  let ?f = "open_page id two_home (receive_buckets (Some (two_marks False False)) slide_init)"
  have "side_run careful ?f" by (rule side_opens) (simp add: two_home_def home_init_def)
  moreover have "fr_slide ?f = two_start" "synced ?f"
    by (simp_all add: open_page_def two_start_def two_slide_def two_marks_def two_home_def home_init_def synced_def
        receive_buckets_def getMinioData_def copy_prop_def hide_def slide_init_def)
  ultimately show ?thesis using run_after [of careful ?f evs] assms by simp
qed

definition edit_second :: "(string \<times> side_event) list" where
  "edit_second = [([], MenuOf 1 ''b''), ([], EditPolicy ''b'' (Suc 0))]"

definition edit_hidden :: "(string \<times> side_event) list" where
  "edit_hidden = [(''a'', TypeSearch), ([], MenuOf 0 ''a''), (''b'', TypeSearch), ([], MenuOf 0 ''b''), ([], TypeSearch), ([], EditPolicy ''a'' 0)]"

lemma two_fields [simp]:
  "\<not> sl_dialogFormVisible (two_slide P view v current c)" "\<not> sl_menuStretch (two_slide P view v current c)"
  "sl_homeClick (two_slide P view v current c) = c" "shown_list (two_slide P (Copied bs) v current c) = bs"
  "shown_list (two_slide P (Shared is) v current c) = map ((!) P) is"
  "length (two_marks x y) = 2" "two_marks x y ! 0 = \<lparr>bk_name = ''a'', bk_show = x\<rparr>" "two_marks x y ! Suc 0 = \<lparr>bk_name = ''b'', bk_show = y\<rparr>"
  by (simp_all add: two_slide_def slide_init_def shown_list_def two_marks_def)

lemma emits_events [simp]:
  "slide_emits (out_cmds (side_handle [] [] typed TypeSearch s))"
  "name \<noteq> [] \<Longrightarrow> slide_emits (out_cmds (side_handle [] [] typed (MenuOf i name) s))"
  "slide_emits (out_cmds (side_handle [] [] typed (EditPolicy name i) s))"
  by (simp_all add: side_handle_def Let_def caozuoFun_def getListBucket_def arg_text_def dialogFun_def getListAllBucketPolicies_def
      slide_post_def split: option.split)

text \<open>The events in the two uses below are offered.\<close>

lemma edit_second_offered: "all_offered True edit_second two_start"
  using side_offered(2) [of two_start "Suc 0" "[]"]
    side_offered(3) [of "two_slide (two_marks False False) (Copied (two_marks False True)) [] ''b'' True" "Suc 0" "[]"]
  by (simp add: edit_second_def two_start_def step7)

lemma edit_hidden_offered: "all_offered False edit_hidden two_start"
  using side_offered(1) [of two_start 0 "[]"]
    side_offered(2) [of "two_slide (two_marks False False) (Shared [0]) ''a'' ''a'' False" 0 "[]"]
    side_offered(1) [of "two_slide (two_marks True False) (Shared [0]) ''a'' ''a'' True" 0 "[]"]
    side_offered(2) [of "two_slide (two_marks True False) (Shared [Suc 0]) ''b'' ''a'' True" 0 "[]"]
    side_offered(1) [of "two_slide (two_marks True True) (Shared [Suc 0]) ''b'' ''b'' True" 0 "[]"]
    side_offered(3) [of "two_slide (two_marks True True) (Copied (two_marks True True)) [] ''b'' True" 0 "[]"]
  by (simp add: edit_hidden_def two_start_def step1 step2 step3 step4 step5)

theorem policy_dialog_names_bucket_witness:
  "requests (snd (addPolicies [] [] (slide_after edit_second two_start)))
    = [(SetPolicyReply, axios_post ''/minio/webrpc'' (rpc_body ''web.SetBucketPolicy''
        [(''bucketName'', JStr ''b''), (''policy'', JStr ''readonly''), (''prefix'', JStr [])]) [])]"
proof -
  let ?s = "slide_after edit_second two_start"
  obtain g where g: "side_run True g" "fr_slide g = ?s" using two_start_run [OF edit_second_offered] by blast
  have s: "?s = (two_slide (two_marks False False) (Copied (two_marks False False)) [] ''b'' True)
      \<lparr>sl_titlePolicy := policy_title ''b'', sl_dialogFormVisible := True\<rparr>"
    by (simp add: slide_after_def edit_second_def two_start_def step6 step7)
  have "AddPolicy \<in> set (reachable (slide_page [] (fr_slide g)))" by (rule add_offered) (simp add: g(2) s)
  from policy_dialog_names_bucket [OF g(1) this, of "[]" "[]"] show ?thesis
    unfolding g(2) s by (simp add: two_slide_def slide_init_def policy_title_def)
qed

text \<open>
  C35: a menu left open in a hidden bucket changes the wrong one. Search for the first bucket and open its
  menu, type the name of the second and open its menu, clear the search: both menus are open, because the
  first bucket's mark was set in the list of the frame and hidden from the clean-up. Edit policy in the first
  one opens a dialog that names the first bucket; its Add sets the policy of the second.
\<close>

theorem stale_menu_changes_other_bucket:
  "\<exists>f. side_run False f \<and> AddPolicy \<in> set (reachable (slide_page [] (fr_slide f))) \<and>
    sl_titlePolicy (fr_slide f) = ''Bucket Policy (a)'' \<and>
    requests (snd (addPolicies api token (fr_slide f)))
      = [(SetPolicyReply, axios_post (api @ ''/minio/webrpc'') (rpc_body ''web.SetBucketPolicy''
          [(''bucketName'', JStr ''b''), (''policy'', JStr ''readonly''), (''prefix'', JStr [])]) token)]"
proof -
  obtain g where g: "side_run False g" "fr_slide g = slide_after edit_hidden two_start"
    using two_start_run [OF edit_hidden_offered] by blast
  have s: "fr_slide g = (two_slide (two_marks True True) (Copied (two_marks False False)) [] ''b'' True)
      \<lparr>sl_titlePolicy := policy_title ''a'', sl_dialogFormVisible := True\<rparr>"
    unfolding g(2) by (simp add: slide_after_def edit_hidden_def two_start_def step1 step2 step3 step4 step5 step6)
  have "AddPolicy \<in> set (reachable (slide_page [] (fr_slide g)))" by (rule add_offered) (simp add: s)
  with g(1) show ?thesis
    by (intro exI [of _ g]) (simp add: s two_slide_def slide_init_def policy_title_def addPolicies_def setPolicyChange_def slide_post_def)
qed

end
