(* ===== verification/Share_View.thy ===== *)
theory Share_View
  imports Page_Elements
begin

text \<open>
  What the share dialog renders (template of \<open>components/shareDialog.vue\<close>), what its controls do, and the
  provider menu in use: the rows offered under a location, the deal made with a chosen row, and the tags.
\<close>

section \<open>The template\<close>

text \<open>
  Every event names its control. \<open>ChooseMiner n i m via_radio\<close> is a click on the \<open>i\<close>-th row of the table
  under the \<open>n\<close>-th location, which shows \<open>m\<close>; \<open>via_radio\<close> when the click is on the radio in the row.
\<close>

datatype share_event =
    CloseShare
  | CancelShare
  | CopyShareLink
  | ChangeNum
  | PickTab string
  | SendOnline
  | OpenTop
  | HoverLocation nat
  | OpenLocation nat
  | ScrollProviders
  | ChooseMiner nat nat miner bool
  | TypeProvider
  | TypePrice
  | TypeDuration
  | PickVerified string
  | PickRetrieval string
  | CopyDealCid
  | SendOffline
  | TypeTask
  | TypeDesc
  | CloseTag string
  | TypeTag
  | ConfirmTag
  | NewTag
  | TypeDataset
  | PickType string
  | PickBid int
  | TypeBidDay
  | TypeMinPrice
  | TypeMaxPrice
  | TypeOfflineProvider
  | CloseFinished

text \<open>
  What the page passes in: whether the link is shown, and the days, hours and minutes of its expiry. And which
  location of the provider menu is unfolded, which the menu keeps itself.
\<close>

record share_props =
  sp_shareObjectShow :: bool
  sp_num :: "(int \<times> int \<times> int) option"
  sp_unfolded :: "nat option"

definition input_el :: "string \<Rightarrow> 'e \<Rightarrow> 'e elem" where
  "input_el v e = Node ''el-input'' [(''value'', v)] [(''input'', e)] []"

definition shown_el :: "string \<Rightarrow> 'e elem" where
  "shown_el v = Node ''el-input'' [(''value'', v), (''disabled'', ''true'')] [] []"

definition radio_el :: "bool \<Rightarrow> string \<Rightarrow> 'e \<Rightarrow> 'e elem" where
  "radio_el marked label e =
     Node ''el-radio'' (if marked then [(''checked'', ''true'')] else []) [(''click'', e)] [Text label]"

definition deal_item :: "string \<Rightarrow> 'e elem list \<Rightarrow> 'e elem" where
  "deal_item label es = Node ''el-form-item'' [(''label'', label)] [] es"

definition share_left :: "share_props \<Rightarrow> share_dialog \<Rightarrow> share_event elem" where
  "share_left p s =
     box ([Text ''Share Object'', Text ''Shareable Link'', shown_el (sd_share_input s), Text ''Expires in (Max 7 days)''] @
       (case sp_num p of
          None \<Rightarrow> []
        | Some (days, hours, minutes) \<Rightarrow>
            [deal_item ''Days'' [input_el (int_str days) ChangeNum], deal_item ''Hours'' [input_el (int_str hours) ChangeNum],
             deal_item ''Minutes'' [input_el (int_str minutes) ChangeNum]]) @
       [button ''Copy Link'' CopyShareLink, button ''Cancel'' CancelShare])"

definition share_tabs :: "share_event elem" where
  "share_tabs = Node ''el-tabs'' [] [] (map (\<lambda>t. Node ''el-tab-pane'' [] [(''click'', PickTab t)] [Text t]) [''online'', ''offline''])"

definition radio_label :: "nat \<Rightarrow> nat \<Rightarrow> string" where
  "radio_label n i = ''1-'' @ int_str (int n) @ ''-'' @ int_str (int i)"

definition provider_table :: "nat \<Rightarrow> share_dialog \<Rightarrow> share_event elem" where
  "provider_table n s =
     Node ''el-menu-item'' [] [(''scroll'', ScrollProviders)]
       [v_loading (sd_loading s)
          (el_table ''No Data'' [([], \<lambda>(i, m). [radio_el (sd_radio s = radio_label n i) [] (ChooseMiner n i m True)]),
             (''W3SS ID'', \<lambda>(i, m). [Node ''div'' [] [(''click'', ChooseMiner n i m False)] [Text (mn_id m)]]),
             (''Status'', \<lambda>(i, m). [Node ''div'' [] [(''click'', ChooseMiner n i m False)] [Text (mn_status m)]]),
             (''Score'', \<lambda>(i, m). [Node ''div'' [] [(''click'', ChooseMiner n i m False)] [Text (int_str (mn_score m))]])]
             (enumerate 0 (sd_tableData s)))]"

definition provider_menu :: "string \<Rightarrow> share_event \<Rightarrow> nat option \<Rightarrow> share_dialog \<Rightarrow> share_event elem" where
  "provider_menu value typing unfolded s =
     Node ''el-submenu'' [] [(''open'', OpenTop)]
       (input_el value typing #
        map (\<lambda>(n, title, name). Node ''el-submenu'' [(''index'', title)] [(''open'', OpenLocation n)]
               (Node ''span'' [] [(''mouseover'', HoverLocation n)] [Text name] # v_if (unfolded = Some n) [provider_table n s]))
          (enumerate 0 locationOptions))"

definition online_deal :: "share_props \<Rightarrow> share_dialog \<Rightarrow> share_event elem" where
  "online_deal p s =
     (let f = sd_online s in
      box [button ''Send'' SendOnline, Text ''Backup to Filecoin'',
        deal_item ''Provider ID:'' [provider_menu (of_minerId f) TypeProvider (sp_unfolded p) s],
        deal_item ''Price:'' [input_el (of_price f) TypePrice, Text ''FIL''],
        deal_item ''Duration:'' [input_el (of_duration f) TypeDuration, Text ''Day''],
        deal_item ''Verified-Deal:''
          [radio_el (of_verified f = ''1'') ''True'' (PickVerified ''1''), radio_el (of_verified f = ''2'') ''False'' (PickVerified ''2'')],
        deal_item ''Fast-Retrival:''
          [radio_el (of_fastRetirval f = ''1'') ''True'' (PickRetrieval ''1''), radio_el (of_fastRetirval f = ''2'') ''False'' (PickRetrieval ''2'')],
        box (Text ''Deal CID'' # v_if (of_dealCID f \<noteq> []) [Node ''i'' [] [(''click'', CopyDealCid)] []]),
        shown_el (of_dealCID f)])"

definition tag_field :: "share_dialog \<Rightarrow> share_event elem list" where
  "tag_field s =
     map (\<lambda>tag. Node ''el-tag'' [] [(''close'', CloseTag tag)] [Text tag]) (ff_tags (sd_offline s)) @
     (if sd_inputVisibleTask s
      then [Node ''el-input'' [(''value'', sd_inputValueTask s), (''maxlength'', ''15'')]
              [(''input'', TypeTag), (''blur'', ConfirmTag), (''keyup.enter'', ConfirmTag)] []]
      else [button ''+ New Tag'' NewTag])"

definition bid_fields :: "offline_form \<Rightarrow> share_event elem list" where
  "bid_fields f =
     v_if (ff_OpenBidType f = 1)
       [deal_item [] [Text ''Expect Complete in'', input_el (ff_bidDay f) TypeBidDay, Text ''days.''],
        deal_item ''Estimated Budget'' [input_el (ff_min_price f) TypeMinPrice, Text ''-'', input_el (ff_max_price f) TypeMaxPrice]]"

definition offline_deal :: "share_props \<Rightarrow> share_dialog \<Rightarrow> share_event elem" where
  "offline_deal p s =
     (let f = sd_offline s in
      box ([button ''Send'' SendOffline, Text ''Backup to Filecoin'',
        deal_item ''Task Name:'' [input_el (ff_task_name f) TypeTask],
        deal_item ''Description:'' [input_el (ff_desc f) TypeDesc],
        deal_item ''Tags:'' (tag_field s),
        deal_item ''Curated Dataset:'' [input_el (ff_curated_dataset f) TypeDataset],
        deal_item ''Type:''
          [radio_el (ff_type f = ''regular'') ''Regular'' (PickType ''regular''), radio_el (ff_type f = ''verified'') ''Verified'' (PickType ''verified'')],
        deal_item ''Open Bid:'' [radio_el (ff_OpenBidType f = 1) ''True'' (PickBid 1), radio_el (ff_OpenBidType f = 0) ''False'' (PickBid 0)]] @
        bid_fields f @
        v_if (ff_OpenBidType f \<noteq> 1)
          [deal_item ''Provider ID''
             (provider_menu (ff_providerId f) TypeOfflineProvider (sp_unfolded p) s #
              v_if (ff_providerId_tips f) [Text ''Please enter Provider ID''])]))"

definition share_page :: "share_props \<Rightarrow> share_dialog \<Rightarrow> share_event elem" where
  "share_page p s =
     under_dialogs (box [])
       (el_dialog (sd_shareDialog s) [] CloseShare
          (v_if (sp_shareObjectShow p) [share_left p s] @
           v_if (sd_shareFileShow s \<and> sd_sendApi s = 1) [share_tabs] @
           v_if (sd_shareFileShow s \<and> sd_activeOn s = ''online'') [online_deal p s] @
           v_if (sd_shareFileShow s \<and> sd_activeOn s = ''offline'') [offline_deal p s]) @
        el_dialog (sd_finishTransaction s) [] CloseFinished
          [Text ''Completed!'',
           Text (''Please check FilSwan platform, the task '' @ sd_taskName s @ '' has been successfully added to your FilSwan account.'')])"

section \<open>What the events do\<close>

text \<open>
  What a handler reads besides the state: addresses and token, the text of the field typed into, whether the
  browser copies, and whether the row clicked is not the current one of its table yet.
\<close>

record share_env =
  se_api :: string
  se_base :: string
  se_token :: string
  se_typed :: string
  se_copied :: "bool option"
  se_fresh :: bool

definition set_online :: "(online_form \<Rightarrow> online_form) \<Rightarrow> share_dialog \<Rightarrow> share_dialog" where
  "set_online f s = s\<lparr>sd_online := f (sd_online s)\<rparr>"

definition set_offline :: "(offline_form \<Rightarrow> offline_form) \<Rightarrow> share_dialog \<Rightarrow> share_dialog" where
  "set_offline f s = s\<lparr>sd_offline := f (sd_offline s)\<rparr>"

definition location_name :: "nat \<Rightarrow> string" where
  "location_name n = snd (locationOptions ! n)"

definition location_title :: "nat \<Rightarrow> string" where
  "location_title n = fst (locationOptions ! n)"

text \<open>
  A click on a row: the cell, then the row when it was not current; a click on its radio ends with the radio's
  own value.
\<close>

definition choose_miner :: "bool \<Rightarrow> nat \<Rightarrow> nat \<Rightarrow> miner \<Rightarrow> bool \<Rightarrow> share_dialog \<Rightarrow> share_dialog" where
  "choose_miner fresh n i m via_radio s =
     (let s1 = cellClick (int i) s; s2 = (if fresh then handleCurrentChange (Some m) s1 else s1)
      in if via_radio then s2\<lparr>sd_radio := radio_label n i\<rparr> else s2)"

definition ends :: "share_dialog \<times> share_cmd list \<Rightarrow> (share_dialog, share_cmd) outcome" where
  "ends r = (case r of (s, cs) \<Rightarrow> Done s cs)"

fun share_handle :: "share_env \<Rightarrow> share_event \<Rightarrow> share_dialog \<Rightarrow> (share_dialog, share_cmd) outcome" where
  "share_handle e CloseShare s = Done s share_getDiglogChange"
| "share_handle e CancelShare s = Done s share_getDiglogChange"
| "share_handle e CopyShareLink s = Done s (share_copyLink (sd_share_input s) (se_copied e))"
| "share_handle e ChangeNum s = Done s share_handleChange"
| "share_handle e (PickTab t) s = handleClick (sd_shareFileShow s \<and> sd_activeOn s = ''online'') t s"
| "share_handle e SendOnline s = ends (share_submitForm (se_api e) (se_token e) s)"
| "share_handle e OpenTop s = ends (handleOpen (se_base e) ''1'' s)"
| "share_handle e (HoverLocation n) s = ends (handleOpenSubmenu (se_base e) (location_name n) s)"
| "share_handle e (OpenLocation n) s = ends (handleOpen (se_base e) (location_title n) s)"
| "share_handle e ScrollProviders s = ends (loadMore (se_base e) s)"
| "share_handle e (ChooseMiner n i m via_radio) s = Done (choose_miner (se_fresh e) n i m via_radio s) []"
| "share_handle e TypeProvider s = Done (set_online (\<lambda>f. f\<lparr>of_minerId := se_typed e\<rparr>) s) []"
| "share_handle e TypePrice s = Done (set_online (\<lambda>f. f\<lparr>of_price := se_typed e\<rparr>) s) []"
| "share_handle e TypeDuration s = Done (set_online (\<lambda>f. f\<lparr>of_duration := se_typed e\<rparr>) s) []"
| "share_handle e (PickVerified v) s = Done (set_online (\<lambda>f. f\<lparr>of_verified := v\<rparr>) s) []"
| "share_handle e (PickRetrieval v) s = Done (set_online (\<lambda>f. f\<lparr>of_fastRetirval := v\<rparr>) s) []"
| "share_handle e CopyDealCid s = Done s (share_copyLink (of_dealCID (sd_online s)) (se_copied e))"
| "share_handle e SendOffline s = ends (submitofflineForm (se_api e) (se_token e) s)"
| "share_handle e TypeTask s = Done (set_offline (\<lambda>f. f\<lparr>ff_task_name := se_typed e\<rparr>) s) []"
| "share_handle e TypeDesc s = Done (set_offline (\<lambda>f. f\<lparr>ff_desc := se_typed e\<rparr>) s) []"
| "share_handle e (CloseTag tag) s = Done (handleTagsClose tag s) []"
| "share_handle e TypeTag s = Done (type_tag (se_typed e) s) []"
| "share_handle e ConfirmTag s = Done (handleInputConfirmTask s) []"
| "share_handle e NewTag s = ends (showInputTask s)"
| "share_handle e TypeDataset s = Done (set_offline (\<lambda>f. f\<lparr>ff_curated_dataset := se_typed e\<rparr>) s) []"
| "share_handle e (PickType v) s = Done (set_offline (\<lambda>f. f\<lparr>ff_type := v\<rparr>) s) []"
| "share_handle e (PickBid v) s = Done (set_offline (\<lambda>f. f\<lparr>ff_OpenBidType := v\<rparr>) s) []"
| "share_handle e TypeBidDay s = Done (set_offline (\<lambda>f. f\<lparr>ff_bidDay := se_typed e\<rparr>) s) []"
| "share_handle e TypeMinPrice s = Done (set_offline (\<lambda>f. f\<lparr>ff_min_price := se_typed e\<rparr>) s) []"
| "share_handle e TypeMaxPrice s = Done (set_offline (\<lambda>f. f\<lparr>ff_max_price := se_typed e\<rparr>) s) []"
| "share_handle e TypeOfflineProvider s = Done (set_offline (\<lambda>f. f\<lparr>ff_providerId := se_typed e\<rparr>) s) []"
| "share_handle e CloseFinished s = Done (s\<lparr>sd_finishTransaction := False\<rparr>) []"

text \<open>Entering a location with the pointer, or opening it with a click, unfolds its table.\<close>

fun unfolds :: "share_event \<Rightarrow> nat option \<Rightarrow> nat option" where
  "unfolds (HoverLocation n) u = Some n"
| "unfolds (OpenLocation n) u = Some n"
| "unfolds ev u = u"

fun enters :: "share_event \<Rightarrow> bool" where
  "enters (HoverLocation n) = True"
| "enters (OpenLocation n) = True"
| "enters ev = False"

section \<open>Which events the dialog offers\<close>

lemma locations:
  "length locationOptions = 7"
  "n < 7 \<Longrightarrow> location_title n = ''1-'' @ int_str (int n)"
  "n < 7 \<Longrightarrow> map_of locationOptions (location_title n) = Some (location_name n)"
  "n < 7 \<Longrightarrow> 0 \<le> js_indexOf (location_title n) ''-''"
  "n < 7 \<Longrightarrow> hd (location_name n) \<noteq> CHR ''1'' \<and> location_name n \<noteq> []"
proof -
  have cases: "n < 7 \<Longrightarrow> n \<in> {0, 1, 2, 3, 4, 5, 6}" by auto
  show "length locationOptions = 7" by (simp add: locationOptions_def)
  show "n < 7 \<Longrightarrow> location_title n = ''1-'' @ int_str (int n)"
    using cases by (auto simp: location_title_def locationOptions_def int_str_def dec_str.simps digit_char_def)
  show "n < 7 \<Longrightarrow> map_of locationOptions (location_title n) = Some (location_name n)"
    using cases by (auto simp: location_title_def location_name_def locationOptions_def)
  show "n < 7 \<Longrightarrow> 0 \<le> js_indexOf (location_title n) ''-''"
    using cases by (auto simp: location_title_def locationOptions_def js_indexOf_def)
  show "n < 7 \<Longrightarrow> hd (location_name n) \<noteq> CHR ''1'' \<and> location_name n \<noteq> []"
    using cases by (auto simp: location_name_def locationOptions_def)
qed

lemma reachable_fields [simp]:
  "reachable (input_el v e) = [e]" "reachable (shown_el v) = []" "reachable (radio_el marked label e) = [e]"
  "reachable (deal_item label es) = concat (map reachable es)"
  by (simp_all add: input_el_def shown_el_def radio_el_def deal_item_def)

lemma table_offers_rows:
  "set (reachable (provider_table n s)) \<subseteq>
     insert ScrollProviders {ChooseMiner n i m r | i m r. i < length (sd_tableData s) \<and> m = sd_tableData s ! i}"
  by (auto simp: provider_table_def reachable_table in_set_enumerate_eq)

lemma menu_parts:
  "set (reachable (provider_menu value typing u s)) = {OpenTop, typing} \<union>
     (\<Union>(n, title, name) \<in> set (enumerate 0 locationOptions).
        {OpenLocation n, HoverLocation n} \<union> (if u = Some n then set (reachable (provider_table n s)) else {}))"
  by (auto simp: provider_menu_def v_if_def split: if_splits)

lemma menu_offers:
  assumes "ev \<in> set (reachable (provider_menu value typing u s))"
  shows "ev = OpenTop \<or> ev = typing \<or> ev = ScrollProviders \<or> (\<exists>n < 7. ev = HoverLocation n \<or> ev = OpenLocation n) \<or>
    (\<exists>n i r. ev = ChooseMiner n i (sd_tableData s ! i) r \<and> u = Some n \<and> i < length (sd_tableData s))"
proof (cases "ev = OpenTop \<or> ev = typing")
  case False
  then obtain n x where "(n, x) \<in> set (enumerate 0 locationOptions)"
    and ev: "ev = OpenLocation n \<or> ev = HoverLocation n \<or> u = Some n \<and> ev \<in> set (reachable (provider_table n s))"
    using assms unfolding menu_parts by (auto split: if_splits)
  then have n: "n < 7" by (simp add: in_set_enumerate_eq locations(1))
  from ev consider "ev = OpenLocation n" | "ev = HoverLocation n" | "u = Some n" "ev \<in> set (reachable (provider_table n s))" by blast
  then show ?thesis
  proof cases
    case 3
    from subsetD [OF table_offers_rows 3(2)] 3(1) show ?thesis by blast
  qed (use n in blast)+
qed blast

text \<open>The events outside the provider menu and the tags.\<close>

definition plain_events :: "share_event set" where
  "plain_events = {CloseShare, CancelShare, CopyShareLink, ChangeNum, SendOnline, TypePrice, TypeDuration, CopyDealCid, SendOffline,
     TypeTask, TypeDesc, TypeDataset, TypeBidDay, TypeMinPrice, TypeMaxPrice, CloseFinished} \<union>
     range PickTab \<union> range PickVerified \<union> range PickRetrieval \<union> range PickType \<union> range PickBid"

definition row_shown :: "share_props \<Rightarrow> share_dialog \<Rightarrow> nat \<Rightarrow> nat \<Rightarrow> miner \<Rightarrow> bool" where
  "row_shown p s n i m \<longleftrightarrow>
     sp_unfolded p = Some n \<and> i < length (sd_tableData s) \<and> m = sd_tableData s ! i \<and>
     (sd_activeOn s = ''online'' \<or> sd_activeOn s = ''offline'' \<and> ff_OpenBidType (sd_offline s) \<noteq> 1)"

definition tag_events :: "share_dialog \<Rightarrow> share_event set" where
  "tag_events s = CloseTag ` set (ff_tags (sd_offline s)) \<union> (if sd_inputVisibleTask s then {TypeTag, ConfirmTag} else {NewTag})"

definition menu_events :: "share_props \<Rightarrow> share_dialog \<Rightarrow> share_event set" where
  "menu_events p s = {ev. ev = OpenTop \<or> ev = TypeProvider \<or> ev = TypeOfflineProvider \<or> ev = ScrollProviders \<or>
     (\<exists>n < 7. ev = HoverLocation n \<or> ev = OpenLocation n) \<or> (\<exists>n i m r. ev = ChooseMiner n i m r \<and> row_shown p s n i m)}"

lemma menu_shown:
  assumes "sd_activeOn s = ''online'' \<or> sd_activeOn s = ''offline'' \<and> ff_OpenBidType (sd_offline s) \<noteq> 1"
    and "typing = TypeProvider \<or> typing = TypeOfflineProvider"
  shows "set (reachable (provider_menu value typing (sp_unfolded p) s)) \<subseteq> menu_events p s"
  using menu_offers [of _ "value" typing "sp_unfolded p" s] assms unfolding menu_events_def row_shown_def by blast

lemma left_offers: "set (reachable (share_left p s)) \<subseteq> plain_events"
  by (auto simp: share_left_def plain_events_def split: option.splits)

lemma online_parts:
  "reachable (online_deal p s) =
     SendOnline # reachable (provider_menu (of_minerId (sd_online s)) TypeProvider (sp_unfolded p) s) @
     [TypePrice, TypeDuration, PickVerified ''1'', PickVerified ''2'', PickRetrieval ''1'', PickRetrieval ''2''] @
     (if of_dealCID (sd_online s) = [] then [] else [CopyDealCid])"
  by (simp add: online_deal_def Let_def)

lemma online_offers:
  assumes "sd_activeOn s = ''online''"
  shows "set (reachable (online_deal p s)) \<subseteq> plain_events \<union> menu_events p s"
proof -
  have "{SendOnline, TypePrice, TypeDuration, CopyDealCid} \<union> range PickVerified \<union> range PickRetrieval \<subseteq> plain_events"
    unfolding plain_events_def by blast
  with menu_shown [of s TypeProvider "of_minerId (sd_online s)" p] assms show ?thesis
    unfolding online_parts by (simp only: set_append list.set split: if_split) blast
qed

lemma tag_offers: "set (concat (map reachable (tag_field s))) \<subseteq> tag_events s"
  by (auto simp: tag_field_def tag_events_def)

lemma offline_parts:
  "reachable (offline_deal p s) =
     [SendOffline, TypeTask, TypeDesc] @ concat (map reachable (tag_field s)) @
     [TypeDataset, PickType ''regular'', PickType ''verified'', PickBid 1, PickBid 0] @ concat (map reachable (bid_fields (sd_offline s))) @
     (if ff_OpenBidType (sd_offline s) = 1 then []
      else reachable (provider_menu (ff_providerId (sd_offline s)) TypeOfflineProvider (sp_unfolded p) s))"
  by (simp add: offline_deal_def Let_def v_if_def)

lemma offline_offers:
  assumes "sd_activeOn s = ''offline''"
  shows "set (reachable (offline_deal p s)) \<subseteq> plain_events \<union> tag_events s \<union> menu_events p s"
proof -
  have "set [SendOffline, TypeTask, TypeDesc] \<subseteq> plain_events" unfolding plain_events_def by simp
  moreover have "set [TypeDataset, PickType ''regular'', PickType ''verified'', PickBid 1, PickBid 0] \<subseteq> plain_events"
    unfolding plain_events_def by simp
  moreover have "set (concat (map reachable (bid_fields f))) \<subseteq> plain_events" for f by (auto simp: bid_fields_def v_if_def plain_events_def)
  moreover have "set (if ff_OpenBidType (sd_offline s) = 1 then []
      else reachable (provider_menu (ff_providerId (sd_offline s)) TypeOfflineProvider (sp_unfolded p) s)) \<subseteq> menu_events p s"
    using menu_shown [of s TypeOfflineProvider "ff_providerId (sd_offline s)" p] assms by simp
  ultimately show ?thesis
    unfolding offline_parts set_append Un_subset_iff using tag_offers [of s] by (meson le_supI1 le_supI2)
qed

lemma page_parts:
  "reachable (share_page p s) =
     (if sd_finishTransaction s then [CloseFinished]
      else if sd_shareDialog s
      then CloseShare # (if sp_shareObjectShow p then reachable (share_left p s) else []) @
           (if sd_shareFileShow s \<and> sd_sendApi s = 1 then reachable share_tabs else []) @
           (if sd_shareFileShow s \<and> sd_activeOn s = ''online'' then reachable (online_deal p s) else []) @
           (if sd_shareFileShow s \<and> sd_activeOn s = ''offline'' then reachable (offline_deal p s) else [])
      else [])"
  by (simp add: share_page_def reachable_under el_dialog_def v_if_def)

lemma share_offers:
  assumes "ev \<in> set (reachable (share_page p s))"
  shows "ev \<in> plain_events \<or> ev \<in> tag_events s \<or> ev \<in> menu_events p s"
proof -
  have tabs: "set (reachable share_tabs) \<subseteq> plain_events" by (auto simp: share_tabs_def plain_events_def)
  have "ev = CloseShare \<or> ev = CloseFinished \<or> ev \<in> set (reachable (share_left p s)) \<or> ev \<in> set (reachable share_tabs) \<or>
      sd_activeOn s = ''online'' \<and> ev \<in> set (reachable (online_deal p s)) \<or>
      sd_activeOn s = ''offline'' \<and> ev \<in> set (reachable (offline_deal p s))"
    using assms unfolding page_parts by (simp split: if_splits) blast+
  moreover have "CloseShare \<in> plain_events" "CloseFinished \<in> plain_events" by (simp_all add: plain_events_def)
  ultimately show ?thesis
    using subsetD [OF left_offers] subsetD [OF tabs] subsetD [OF online_offers, of s] subsetD [OF offline_offers, of s] by blast
qed

section \<open>The dialog in use\<close>

fun about_providers :: "share_tag \<Rightarrow> bool" where
  "about_providers (MinersReply l) = True"
| "about_providers (MoreReply l) = True"
| "about_providers t = False"

definition asks_providers :: "share_cmd list \<Rightarrow> share_tag list" where
  "asks_providers cs = filter about_providers (map fst (requests cs))"

text \<open>
  A use: the dialog with the location unfolded in its menu and the requests for providers that are not
  answered yet, in any order of answers. The provider service is not part of the repository: \<open>svc\<close> is what
  it lists for a location, and an answer holds only such rows. The page that owns the dialog may change what
  it passes in; the dialog is made anew when it is closed. With \<open>careful\<close> a location is entered only
  when no request for providers is under way.
\<close>

inductive share_use :: "bool \<Rightarrow> (string \<Rightarrow> miner list) \<Rightarrow> share_dialog \<Rightarrow> nat option \<Rightarrow> share_tag list \<Rightarrow> bool"
  for careful :: bool and svc :: "string \<Rightarrow> miner list" where
  use_opens: "share_use careful svc (share_init address api) None []"
| use_props: "share_use careful svc s u fl \<Longrightarrow>
    share_use careful svc (s\<lparr>sd_shareDialog := a, sd_shareFileShow := b, sd_postAdress := c, sd_sendApi := d, sd_share_input := l\<rparr>) u fl"
| use_event: "share_use careful svc s u fl \<Longrightarrow> sp_unfolded p = u \<Longrightarrow> ev \<in> set (reachable (share_page p s)) \<Longrightarrow>
    careful \<and> enters ev \<longrightarrow> fl = [] \<Longrightarrow>
    share_use careful svc (out_state (share_handle e ev s)) (unfolds ev u) (fl @ asks_providers (out_cmds (share_handle e ev s)))"
| use_folds: "share_use careful svc s u fl \<Longrightarrow> share_use careful svc s None fl"
| use_first: "share_use careful svc s u fl \<Longrightarrow> MinersReply l \<in> set fl \<Longrightarrow> \<forall>ms n. r = Inr (ms, n) \<longrightarrow> set ms \<subseteq> set (svc l) \<Longrightarrow>
    share_use careful svc (miners_reply r s) u (remove1 (MinersReply l) fl)"
| use_more: "share_use careful svc s u fl \<Longrightarrow> MoreReply l \<in> set fl \<Longrightarrow> \<forall>ms. r = Inr ms \<longrightarrow> set ms \<subseteq> set (svc l) \<Longrightarrow>
    share_use careful svc (more_reply r s) u (remove1 (MoreReply l) fl)"
| use_deal: "share_use careful svc s u fl \<Longrightarrow> share_use careful svc (fst (deal_reply d s)) u fl"
| use_offline: "share_use careful svc s u fl \<Longrightarrow> share_use careful svc (fst (offline_reply d s)) u fl"

text \<open>The events other than entering a location and scrolling leave the rows alone.\<close>

definition same_rows :: "share_dialog \<Rightarrow> share_dialog \<Rightarrow> bool" where
  "same_rows s t \<longleftrightarrow> sd_tableData t = sd_tableData s \<and> sd_parentName t = sd_parentName s"

lemma handled_rows:
  assumes "\<not> enters ev" "ev \<noteq> ScrollProviders"
  shows "same_rows s (out_state (share_handle e ev s)) \<and> asks_providers (out_cmds (share_handle e ev s)) = []"
proof (cases ev)
  case OpenTop
  then show ?thesis by (simp add: ends_def handleOpen_def same_rows_def asks_providers_def js_indexOf_def)
next
  case SendOffline
  then show ?thesis
    by (simp add: ends_def submitofflineForm_def Let_def set_tips_def offline_request_def same_rows_def asks_providers_def)
next
  case (ChooseMiner n i m r)
  then show ?thesis
    by (simp add: choose_miner_def Let_def cellClick_def handleCurrentChange_def same_rows_def asks_providers_def)
qed (use assms in \<open>simp_all add: same_rows_def asks_providers_def ends_def share_getDiglogChange_def share_copyLink_def
      share_handleChange_def handleClick_def Let_def share_submitForm_def set_online_def set_offline_def handleTagsClose_def
      set_tags_def type_tag_def handleInputConfirmTask_def showInputTask_def\<close>)

definition rows_ok :: "(string \<Rightarrow> miner list) \<Rightarrow> share_dialog \<Rightarrow> nat option \<Rightarrow> share_tag list \<Rightarrow> bool" where
  "rows_ok svc s u fl \<longleftrightarrow>
     set (sd_tableData s) \<subseteq> set (svc (sd_parentName s)) \<and>
     set fl \<subseteq> {MinersReply (sd_parentName s), MoreReply (sd_parentName s)} \<and>
     (\<forall>n. u = Some n \<longrightarrow> n < 7 \<and> sd_parentName s = location_name n)"

lemma entered_rows:
  assumes "ev \<in> menu_events p s" "enters ev"
  shows "rows_ok svc (out_state (share_handle e ev s)) (unfolds ev u) (asks_providers (out_cmds (share_handle e ev s)))"
proof -
  obtain n where n: "n < 7" "ev = HoverLocation n \<or> ev = OpenLocation n"
    using assms by (auto simp: menu_events_def)
  from n(2) show ?thesis
  proof
    assume "ev = HoverLocation n"
    then show ?thesis using n(1)
      by (simp add: ends_def handleOpenSubmenu_def open_location_def rows_ok_def asks_providers_def)
  next
    assume "ev = OpenLocation n"
    then show ?thesis using n(1) locations(3,4) [OF n(1)]
      by (simp add: ends_def handleOpen_def open_location_def rows_ok_def asks_providers_def)
  qed
qed

lemma scrolled_rows:
  "rows_ok svc s u fl \<Longrightarrow>
   rows_ok svc (out_state (share_handle e ScrollProviders s)) u (fl @ asks_providers (out_cmds (share_handle e ScrollProviders s)))"
  by (auto simp: ends_def loadMore_def Let_def rows_ok_def asks_providers_def)

lemma rows_ok_same: "rows_ok svc s u fl \<Longrightarrow> same_rows s t \<Longrightarrow> rows_ok svc t u fl"
  by (simp add: rows_ok_def same_rows_def)

lemma answered_rows: "rows_ok svc s u fl \<Longrightarrow> rows_ok svc s u (remove1 t fl)"
  using set_remove1_subset [of t fl] by (auto simp: rows_ok_def)

lemma miners_reply_fields:
  "sd_tableData (miners_reply r s) = (case r of Inl c \<Rightarrow> sd_tableData s | Inr (ms, n) \<Rightarrow> ms)"
  "sd_parentName (miners_reply r s) = sd_parentName s"
  by (simp_all add: miners_reply_def Let_def split: sum.split prod.split)

lemma enters_menu: "ev \<in> set (reachable (share_page p s)) \<Longrightarrow> enters ev \<Longrightarrow> ev \<in> menu_events p s"
  using share_offers [of ev p s] by (auto simp: plain_events_def tag_events_def split: if_splits)

lemma share_use_rows: "share_use careful svc s u fl \<Longrightarrow> careful \<Longrightarrow> rows_ok svc s u fl"
proof (induction rule: share_use.induct)
  case (use_opens address api)
  then show ?case by (simp add: rows_ok_def share_init_def)
next
  case (use_event s u fl p ev e)
  show ?case
  proof (cases "enters ev")
    case True
    with use_event have "fl = []" by simp
    then show ?thesis using entered_rows [OF enters_menu [OF use_event.hyps(3) True] True] by simp
  next
    case False
    then have "unfolds ev u = u" by (cases ev) simp_all
    then show ?thesis
      using use_event False handled_rows [OF False] scrolled_rows [of svc s u fl e] rows_ok_same [of svc s u fl]
      by (cases "ev = ScrollProviders") simp_all
  qed
next
  case (use_first s u fl l r)
  then have "rows_ok svc s u (remove1 (MinersReply l) fl)" by (auto intro: answered_rows)
  moreover have "l = sd_parentName s" using use_first by (auto simp: rows_ok_def)
  ultimately show ?case using use_first.hyps(3) by (cases r) (auto simp: rows_ok_def miners_reply_fields)
next
  case (use_more s u fl l r)
  then have "rows_ok svc s u (remove1 (MoreReply l) fl)" by (auto intro: answered_rows)
  moreover have "l = sd_parentName s" using use_more by (auto simp: rows_ok_def)
  ultimately show ?case using use_more.hyps(3) by (cases r) (auto simp: rows_ok_def more_reply_def)
next
  case (use_deal s u fl d)
  then show ?case by (cases d) (auto simp: rows_ok_def)
next
  case (use_offline s u fl d)
  then show ?case by (cases d) (auto simp: rows_ok_def)
qed (auto simp: rows_ok_def)

text \<open>
  C18: a provider is chosen from the location it is shown under. In every use of the dialog with the pointer in which a
  location is entered only when no request for providers is under way - whatever else is clicked, scrolled
  and typed, whether answers succeed or fail and in which order - a row offered under a location is a
  provider the service lists for it, and after a click on it - if it has an id and is not the current row already - the deal that Send makes
  names this provider.
\<close>

theorem chosen_provider_is_listed:
  assumes "share_use True svc s u fl" "sp_unfolded p = u" "ChooseMiner n i m via_radio \<in> set (reachable (share_page p s))"
    and "se_fresh e" "mn_id m \<noteq> []" "t = out_state (share_handle e (ChooseMiner n i m via_radio) s)"
  shows "m \<in> set (svc (location_name n)) \<and>
    (if sd_activeOn s = ''online''
     then online_valid (sd_online t) \<longrightarrow> snd (share_submitForm api token t) =
       [Request DealReply (axios_post (api @ (if sd_sendApi s = 1 then ''/minio/deals/'' else ''/minio/deal/'') @ sd_postAdress s)
          (JObj [(''VerifiedDeal'', JStr (if of_verified (sd_online s) = ''2'' then ''false'' else ''true'')),
                 (''FastRetrieval'', JStr (if of_fastRetirval (sd_online s) = ''2'' then ''false'' else ''true'')),
                 (''MinerId'', JStr (mn_id m)), (''Price'', JStr (of_price (sd_online s))),
                 (''Duration'', JStr (epochs_text (of_duration (sd_online s))))]) token)]
     else ff_task_name (sd_offline s) \<noteq> [] \<longrightarrow> snd (submitofflineForm api token t) =
       [Request OfflineReply (axios_post (api @ ''/minio/offlinedeals/'' @ sd_postAdress s)
          (JObj (offline_common (sd_offline s) @ [(''Miner_Id'', JStr (mn_id m))])) token)])"
proof -
  have row: "row_shown p s n i m" using share_offers [OF assms(3)]
    by (auto simp: plain_events_def tag_events_def menu_events_def split: if_splits)
  then have "m \<in> set (sd_tableData s)" by (simp add: row_shown_def)
  moreover have "rows_ok svc s u fl" using share_use_rows [OF assms(1)] by simp
  then have "set (sd_tableData s) \<subseteq> set (svc (sd_parentName s)) \<and> sd_parentName s = location_name n"
    using assms(2) row unfolding rows_ok_def row_shown_def by simp
  ultimately have "m \<in> set (svc (location_name n))" by auto
  moreover have "sd_activeOn s = ''online'' \<or> sd_activeOn s \<noteq> ''online'' \<and> ff_OpenBidType (sd_offline s) \<noteq> 1"
    using row by (auto simp: row_shown_def)
  ultimately show ?thesis using assms(4-6)
    by (auto simp: choose_miner_def Let_def cellClick_def handleCurrentChange_def share_submitForm_def deal_body_def
        submitofflineForm_def required_def set_tips_def offline_request_def offline_common_def)
qed

text \<open>Controls of the online form that are offered while the dialog is open.\<close>

definition open_online :: "share_dialog \<Rightarrow> bool" where
  "open_online s \<longleftrightarrow> sd_shareDialog s \<and> sd_shareFileShow s \<and> \<not> sd_finishTransaction s \<and> sd_activeOn s = ''online''"

lemma location_offered:
  assumes "open_online s" "n < 7"
  shows "HoverLocation n \<in> set (reachable (share_page p s))"
proof -
  have "(n, locationOptions ! n) \<in> set (enumerate 0 locationOptions)" using assms(2) by (simp add: in_set_enumerate_eq locations(1))
  then show ?thesis using assms(1)
    by (simp add: open_online_def page_parts online_parts menu_parts) (intro disjI2, rule bexI [of _ "(n, locationOptions ! n)"], simp_all add: case_prod_unfold)
qed

lemma row_offered:
  assumes "open_online s" "n < 7" "sp_unfolded p = Some n" "\<not> sd_loading s" "i < length (sd_tableData s)"
  shows "ChooseMiner n i (sd_tableData s ! i) False \<in> set (reachable (share_page p s))"
proof -
  have "ChooseMiner n i (sd_tableData s ! i) False \<in> set (reachable (provider_table n s))"
    using assms(4,5) by (auto simp: provider_table_def reachable_table in_set_enumerate_eq intro!: bexI [of _ "(i, sd_tableData s ! i)"])
  moreover have "(n, locationOptions ! n) \<in> set (enumerate 0 locationOptions)" using assms(2) by (simp add: in_set_enumerate_eq locations(1))
  ultimately show ?thesis using assms(1,3)
    by (simp add: open_online_def page_parts online_parts menu_parts) (intro disjI2, rule bexI [of _ "(n, locationOptions ! n)"], simp_all add: case_prod_unfold)
qed

definition asian :: miner where
  "asian = \<lparr>mn_id = ''f01'', mn_status = ''Active'', mn_score = 1\<rparr>"

definition european :: miner where
  "european = \<lparr>mn_id = ''f05'', mn_status = ''Active'', mn_score = 1\<rparr>"

definition regions :: "string \<Rightarrow> miner list" where
  "regions l = (if l = ''Asia'' then [asian] else if l = ''Europe'' then [european] else [])"

definition opened_dialog :: share_dialog where
  "opened_dialog = (share_init ''b/o'' 1)\<lparr>sd_shareDialog := True, sd_shareFileShow := True\<rparr>"

definition entered :: "nat \<Rightarrow> share_dialog \<Rightarrow> share_dialog" where
  "entered n s = s\<lparr>sd_tableData := [], sd_loading := True, sd_page := 0, sd_total := Fin 1,
     sd_parentLi := location_name n, sd_parentName := location_name n\<rparr>"

definition listed_now :: "miner list \<Rightarrow> share_dialog \<Rightarrow> share_dialog" where
  "listed_now ms s = s\<lparr>sd_tableData := ms, sd_loading := False, sd_loadSign := True\<rparr>"

lemma open_online_steps [simp]:
  "open_online opened_dialog" "open_online (entered n s) = open_online s" "open_online (listed_now ms s) = open_online s"
  by (simp_all add: open_online_def opened_dialog_def entered_def listed_now_def share_init_def)

lemma use_opened: "share_use careful svc opened_dialog None []"
  using use_props [OF use_opens [of careful svc "''b/o''" 1], of "[]" 1 "''b/o''" True True]
  by (simp add: opened_dialog_def share_init_def)

lemma use_enter:
  assumes "share_use careful svc s u fl" "open_online s" "n < 7" "careful \<longrightarrow> fl = []"
  shows "share_use careful svc (entered n s) (Some n) (fl @ [MinersReply (location_name n)])"
  using use_event [OF assms(1) _ location_offered [OF assms(2,3), of "\<lparr>sp_shareObjectShow = False, sp_num = None, sp_unfolded = u\<rparr>"],
      of "\<lparr>se_api = [], se_base = [], se_token = [], se_typed = [], se_copied = None, se_fresh = True\<rparr>"] assms(4)
  by (simp add: ends_def handleOpenSubmenu_def open_location_def entered_def asks_providers_def)

lemma use_listed:
  assumes "share_use careful svc s u fl" "MinersReply l \<in> set fl" "set ms \<subseteq> set (svc l)"
  shows "share_use careful svc (listed_now ms s) u (remove1 (MinersReply l) fl)"
  using use_first [OF assms(1,2), of "Inr (ms, 1)"] assms(3) by (simp add: miners_reply_def listed_now_def)

definition no_env :: "string \<Rightarrow> share_env" where
  "no_env v = \<lparr>se_api = [], se_base = [], se_token = [], se_typed = v, se_copied = None, se_fresh = True\<rparr>"

definition no_props :: "nat option \<Rightarrow> share_props" where
  "no_props u = \<lparr>sp_shareObjectShow = False, sp_num = None, sp_unfolded = u\<rparr>"

lemma use_priced:
  assumes "share_use careful svc s u fl" "open_online s"
  shows "share_use careful svc (set_online (\<lambda>f. f\<lparr>of_price := v\<rparr>) s) u fl"
    "share_use careful svc (set_online (\<lambda>f. f\<lparr>of_duration := v\<rparr>) s) u fl"
proof -
  have "TypePrice \<in> set (reachable (share_page (no_props u) s))" "TypeDuration \<in> set (reachable (share_page (no_props u) s))"
    using assms(2) by (simp_all add: open_online_def page_parts online_parts)
  then show "share_use careful svc (set_online (\<lambda>f. f\<lparr>of_price := v\<rparr>) s) u fl"
    "share_use careful svc (set_online (\<lambda>f. f\<lparr>of_duration := v\<rparr>) s) u fl"
    using use_event [OF assms(1), of "no_props u" TypePrice "no_env v"] use_event [OF assms(1), of "no_props u" TypeDuration "no_env v"]
    by (simp_all add: no_props_def no_env_def asks_providers_def)
qed

definition priced_dialog :: share_dialog where
  "priced_dialog = set_online (\<lambda>f. f\<lparr>of_duration := ''180''\<rparr>) (set_online (\<lambda>f. f\<lparr>of_price := ''0.5''\<rparr>) opened_dialog)"

lemma use_priced_dialog: "share_use careful svc priced_dialog None [] \<and> open_online priced_dialog"
  unfolding priced_dialog_def
  by (intro conjI use_priced use_opened open_online_steps) (simp_all add: open_online_def set_online_def opened_dialog_def share_init_def)

theorem chosen_provider_is_listed_witness:
  "asian \<in> set (regions (location_name 1)) \<and>
   snd (share_submitForm ''/api'' ''t'' (choose_miner True 1 0 asian False (listed_now [asian] (entered 1 priced_dialog)))) =
     [Request DealReply (axios_post ''/api/minio/deals/b/o''
        (JObj [(''VerifiedDeal'', JStr ''false''), (''FastRetrieval'', JStr ''true''), (''MinerId'', JStr ''f01''), (''Price'', JStr ''0.5''),
               (''Duration'', JStr (epochs_text ''180''))]) ''t'')]"
proof -
  let ?s = "listed_now [asian] (entered 1 priced_dialog)"
  have "location_name 1 = ''Asia''" by (simp add: location_name_def locationOptions_def)
  then have "share_use True regions ?s (Some 1) []"
    using use_listed [OF use_enter [of True regions priced_dialog None "[]" 1], of "''Asia''" "[asian]"] use_priced_dialog
    by (simp add: regions_def)
  moreover have "ChooseMiner 1 0 (sd_tableData ?s ! 0) False \<in> set (reachable (share_page (no_props (Some 1)) ?s))"
    using use_priced_dialog by (intro row_offered) (simp_all add: no_props_def, simp_all add: listed_now_def)
  then have "ChooseMiner 1 0 asian False \<in> set (reachable (share_page (no_props (Some 1)) ?s))"
    by (simp add: listed_now_def)
  ultimately show ?thesis
    using chosen_provider_is_listed [of regions ?s "Some 1" "[]" "no_props (Some 1)" 1 0 asian False "no_env []" _ "''/api''" "''t''"]
    by (simp add: asian_def choose_miner_def Let_def cellClick_def handleCurrentChange_def listed_now_def no_env_def no_props_def
        entered_def priced_dialog_def opened_dialog_def share_init_def set_online_def online_init_def online_valid_def required_def)
qed

text \<open>
  C34: two locations entered in quick succession mix. When the answer for the first arrives last, the
  table under the second shows - with nothing left to wait for - the providers of the first, and offers
  them as its own.
\<close>

theorem crossed_locations_mix:
  "\<exists>s. share_use False regions s (Some 5) [] \<and> location_name 5 = ''Europe'' \<and>
    ChooseMiner 5 0 asian False \<in> set (reachable (share_page (no_props (Some 5)) s)) \<and> asian \<notin> set (regions ''Europe'')"
proof -
  let ?s = "listed_now [asian] (listed_now [european] (entered 5 (entered 1 opened_dialog)))"
  have names: "location_name 1 = ''Asia''" "location_name (Suc 0) = ''Asia''" "location_name 5 = ''Europe''" by (simp_all add: location_name_def locationOptions_def)
  have "share_use False regions (entered 5 (entered 1 opened_dialog)) (Some 5) [MinersReply ''Asia'', MinersReply ''Europe'']"
    using use_enter [OF use_enter [OF use_opened, of 1 False regions], of 5] by (simp add: names)
  from use_listed [OF use_listed [OF this, of "''Europe''" "[european]"], of "''Asia''" "[asian]"]
  have "share_use False regions ?s (Some 5) []" by (simp add: regions_def)
  moreover have "ChooseMiner 5 0 (sd_tableData ?s ! 0) False \<in> set (reachable (share_page (no_props (Some 5)) ?s))"
    by (rule row_offered) (simp_all add: no_props_def, simp_all add: listed_now_def)
  moreover have "sd_tableData ?s ! 0 = asian" by (simp add: listed_now_def)
  ultimately show ?thesis using names by (auto simp: regions_def asian_def european_def)
qed

section \<open>Tags, and the radios\<close>

definition same_tags :: "share_dialog \<Rightarrow> share_dialog \<Rightarrow> bool" where
  "same_tags s t \<longleftrightarrow> ff_tags (sd_offline t) = ff_tags (sd_offline s) \<and> sd_inputVisibleTask t = sd_inputVisibleTask s \<and>
     sd_inputValueTask t = sd_inputValueTask s"

lemma tags_wf_same: "tags_wf s \<Longrightarrow> same_tags s t \<Longrightarrow> tags_wf t"
  by (simp add: tags_wf_def same_tags_def)

lemma other_events_tags:
  assumes "ev \<in> plain_events \<union> menu_events p s"
  shows "same_tags s (out_state (share_handle e ev s))"
proof (cases ev)
  case (OpenLocation n)
  then show ?thesis by (simp add: ends_def handleOpen_def open_location_def same_tags_def)
next
  case OpenTop
  then show ?thesis by (simp add: ends_def handleOpen_def open_location_def same_tags_def)
next
  case ScrollProviders
  then show ?thesis by (simp add: ends_def loadMore_def Let_def same_tags_def)
next
  case SendOffline
  then show ?thesis by (simp add: ends_def submitofflineForm_def Let_def set_tips_def same_tags_def)
next
  case (ChooseMiner n i m r)
  then show ?thesis by (simp add: choose_miner_def Let_def cellClick_def handleCurrentChange_def same_tags_def)
qed (use assms in \<open>auto simp: same_tags_def ends_def handleClick_def Let_def share_submitForm_def set_online_def set_offline_def
      handleOpenSubmenu_def open_location_def plain_events_def menu_events_def\<close>)

lemma tag_events_step:
  assumes "ev \<in> tag_events s"
  shows "tag_step s (out_state (share_handle e ev s))"
proof -
  consider tag where "tag \<in> set (ff_tags (sd_offline s))" "ev = CloseTag tag" | "ev = TypeTag" | "ev = ConfirmTag"
    | "ev = NewTag" "\<not> sd_inputVisibleTask s"
    using assms by (auto simp: tag_events_def split: if_splits)
  then show ?thesis
  proof cases
    case 4
    with press_new [of s] show ?thesis by (simp add: ends_def case_prod_unfold)
  qed (auto intro: tag_step.intros)
qed

text \<open>
  C23: the tags of a deal. Whatever is clicked and typed in the rendered dialog and whatever is answered,
  the tags of the offline deal stay distinct, at most five, non-empty and at most fifteen characters long,
  and while the field for a new tag is open there is room for one.
\<close>

theorem rendered_tags_invariant:
  assumes "share_use careful svc s u fl"
  shows "distinct (ff_tags (sd_offline s)) \<and> length (ff_tags (sd_offline s)) \<le> (if sd_inputVisibleTask s then 4 else 5) \<and>
    (\<forall>t \<in> set (ff_tags (sd_offline s)). t \<noteq> [] \<and> length t \<le> 15)"
proof -
  have "tags_wf s" using assms
  proof (induction rule: share_use.induct)
    case (use_opens address api)
    show ?case by (rule tags_wf_init)
  next
    case (use_event s u fl p ev e)
    from share_offers [OF use_event.hyps(3)] consider "ev \<in> tag_events s" | "ev \<in> plain_events \<union> menu_events p s" by blast
    then show ?case
      using tags_wf_step [OF tag_events_step use_event.IH] tags_wf_same [OF use_event.IH other_events_tags] by cases blast+
  next
    case (use_first s u fl l r)
    then show ?case by (intro tags_wf_same [of s "miners_reply r s"]) (auto simp: same_tags_def miners_reply_def Let_def split: sum.split)
  next
    case (use_more s u fl l r)
    then show ?case by (intro tags_wf_same [of s "more_reply r s"]) (auto simp: same_tags_def more_reply_def split: sum.split)
  next
    case (use_deal s u fl d)
    then show ?case by (cases d) (simp_all add: tags_wf_def)
  next
    case (use_offline s u fl d)
    then show ?case by (cases d) (simp_all add: tags_wf_def)
  qed (simp_all add: tags_wf_def)
  then show ?thesis by (simp add: tags_wf_def list_all_iff)
qed

definition tagging :: "string list \<Rightarrow> bool \<Rightarrow> string \<Rightarrow> share_dialog" where
  "tagging ts field v = set_tags ts (opened_dialog\<lparr>sd_activeOn := ''offline'', sd_inputVisibleTask := field, sd_inputValueTask := v\<rparr>)"

lemma tag_offered:
  "ev \<in> set (concat (map reachable (tag_field (tagging ts field v)))) \<Longrightarrow> ev \<in> set (reachable (share_page p (tagging ts field v)))"
  unfolding page_parts offline_parts
  by (simp add: tagging_def set_tags_def opened_dialog_def share_init_def del: set_concat)

lemma use_tagging: "share_use careful svc (tagging [''photos''] False []) None []"
proof -
  note facts = tagging_def set_tags_def opened_dialog_def share_init_def no_props_def no_env_def asks_providers_def ends_def
    tag_field_def showInputTask_def type_tag_def handleInputConfirmTask_def uniqueNew_def Let_def offline_init_def handleClick_def
  have "PickTab ''offline'' \<in> set (reachable (share_page (no_props None) opened_dialog))"
    by (simp add: page_parts share_tabs_def opened_dialog_def share_init_def)
  from use_event [OF use_opened _ this, of _ _ "no_env []"] have "share_use careful svc (tagging [] False []) None []"
    by (simp add: facts online_init_def)
  from use_event [OF this _ tag_offered, of "no_props None" NewTag "no_env []"] have "share_use careful svc (tagging [] True []) None []"
    by (simp add: facts)
  from use_event [OF this _ tag_offered, of "no_props None" TypeTag "no_env ''photos''"] have "share_use careful svc (tagging [] True ''photos'') None []"
    by (simp add: facts)
  from use_event [OF this _ tag_offered, of "no_props None" ConfirmTag "no_env []"] show ?thesis by (simp add: facts)
qed

theorem rendered_tags_invariant_witness:
  "let s = tagging [''photos''] False []
   in distinct (ff_tags (sd_offline s)) \<and> length (ff_tags (sd_offline s)) \<le> (if sd_inputVisibleTask s then 4 else 5) \<and>
      (\<forall>t \<in> set (ff_tags (sd_offline s)). t \<noteq> [] \<and> length t \<le> 15)"
  unfolding Let_def by (rule rendered_tags_invariant [OF use_tagging [of True regions]])

text \<open>
  The radio of a row carries the number of its location; a click on the row writes what the location was
  entered by. After the pointer entered it that is its name, and no radio of any row is marked; after a
  click opened it, the radio of the row is.
\<close>

lemma hovered_row_unmarked:
  assumes "n < 7" "t = choose_miner fresh n i m False (out_state (share_handle e (HoverLocation n) s))"
  shows "sd_radio t \<noteq> radio_label k j"
proof -
  have "hd (sd_radio t) = hd (location_name n)" using locations(5) [OF assms(1)]
    by (simp add: assms(2) choose_miner_def Let_def cellClick_def handleCurrentChange_def ends_def handleOpenSubmenu_def open_location_def)
  moreover have "hd (radio_label k j) = CHR ''1''" by (simp add: radio_label_def)
  ultimately show ?thesis using locations(5) [OF assms(1)] by metis
qed

lemma opened_row_marked:
  assumes "n < 7"
  shows "sd_radio (choose_miner fresh n i m False (out_state (share_handle e (OpenLocation n) s))) = radio_label n i"
  using locations(2,4) [OF assms]
  by (simp add: choose_miner_def Let_def cellClick_def handleCurrentChange_def ends_def handleOpen_def open_location_def radio_label_def)

end
