(* ===== verification/App_View.thy ===== *)
theory App_View
  imports Frame_Folders File_View Slide_View Share_View
begin

text \<open>
  The application while the file page is shown, as it is rendered: the template of the frame
  (\<open>components/Home.vue\<close>) around the side bar, the file page, the share dialog and the retrieval dialog
  (template of \<open>components/retrievalDialog.vue\<close>), and what a click on any control does to all of them.
\<close>

section \<open>The templates\<close>

datatype retrieval_event = CloseRetrieval | CopyDeal string

definition deal_popover :: "string \<Rightarrow> retrieval_event elem list" where
  "deal_popover cid = [Node ''el-popover'' [] [] [Text cid, button cid (CopyDeal cid)]]"

definition retrieval_columns :: "(shown_deal, retrieval_event) column list" where
  "retrieval_columns =
     [(''Date'', \<lambda>d. [Text (sd_timeStamp d)]),
      (''W3SS ID'', \<lambda>d. [Text (deal_member d ''minerId'')]),
      (''Price'', \<lambda>d. [Text (deal_member d ''price'' @ '' FIL'')]),
      (''Deal CID'', \<lambda>d. deal_popover (deal_member d ''dealCid'')),
      (''Data CID'', \<lambda>d. deal_popover (deal_member d ''dataCid'')),
      (''Duration'', \<lambda>d. [Text (deal_member d ''duration'')])]"

text \<open>A deal without data makes the cells throw, and the table stays empty, as it was before the answer.\<close>

definition retrieval_page :: "bool \<Rightarrow> retrieval \<Rightarrow> retrieval_event elem" where
  "retrieval_page visible r =
     under_dialogs (box [])
       (el_dialog visible ''Retrieval'' CloseRetrieval
          [el_table ''No Data'' retrieval_columns
             (if None \<in> set (rt_exChangeList r) then [] else map the (rt_exChangeList r))])"

datatype app_event =
    InSide side_event
  | InFile file_event
  | InShare share_event
  | InRetrieval retrieval_event
  | SlideButton
  | PlusButton
  | PickFile string
  | NewBucket
  | ClickFrame

definition frame_head :: "home \<Rightarrow> app_event elem" where
  "frame_head h =
     Node ''el-row'' [] []
       [if hm_slideShow h then Node ''el-button'' [(''class'', ''el-icon-back'')] [(''click'', SlideButton)] []
        else Node ''el-button'' [(''class'', ''icon-ziyuan'')] [(''click'', SlideButton)] []]"

definition add_menu :: "string list \<Rightarrow> home \<Rightarrow> app_event elem" where
  "add_menu files h =
     box (v_if (hm_addFileShow h)
            [Node ''el-upload'' [(''content'', ''Upload file'')] (map (\<lambda>f. (''change'', PickFile f)) files) [],
             Node ''el-tooltip'' [(''content'', ''Create bucket'')] [(''click'', NewBucket)] []] @
          [Node ''i'' [(''class'', ''el-icon-plus'')] [(''click'', PlusButton)] []])"

definition upload_progress :: "home \<Rightarrow> app_event elem list" where
  "upload_progress h = v_if (hm_drawer h) [Node ''progress'' [(''max'', ''100'')] [] [Text (num_str (hm_percentage h))]]"

section \<open>The application\<close>

text \<open>
  The three components of theory App_Frame, and the frame's share dialog and retrieval dialog. The page's
  own share dialog and the change of the password are part of the file page only by the events they send.
\<close>

record app =
  ap_frame :: app_frame
  ap_share :: share_dialog
  ap_unfolded :: "nat option"
  ap_retrieval :: retrieval

text \<open>What the widgets and the browser decide: the dialog in front, the order the table displays, the files offered.\<close>

record app_screen =
  as_location :: string
  as_front :: nat
  as_log :: "jsnum \<Rightarrow> jsnum"
  as_rows :: "row list"
  as_files :: "string list"

text \<open>
  The whole page. A dialog masks the component it belongs to; that it also covers the other components on
  the screen is left out, so that the page offers at least what can be clicked.
\<close>

definition app_page :: "app_screen \<Rightarrow> app \<Rightarrow> app_event elem" where
  "app_page sc a =
     (let h = fr_home (ap_frame a)
      in Node ''div'' [(''class'', ''wrapper'')] [(''click'', ClickFrame)]
           ([relabel InSide (slide_page (as_location sc) (fr_slide (ap_frame a))),
             frame_head h,
             relabel InFile (file_page (as_front sc) (as_log sc) (hm_userd h) (hm_aboutServer h) (hm_dialogFormVisible h)
               (as_rows sc) (fr_view (ap_frame a))),
             add_menu (as_files sc) h] @
            upload_progress h @
            v_if (hm_isRouterAlive h)
              [relabel InShare (share_page \<lparr>sp_shareObjectShow = hm_shareObjectShow h, sp_num = None, sp_unfolded = ap_unfolded a\<rparr> (ap_share a))] @
            [relabel InRetrieval (retrieval_page (hm_retrievalDialog h) (ap_retrieval a))]))"

section \<open>What a click does\<close>

record app_env =
  ae_api :: string
  ae_token :: string
  ae_fmt :: "string \<Rightarrow> string"
  ae_path :: string
  ae_typed :: string
  ae_page :: page_env
  ae_share :: share_env

text \<open>The frame's listener on the share dialog.\<close>

definition share_listener :: "string \<Rightarrow> json list \<Rightarrow> home \<Rightarrow> (home, home_cmd) outcome option" where
  "share_listener e args h =
     (if e = ''getshareDialog'' then Some (Done (home_getshareDialog (arg_truthy 0 args) h) []) else None)"

text \<open>Events of the share dialog that are no clicks, and stay there.\<close>

fun no_click :: "share_event \<Rightarrow> bool" where
  "no_click (HoverLocation n) = True"
| "no_click ScrollProviders = True"
| "no_click ChangeNum = True"
| "no_click TypeProvider = True"
| "no_click TypePrice = True"
| "no_click TypeDuration = True"
| "no_click TypeTask = True"
| "no_click TypeDesc = True"
| "no_click TypeTag = True"
| "no_click ConfirmTag = True"
| "no_click TypeDataset = True"
| "no_click TypeBidDay = True"
| "no_click TypeMinPrice = True"
| "no_click TypeMaxPrice = True"
| "no_click TypeOfflineProvider = True"
| "no_click ev = False"

text \<open>The state of the frame after the handlers of its own controls and of the listeners on its dialogs.\<close>

fun home_click :: "app_env \<Rightarrow> share_dialog \<Rightarrow> app_event \<Rightarrow> home \<Rightarrow> home" where
  "home_click env s (InShare ev) h =
     (let h1 = fst (run_events share_listener (out_cmds (share_handle (ae_share env) ev s)) h)
      in if no_click ev then h1 else wrapperClick h1)"
| "home_click env s (InRetrieval CloseRetrieval) h = wrapperClick (home_getretrievalDialog False h)"
| "home_click env s SlideButton h = slideBtn h"
| "home_click env s PlusButton h = addToggle h"
| "home_click env s (PickFile name) h = wrapperClick (fst (onChange (ae_api env) (ae_token env) name h))"
| "home_click env s NewBucket h = wrapperClick (fst (createHomeBuck (ae_path env) h))"
| "home_click env s ev h = wrapperClick h"

text \<open>A click inside a child runs its handlers and watchers first, and then reaches the frame.\<close>

fun frame_click :: "app_env \<Rightarrow> share_dialog \<Rightarrow> app_event \<Rightarrow> app_frame \<Rightarrow> app_frame" where
  "frame_click env s (InSide ev) f = side_click (ae_api env) (ae_token env) (ae_fmt env) (ae_typed env) ev f"
| "frame_click env s (InFile ev) f =
     (let g = file_in_frame (ae_api env) (ae_token env) (ae_fmt env) (ae_page env) ev f
      in if stays ev then g else frame_flush (ae_fmt env) False False (wrapperClick (fr_home g)) g)"
| "frame_click env s ev f = frame_flush (ae_fmt env) False False (home_click env s ev (fr_home f)) f"

text \<open>
  The properties of the share dialog; when it closes, \<open>reload\<close> has the frame make a new one. The retrieval
  dialog asks for the deals when it opens: its watcher runs after the first handler of a click, so the bucket
  is the one before a click that also chooses another.
\<close>

definition share_flush :: "home \<Rightarrow> home \<Rightarrow> share_dialog \<Rightarrow> share_dialog" where
  "share_flush h0 h s =
     (if hm_shareDialog h0 \<and> \<not> hm_shareDialog h then share_init (hm_currentBucket h) 1 else s)
       \<lparr>sd_shareDialog := hm_shareDialog h, sd_shareFileShow := hm_shareFileShow h, sd_postAdress := hm_currentBucket h\<rparr>"

definition retrieval_flush :: "string \<Rightarrow> string \<Rightarrow> home \<Rightarrow> home \<Rightarrow> retrieval \<Rightarrow> retrieval \<times> retrieval_tag cmd list" where
  "retrieval_flush api token h0 h r =
     (if hm_retrievalDialog h = hm_retrievalDialog h0 then (r, [])
      else watch_retrievalDialog (hm_retrievalDialog h) api token (hm_currentBucket h0) r)"

definition app_click :: "app_env \<Rightarrow> app_event \<Rightarrow> app \<Rightarrow> app" where
  "app_click env ev a =
     (let f = ap_frame a; g = frame_click env (ap_share a) ev f;
          s = (case ev of InShare e \<Rightarrow> out_state (share_handle (ae_share env) e (ap_share a)) | _ \<Rightarrow> ap_share a)
      in \<lparr>ap_frame = g, ap_share = share_flush (fr_home f) (fr_home g) s,
          ap_unfolded = (case ev of InShare e \<Rightarrow> unfolds e (ap_unfolded a) | _ \<Rightarrow> None),
          ap_retrieval = fst (retrieval_flush (ae_api env) (ae_token env) (fr_home f) (fr_home g) (ap_retrieval a))\<rparr>)"

text \<open>The side bar hands down names of buckets, and the table the folders of the current prefix.\<close>

definition names_ok :: "app \<Rightarrow> bool" where
  "names_ok a \<longleftrightarrow> (\<forall>b \<in> set (shown_list (fr_slide (ap_frame a))). bk_name b \<noteq> [] \<and> CHR ''/'' \<notin> set (bk_name b))"

fun folder_ok :: "app_event \<Rightarrow> app \<Rightarrow> bool" where
  "folder_ok (InFile (OpenFolder name)) a \<longleftrightarrow>
     (\<exists>x. name = folder_key (bv_prefixName (fr_view (ap_frame a))) x \<and> x \<noteq> [] \<and> CHR ''/'' \<notin> set x)"
| "folder_ok ev a \<longleftrightarrow> True"

section \<open>A click in the side bar\<close>

text \<open>The events of the side bar's handlers to the frame.\<close>

definition event_ok :: "string \<Rightarrow> json list \<Rightarrow> bool" where
  "event_ok e args \<longleftrightarrow> e \<in> {''getshareHome'', ''getretrievalHome'', ''getMenuStretch''} \<or>
     (\<exists>name. e = ''getminioListBucket'' \<and> args = [JStr name, JBool True, JBool False, JBool False] \<and> name \<noteq> [] \<and> CHR ''/'' \<notin> set name)"

definition emits_ok :: "slide_cmd list \<Rightarrow> bool" where
  "emits_ok cs \<longleftrightarrow> (\<forall>e args. Emit e args \<in> set cs \<longrightarrow> event_ok e args)"

lemma emits_ok_simps [simp]:
  "emits_ok []" "emits_ok (c # cs) \<longleftrightarrow> (\<forall>e args. c = Emit e args \<longrightarrow> event_ok e args) \<and> emits_ok cs"
  "emits_ok (cs @ ds) \<longleftrightarrow> emits_ok cs \<and> emits_ok ds"
  by (auto simp: emits_ok_def)

text \<open>What they do to the fields the page depends on: nothing, or a bucket is chosen.\<close>

definition kept_or_picked :: "home \<Rightarrow> home \<Rightarrow> bool" where
  "kept_or_picked h h' \<longleftrightarrow>
     hm_listing h' = hm_listing h \<and> hm_addFileClick h' = hm_addFileClick h \<and> hm_uploadClick h' = hm_uploadClick h \<and>
     (core_of h' = core_of h \<or>
      hm_currentBucket h' \<noteq> [] \<and> CHR ''/'' \<notin> set (hm_currentBucket h') \<and> hm_prefixData h' = [] \<and> hm_slideListClick h < hm_slideListClick h')"

lemma kept_or_picked_trans: "kept_or_picked h h1 \<Longrightarrow> kept_or_picked h1 h2 \<Longrightarrow> kept_or_picked h h2"
  by (auto simp: kept_or_picked_def core_of_eq)

lemma kept_or_picked_core:
  "core_of h' = core_of h \<Longrightarrow> hm_addFileClick h' = hm_addFileClick h \<Longrightarrow> hm_uploadClick h' = hm_uploadClick h \<Longrightarrow> kept_or_picked h h'"
  by (simp add: kept_or_picked_def core_of_eq)

interpretation side_bar: listener "slide_listener api token" event_ok kept_or_picked for api token
proof
  show "kept_or_picked h h" for h by (simp add: kept_or_picked_core)
  show "kept_or_picked h h1 \<Longrightarrow> kept_or_picked h1 h2 \<Longrightarrow> kept_or_picked h h2" for h h1 h2 by (rule kept_or_picked_trans)
  fix e args h m
  assume ok: "event_ok e args" and heard: "slide_listener api token e args h = Some m"
  from ok show "kept_or_picked h (out_state m)"
    unfolding event_ok_def
  proof (elim disjE exE conjE)
    assume "e \<in> {''getshareHome'', ''getretrievalHome'', ''getMenuStretch''}"
    then have "out_state m \<in> {home_getshareHome (arg_truthy 0 args) (arg_truthy 1 args) (arg_truthy 2 args) h,
        home_getretrievalDialog (arg_truthy 0 args) h, home_getMenuStretch (arg_truthy 0 args) h}"
      using heard by (auto simp: slide_listens)
    then show ?thesis
      by (intro kept_or_picked_core) (auto simp: home_getshareHome_def home_getretrievalDialog_def home_getMenuStretch_def core_of_def)
  next
    fix name
    assume "e = ''getminioListBucket''" "args = [JStr name, JBool True, JBool False, JBool False]" "name \<noteq> []" "CHR ''/'' \<notin> set name"
    with heard picked_home [of name api token True False False h] show ?thesis
      by (auto simp: slide_listens kept_or_picked_def)
  qed
qed

lemma flush_agrees:
  assumes "same_folder f" "same_names f" "kept_or_picked (fr_home f) h"
  shows "same_folder (frame_flush fmt False False h f) \<and> same_names (frame_flush fmt False False h f)"
proof (cases "core_of h = core_of (fr_home f)")
  case True
  with assms(1,2) show ?thesis by (rule home_quiet_agrees)
next
  case False
  with assms(3) show ?thesis by (intro pick_flush_agrees [OF assms(2)]) (simp_all add: kept_or_picked_def)
qed

lemma wrapper_kept: "kept_or_picked h (wrapperClick h')" if "kept_or_picked h h'"
  by (rule kept_or_picked_trans [OF that kept_or_picked_core]) (simp_all add: wrapperClick_def core_of_def)

lemma menu_turns_agree:
  "same_folder f \<Longrightarrow> same_names f \<Longrightarrow> same_folder (fold (menu_turn api token fmt) is f) \<and> same_names (fold (menu_turn api token fmt) is f)"
proof (induction "is" arbitrary: f)
  case (Cons i "is")
  have "menu_turn api token fmt i f = perform api token fmt (MenuOpens i) f"
    by (simp add: menu_turn_def perform_defs Let_def case_prod_unfold)
  with menu_opens_agrees [OF Cons.prems, of api token fmt i] Cons.IH [of "menu_turn api token fmt i f"] show ?case by simp
qed simp

lemma side_click_agrees:
  assumes "same_folder f" "same_names f" "emits_ok (out_cmds (side_handle api token typed ev (fr_slide f)))"
  shows "same_folder (side_click api token fmt typed ev f) \<and> same_names (side_click api token fmt typed ev f)"
proof -
  let ?m = "side_handle api token typed ev (fr_slide f)"
  let ?h = "fst (run_events (slide_listener api token) (out_cmds ?m) (fr_home f))"
  let ?f = "f\<lparr>fr_slide := out_state ?m\<rparr>"
  have "kept_or_picked (fr_home ?f) (if side_stays ev then ?h else wrapperClick ?h)"
    using side_bar.run_keeps [of "out_cmds ?m" "fr_home f" api token] assms(3) wrapper_kept by (simp add: emits_ok_def)
  moreover have "same_folder ?f" "same_names ?f" using assms(1,2) by (simp_all add: same_folder_def same_names_def)
  ultimately show ?thesis
    unfolding side_click_def Let_def by (intro menu_turns_agree conjunct1 [OF flush_agrees] conjunct2 [OF flush_agrees])
qed

lemma quiet_replicate [simp]: "emits_ok (replicate n (Toast t m))"
  by (induction n) simp_all

lemma event_ok_simps [simp]:
  "event_ok ''getshareHome'' args" "event_ok ''getretrievalHome'' args" "event_ok ''getMenuStretch'' args"
  "event_ok ''getminioListBucket'' [JStr name, JBool True, JBool False, JBool False] \<longleftrightarrow> name \<noteq> [] \<and> CHR ''/'' \<notin> set name"
  by (simp_all add: event_ok_def)

text \<open>The names in the events come from the list of buckets.\<close>

fun bucket_of :: "side_event \<Rightarrow> string option" where
  "bucket_of (PickBucket name) = Some name"
| "bucket_of (MenuOf i name) = Some name"
| "bucket_of (BackupOf name) = Some name"
| "bucket_of (RetrieveOf name) = Some name"
| "bucket_of ev = None"

lemma handle_emits:
  assumes "\<And>name. bucket_of ev = Some name \<Longrightarrow> name \<noteq> [] \<and> CHR ''/'' \<notin> set name"
  shows "emits_ok (out_cmds (side_handle api token typed ev s))"
proof (cases ev)
  case (EditPolicy name i)
  then show ?thesis
    by (auto simp: side_handle_def Let_def dialogFun_def getListAllBucketPolicies_def slide_post_def split: option.split)
next
  case AddPolicy
  obtain cs where "addPolicies api token s = (s, cs)" "(\<exists>n t m. cs = replicate n (Toast t m)) \<or> (\<exists>t q. cs = [Request t q])"
    using addPolicies_state by blast
  then show ?thesis by (auto simp: AddPolicy side_handle_def Let_def caozuoFun_def)
qed (use assms in \<open>simp_all add: side_handle_def Let_def caozuoFun_def menuToggleStreth_def getListBucket_def backupFun_def retrievalFun_def
    dialogDeleteFun_def slide_logout_def slide_post_def removePolicies_def\<close>)

lemma offered_bucket:
  assumes "ev \<in> set (reachable (slide_page location s))" "bucket_of ev = Some name"
  shows "\<exists>b \<in> set (shown_list s). name = bk_name b"
proof -
  obtain i where i: "i < length (shown_list s)" "ev \<in> set (reachable (bucket_entry s (i, shown_list s ! i)))"
    using slide_offers [OF assms(1)] assms(2) by (auto simp: policy_events_def)
  then have "name = bk_name (shown_list s ! i)" using assms(2) unfolding entry_offers by (auto split: if_splits)
  with i(1) show ?thesis by auto
qed

section \<open>A click anywhere\<close>

lemma app_offers:
  assumes "ev \<in> set (reachable (app_page sc a))"
  shows "(\<exists>e. ev = InSide e \<and> e \<in> set (reachable (slide_page (as_location sc) (fr_slide (ap_frame a))))) \<or>
    (\<exists>e. ev = InFile e \<and> e \<in> set (reachable (file_page (as_front sc) (as_log sc) (hm_userd (fr_home (ap_frame a)))
       (hm_aboutServer (fr_home (ap_frame a))) (hm_dialogFormVisible (fr_home (ap_frame a))) (as_rows sc) (fr_view (ap_frame a))))) \<or>
    (\<exists>e p. ev = InShare e \<and> sp_unfolded p = ap_unfolded a \<and> e \<in> set (reachable (share_page p (ap_share a)))) \<or>
    (\<exists>e. ev = InRetrieval e) \<or> (\<exists>f. ev = PickFile f) \<or> ev \<in> {SlideButton, PlusButton, NewBucket, ClickFrame}"
proof -
  have head: "set (reachable (frame_head h)) = {SlideButton}" for h by (simp add: frame_head_def)
  have menu: "set (reachable (add_menu files h)) \<subseteq> {NewBucket, PlusButton} \<union> range PickFile" for files h
    by (auto simp: add_menu_def v_if_def)
  have none: "concat (map reachable (upload_progress h)) = []" for h by (simp add: upload_progress_def v_if_def)
  let ?h = "fr_home (ap_frame a)"
  let ?p = "\<lparr>sp_shareObjectShow = hm_shareObjectShow ?h, sp_num = None, sp_unfolded = ap_unfolded a\<rparr>"
  have "ev = ClickFrame \<or> ev \<in> InSide ` set (reachable (slide_page (as_location sc) (fr_slide (ap_frame a)))) \<or>
      ev \<in> set (reachable (frame_head ?h)) \<or>
      ev \<in> InFile ` set (reachable (file_page (as_front sc) (as_log sc) (hm_userd ?h) (hm_aboutServer ?h) (hm_dialogFormVisible ?h)
        (as_rows sc) (fr_view (ap_frame a)))) \<or>
      ev \<in> set (reachable (add_menu (as_files sc) ?h)) \<or>
      ev \<in> InShare ` set (reachable (share_page ?p (ap_share a))) \<or> ev \<in> range InRetrieval"
    using assms by (cases "hm_isRouterAlive ?h") (auto simp: app_page_def Let_def none v_if_def simp del: set_concat)
  moreover have "sp_unfolded ?p = ap_unfolded a" by simp
  ultimately show ?thesis using head [of ?h] subsetD [OF menu [of "as_files sc" ?h]] by blast
qed

lemma file_click_agrees:
  assumes "same_folder f" "same_names f"
    and "e \<in> set (reachable (file_page front math_log userd about form_visible screen (fr_view f)))"
    and "\<And>name. e = OpenFolder name \<Longrightarrow> \<exists>x. name = folder_key (bv_prefixName (fr_view f)) x \<and> x \<noteq> [] \<and> CHR ''/'' \<notin> set x"
  shows "same_folder (frame_click env s (InFile e) f) \<and> same_names (frame_click env s (InFile e) f)"
proof -
  let ?g = "file_in_frame (ae_api env) (ae_token env) (ae_fmt env) (ae_page env) e f"
  have g: "same_folder ?g" "same_names ?g" using rendered_page_keeps_agreement [OF assms] by simp_all
  have "core_of (wrapperClick (fr_home ?g)) = core_of (fr_home ?g)" by (simp add: wrapperClick_def core_of_def)
  from home_quiet_agrees [OF g this] g show ?thesis by (simp add: Let_def)
qed

interpretation share_quiet: listener share_listener "\<lambda>e args. True" "\<lambda>h h'. core_of h' = core_of h"
  by unfold_locales (auto simp: share_listener_def home_getshareDialog_def core_of_def split: if_splits)

lemma home_click_core:
  assumes "\<And>e. ev \<noteq> InSide e" "\<And>e. ev \<noteq> InFile e"
  shows "core_of (home_click env s ev h) = core_of h"
proof (cases ev)
  case (InShare e)
  have "core_of (fst (run_events share_listener cs h)) = core_of h" for cs :: "share_cmd list"
    by (rule share_quiet.run_keeps) simp
  then show ?thesis by (simp add: InShare Let_def wrapperClick_def core_of_eq)
next
  case (InRetrieval e)
  then show ?thesis by (cases e) (simp_all add: wrapperClick_def home_getretrievalDialog_def core_of_eq)
next
  case (PickFile name)
  then show ?thesis by (simp add: onChange_def Let_def wrapperClick_def core_of_eq)
qed (use assms in \<open>simp_all add: wrapperClick_def slideBtn_def addToggle_def createHomeBuck_def core_of_eq\<close>)

lemma frame_click_agrees:
  assumes "same_folder (ap_frame a)" "same_names (ap_frame a)" "ev \<in> set (reachable (app_page sc a))" "names_ok a" "folder_ok ev a"
  shows "same_folder (frame_click env s ev (ap_frame a)) \<and> same_names (frame_click env s ev (ap_frame a))"
proof -
  consider e where "ev = InSide e" | e where "ev = InFile e" | "\<And>e. ev \<noteq> InSide e" "\<And>e. ev \<noteq> InFile e" by blast
  then show ?thesis
  proof cases
    case (1 e)
    then have e: "e \<in> set (reachable (slide_page (as_location sc) (fr_slide (ap_frame a))))" using app_offers [OF assms(3)] by simp
    have "emits_ok (out_cmds (side_handle (ae_api env) (ae_token env) (ae_typed env) e (fr_slide (ap_frame a))))"
      using offered_bucket [OF e] assms(4) by (intro handle_emits) (auto simp: names_ok_def)
    with side_click_agrees [OF assms(1,2)] show ?thesis by (simp add: 1)
  next
    case (2 e)
    have "e \<in> set (reachable (file_page (as_front sc) (as_log sc) (hm_userd (fr_home (ap_frame a)))
         (hm_aboutServer (fr_home (ap_frame a))) (hm_dialogFormVisible (fr_home (ap_frame a))) (as_rows sc) (fr_view (ap_frame a))))"
      using app_offers [OF assms(3)] by (simp add: 2)
    then show ?thesis unfolding 2 by (rule file_click_agrees [OF assms(1,2)]) (use assms(5) 2 in auto)
  next
    case 3
    have "frame_click env s ev (ap_frame a) = frame_flush (ae_fmt env) False False (home_click env s ev (fr_home (ap_frame a))) (ap_frame a)"
    proof (cases ev)
      case (InSide e)
      with 3(1) [of e] show ?thesis by simp
    next
      case (InFile e)
      with 3(2) [of e] show ?thesis by simp
    qed simp_all
    with home_quiet_agrees [OF assms(1,2) home_click_core [OF 3]] show ?thesis by simp
  qed
qed

section \<open>The application in use\<close>

text \<open>The events of theory App_Frame that no control causes: the answers, and the enter key.\<close>

fun unclicked :: "frame_event \<Rightarrow> bool" where
  "unclicked (ListingAnswer r) = True"
| "unclicked (DeletionAnswer x r) = True"
| "unclicked (UploadEvent x e) = True"
| "unclicked (BucketsAnswer name r) = True"
| "unclicked (CreationAnswer name r) = True"
| "unclicked EnterPressed = True"
| "unclicked ev = False"

text \<open>
  Clicks on anything the page offers, the enter key, which asks for a new bucket or submits a path, and answers in any
  order: listings, deletions, uploads, lists of buckets and new buckets (where theory App_Frame lets them happen),
  policies, deals and providers, and the other answers to
  the file page, which leave its folder and the names of its table alone. The answer to a dialog that was
  closed finds a dialog that is no longer on the page. A use lasts as long as the file page is shown: calls of the
  router are not carried out, and a page that is opened again at the root of a bucket begins another use.
\<close>

inductive app_use :: "app \<Rightarrow> bool" where
  app_opens: "hm_currentBucket h \<noteq> [] \<Longrightarrow> CHR ''/'' \<notin> set (hm_currentBucket h) \<Longrightarrow> hm_prefixData h = [] \<Longrightarrow> \<not> hm_shareDialog h \<Longrightarrow>
    app_use \<lparr>ap_frame = open_page fmt h s, ap_share = share_flush h h (share_init (hm_currentBucket h) 1), ap_unfolded = None,
      ap_retrieval = \<lparr>rt_exChangeList = []\<rparr>\<rparr>"
| app_clicks: "app_use a \<Longrightarrow> ev \<in> set (reachable (app_page sc a)) \<Longrightarrow> names_ok a \<Longrightarrow> folder_ok ev a \<Longrightarrow> app_use (app_click env ev a)"
| app_answers: "app_use a \<Longrightarrow> offered ev (ap_frame a) \<Longrightarrow> unclicked ev \<Longrightarrow> g = perform api token fmt ev (ap_frame a) \<Longrightarrow>
    app_use (a\<lparr>ap_frame := g, ap_share := share_flush (fr_home (ap_frame a)) (fr_home g) (ap_share a)\<rparr>)"
| app_policies: "app_use a \<Longrightarrow> s = fst (policies_reply r (fr_slide (ap_frame a))) \<or> s = fst (setPolicy_reply api token r' (fr_slide (ap_frame a))) \<Longrightarrow>
    app_use (a\<lparr>ap_frame := (ap_frame a)\<lparr>fr_slide := s\<rparr>\<rparr>)"
| app_file: "app_use a \<Longrightarrow> folder_of v = folder_of (fr_view (ap_frame a)) \<Longrightarrow> table_names v = table_names (fr_view (ap_frame a)) \<Longrightarrow>
    app_use (a\<lparr>ap_frame := (ap_frame a)\<lparr>fr_view := v\<rparr>\<rparr>)"
| app_share: "app_use a \<Longrightarrow> sd_shareDialog (ap_share a) \<Longrightarrow>
    s = miners_reply r (ap_share a) \<or> s = more_reply q (ap_share a) \<or> s = fst (deal_reply d (ap_share a)) \<or> s = fst (offline_reply x (ap_share a)) \<Longrightarrow>
    app_use (a\<lparr>ap_share := s\<rparr>)"
| app_deals: "app_use a \<Longrightarrow> app_use (a\<lparr>ap_retrieval := fst (bucket_retrieve_reply fmt d (ap_retrieval a))\<rparr>)"
| app_folds: "app_use a \<Longrightarrow> app_use (a\<lparr>ap_unfolded := None\<rparr>)"

lemma app_use_agrees: "app_use a \<Longrightarrow> same_folder (ap_frame a) \<and> same_names (ap_frame a)"
proof (induction rule: app_use.induct)
  case (app_opens h fmt s)
  then have "frame_run [] [] fmt (open_page fmt h s)" by (intro opened_page)
  then show ?case using frame_run_agrees by simp
next
  case (app_clicks a ev sc env)
  then show ?case using frame_click_agrees [of a ev sc env "ap_share a"] by (simp add: app_click_def Let_def)
next
  case (app_answers a ev g api token fmt)
  then show ?case using perform_agrees [of "ap_frame a" ev api token fmt] by simp
next
  case (app_policies a s r api token r')
  then show ?case by (simp add: same_folder_def same_names_def)
next
  case (app_file a v)
  then show ?case using crumbs_ok_cong [OF app_file.hyps(2)] by (simp add: same_folder_def same_names_def folder_of_eq)
qed simp_all


section \<open>The deal form of a bucket\<close>

definition fresh_share :: "home \<Rightarrow> share_dialog" where
  "fresh_share h = (share_init (hm_currentBucket h) 1)\<lparr>sd_shareDialog := hm_shareDialog h, sd_shareFileShow := hm_shareFileShow h\<rparr>"

definition share_follows :: "home \<Rightarrow> share_dialog \<Rightarrow> bool" where
  "share_follows h s \<longleftrightarrow> sd_shareDialog s = hm_shareDialog h \<and> sd_shareFileShow s = hm_shareFileShow h \<and>
     sd_postAdress s = hm_currentBucket h \<and> sd_sendApi s = 1 \<and> (\<not> hm_shareDialog h \<longrightarrow> s = fresh_share h)"

lemma flush_fresh: "share_flush h0 h (fresh_share h1) = fresh_share h"
  by (simp add: share_flush_def fresh_share_def share_init_def)

lemma flush_follows:
  assumes "sd_sendApi s = 1" "\<not> hm_shareDialog h0 \<Longrightarrow> s = fresh_share h0"
  shows "share_follows h (share_flush h0 h s)"
proof (cases "hm_shareDialog h0")
  case True
  then show ?thesis using assms(1) by (simp add: share_follows_def share_flush_def fresh_share_def share_init_def)
next
  case False
  then show ?thesis using assms(2) by (simp add: flush_fresh share_follows_def) (simp add: fresh_share_def share_init_def)
qed

lemma handle_keeps_api: "sd_sendApi (out_state (share_handle e ev s)) = sd_sendApi s"
  by (cases ev) (simp_all add: ends_def handleOpen_def handleOpenSubmenu_def open_location_def loadMore_def Let_def submitofflineForm_def
    set_tips_def choose_miner_def cellClick_def handleCurrentChange_def handleClick_def share_submitForm_def set_online_def set_offline_def
    handleTagsClose_def set_tags_def type_tag_def handleInputConfirmTask_def showInputTask_def split: option.split)

lemma share_closed: "ev \<in> set (reachable (share_page p (fresh_share h))) \<Longrightarrow> hm_shareDialog h"
  by (cases "hm_shareDialog h") (simp_all add: page_parts fresh_share_def share_init_def)

definition same_props :: "share_dialog \<Rightarrow> share_dialog \<Rightarrow> bool" where
  "same_props s t \<longleftrightarrow> sd_shareDialog t = sd_shareDialog s \<and> sd_shareFileShow t = sd_shareFileShow s \<and>
     sd_postAdress t = sd_postAdress s \<and> sd_sendApi t = sd_sendApi s"

lemma answers_keep:
  "same_props s (miners_reply r s)" "same_props s (more_reply q s)" "same_props s (fst (deal_reply d s))" "same_props s (fst (offline_reply x s))"
proof -
  show "same_props s (miners_reply r s)" by (simp add: same_props_def miners_reply_def Let_def split: sum.split prod.split)
  show "same_props s (more_reply q s)" by (simp add: same_props_def more_reply_def split: sum.split)
  show "same_props s (fst (deal_reply d s))" by (cases d) (simp_all add: same_props_def)
  show "same_props s (fst (offline_reply x s))" by (cases x) (simp_all add: same_props_def)
qed

lemma app_use_follows: "app_use a \<Longrightarrow> share_follows (fr_home (ap_frame a)) (ap_share a)"
proof (induction rule: app_use.induct)
  case (app_opens h fmt s)
  then have "share_init (hm_currentBucket h) 1 = fresh_share (h\<lparr>hm_shareFileShow := False\<rparr>)"
    by (simp add: fresh_share_def share_init_def)
  with app_opens show ?case
    by (simp add: open_page_def share_follows_def flush_fresh) (simp add: fresh_share_def share_init_def)
next
  case (app_clicks a ev sc env)
  let ?h = "fr_home (ap_frame a)"
  have "sd_sendApi (case ev of InShare e \<Rightarrow> out_state (share_handle (ae_share env) e (ap_share a)) | _ \<Rightarrow> ap_share a) = 1"
    using app_clicks.IH by (cases ev) (simp_all add: share_follows_def handle_keeps_api)
  moreover have "(case ev of InShare e \<Rightarrow> out_state (share_handle (ae_share env) e (ap_share a)) | _ \<Rightarrow> ap_share a) = fresh_share ?h"
    if closed: "\<not> hm_shareDialog ?h"
  proof -
    have fresh: "ap_share a = fresh_share ?h" using app_clicks.IH closed by (simp add: share_follows_def)
    have "ev \<noteq> InShare e" for e using app_offers [OF app_clicks.hyps(2)] share_closed closed unfolding fresh by auto
    then show ?thesis
    proof (cases ev)
      case (InShare e)
      with \<open>ev \<noteq> InShare e\<close> show ?thesis by simp
    qed (use fresh in simp_all)
  qed
  ultimately show ?case by (simp add: app_click_def Let_def flush_follows)
next
  case (app_answers a ev g api token fmt)
  then have "share_follows (fr_home g) (share_flush (fr_home (ap_frame a)) (fr_home g) (ap_share a))"
    by (intro flush_follows) (simp_all add: share_follows_def)
  then show ?case by simp
next
  case (app_share a s r q d x)
  then have "hm_shareDialog (fr_home (ap_frame a))" by (simp add: share_follows_def)
  moreover from app_share.hyps(3) have "same_props (ap_share a) s"
    using answers_keep [of "ap_share a"] by blast
  ultimately show ?case using app_share.IH by (simp add: share_follows_def same_props_def)
qed simp_all

text \<open>The last part of a click in the side bar closes the menus, and changes nothing of the dialogs.\<close>

lemma menu_turn_home:
  "\<exists>b. fr_home (menu_turn api token fmt i f) = fr_home f \<or> fr_home (menu_turn api token fmt i f) = homeClickFun b (fr_home f)"
  by (auto simp: menu_turn_def menu_tick_def slide_handled_def slide_listener_def split: option.split)

lemma menu_turns_home:
  "hm_shareDialog (fr_home (fold (menu_turn api token fmt) is f)) = hm_shareDialog (fr_home f) \<and>
   hm_shareFileShow (fr_home (fold (menu_turn api token fmt) is f)) = hm_shareFileShow (fr_home f) \<and>
   hm_isRouterAlive (fr_home (fold (menu_turn api token fmt) is f)) = hm_isRouterAlive (fr_home f) \<and>
   hm_currentBucket (fr_home (fold (menu_turn api token fmt) is f)) = hm_currentBucket (fr_home f)"
proof (induction "is" arbitrary: f)
  case (Cons i "is")
  obtain b where "fr_home (menu_turn api token fmt i f) = fr_home f \<or> fr_home (menu_turn api token fmt i f) = homeClickFun b (fr_home f)"
    using menu_turn_home by blast
  with Cons.IH [of "menu_turn api token fmt i f"] show ?case by (auto simp: homeClickFun_def)
qed simp

lemma backup_click_home:
  assumes "name \<noteq> []"
  shows "hm_shareDialog (fr_home (side_click api token fmt typed (BackupOf name) f)) \<and>
    hm_shareFileShow (fr_home (side_click api token fmt typed (BackupOf name) f)) \<and>
    hm_isRouterAlive (fr_home (side_click api token fmt typed (BackupOf name) f)) = hm_isRouterAlive (fr_home f) \<and>
    hm_currentBucket (fr_home (side_click api token fmt typed (BackupOf name) f)) = name"
proof -
  have keeps: "hm_shareDialog (out_state (getminioListBucket api token name d sl p h)) = hm_shareDialog h \<and>
      hm_shareFileShow (out_state (getminioListBucket api token name d sl p h)) = hm_shareFileShow h \<and>
      hm_isRouterAlive (out_state (getminioListBucket api token name d sl p h)) = hm_isRouterAlive h" for d sl p h
    using assms by (simp add: getminioListBucket_def getListObjects_named case_prod_unfold Let_def)
  show ?thesis
    using picked_home [OF assms] keeps
    by (simp add: side_click_def Let_def menu_turns_home)
      (simp add: side_handle_def Let_def backupFun_def getListBucket_def caozuoFun_def slide_listens wrapperClick_def
        case_prod_unfold home_getshareHome_def arg_truthy_def)
qed

text \<open>
  C13: Backup to Filecoin makes a deal for the bucket it was chosen for. In every use of the rendered application,
  a click on Backup in the menu of a bucket opens the share dialog with an empty deal form - also when an earlier
  deal, for another bucket, was filled in and sent - in which Send is offered, and whatever is then filled in
  is sent to the address of that bucket.
\<close>

theorem backup_opens_empty_form:
  assumes "app_use a" "InSide (BackupOf name) \<in> set (reachable (app_page sc a))" "names_ok a" "\<not> hm_shareDialog (fr_home (ap_frame a))"
    and "hm_isRouterAlive (fr_home (ap_frame a))" "a' = app_click env (InSide (BackupOf name)) a"
  shows "sd_online (ap_share a') = online_init \<and> sd_offline (ap_share a') = offline_init \<and>
    InShare SendOnline \<in> set (reachable (app_page sc a')) \<and>
    (online_valid form \<longrightarrow> snd (share_submitForm api token ((ap_share a')\<lparr>sd_online := form\<rparr>))
      = [Request DealReply (axios_post (api @ ''/minio/deals/'' @ name) (deal_body form) token)])"
proof -
  have "BackupOf name \<in> set (reachable (slide_page (as_location sc) (fr_slide (ap_frame a))))" using app_offers [OF assms(2)] by simp
  from offered_bucket [OF this, of name] assms(3) have "name \<noteq> []" by (auto simp: names_ok_def)
  note click = backup_click_home [OF this, of "ae_api env" "ae_token env" "ae_fmt env" "ae_typed env" "ap_frame a"]
  let ?h = "fr_home (ap_frame a')"
  have "ap_share a = fresh_share (fr_home (ap_frame a))"
    using app_use_follows [OF assms(1)] assms(4) by (simp add: share_follows_def)
  then have s: "ap_share a' = fresh_share ?h" by (simp add: assms(6) app_click_def Let_def flush_fresh)
  have h: "hm_shareDialog ?h" "hm_shareFileShow ?h" "hm_currentBucket ?h = name" "hm_isRouterAlive ?h"
    using click assms(5) by (simp_all add: assms(6) app_click_def Let_def)
  have "SendOnline \<in> set (reachable (share_page p (fresh_share ?h)))" for p
    using h by (simp add: page_parts online_parts fresh_share_def share_init_def)
  then have "InShare SendOnline \<in> set (reachable (app_page sc a'))"
    using h(4) by (simp add: app_page_def Let_def v_if_def s)
  with h show ?thesis unfolding s by (simp add: fresh_share_def share_init_def share_submitForm_def)
qed

text \<open>
  Retrieval in the menu of a bucket: the dialog opens and asks for the deals before the click reaches the entry
  around the menu, hence for those of the bucket that was the current one. In careful use of the side bar
  this is the bucket of the menu; a menu left open in a hidden bucket asks for those of another.
\<close>

lemma retrieval_click:
  assumes "name \<noteq> []" "\<not> hm_retrievalDialog (fr_home f)" "g = side_click api token fmt typed (RetrieveOf name) f"
  shows "retrieval_flush api token (fr_home f) (fr_home g) r =
      (r\<lparr>rt_exChangeList := []\<rparr>,
       [Request BucketRetrieveReply (axios_get (api @ ''/minio/bucket/retrieve/'' @ hm_currentBucket (fr_home f)) (Some token))]) \<and>
    hm_currentBucket (fr_home g) = name"
proof -
  have keeps: "hm_retrievalDialog (out_state (getminioListBucket api token name d sl p h)) = hm_retrievalDialog h" for d sl p h
    using assms(1) by (simp add: getminioListBucket_def getListObjects_named case_prod_unfold Let_def)
  have "hm_retrievalDialog (fr_home (fold (menu_turn api token fmt) is f)) = hm_retrievalDialog (fr_home f)" for "is" f
  proof (induction "is" arbitrary: f)
    case (Cons i "is")
    obtain b where "fr_home (menu_turn api token fmt i f) = fr_home f \<or> fr_home (menu_turn api token fmt i f) = homeClickFun b (fr_home f)"
      using menu_turn_home by blast
    with Cons.IH [of "menu_turn api token fmt i f"] show ?case by (auto simp: homeClickFun_def)
  qed simp
  then have "hm_retrievalDialog (fr_home g)" "hm_currentBucket (fr_home g) = name"
    using picked_home [OF assms(1)] keeps
    by (simp_all add: assms(3) side_click_def Let_def menu_turns_home)
      (simp_all add: side_handle_def Let_def retrievalFun_def getListBucket_def caozuoFun_def slide_listens wrapperClick_def
        case_prod_unfold home_getretrievalDialog_def arg_truthy_def)
  with assms(2) show ?thesis by (simp add: retrieval_flush_def watch_retrievalDialog_def retrieval_getData_def)
qed

lemma careful_retrieval:
  assumes "side_run True f" "RetrieveOf name \<in> set (reachable (slide_page location (fr_slide f)))"
  shows "hm_currentBucket (fr_home f) = name"
proof -
  obtain i where i: "i < length (shown_list (fr_slide f))" "RetrieveOf name \<in> set (reachable (bucket_entry (fr_slide f) (i, shown_list (fr_slide f) ! i)))"
    using slide_offers [OF assms(2)] by (auto simp: policy_events_def)
  then have "bk_show (shown_list (fr_slide f) ! i)" "sl_homeClick (fr_slide f)" "name = bk_name (shown_list (fr_slide f) ! i)"
    unfolding entry_offers by (auto split: if_splits)
  with nth_mem [OF i(1)] side_run_ok [OF assms(1)] show ?thesis by (auto simp: side_ok_def)
qed

text \<open>The page with two buckets; the menu of the second is opened, and Backup is clicked there.\<close>

definition two_app :: app where
  "two_app = \<lparr>ap_frame = open_page id two_home (receive_buckets (Some (two_marks False False)) slide_init),
     ap_share = fresh_share two_home, ap_unfolded = None, ap_retrieval = \<lparr>rt_exChangeList = []\<rparr>\<rparr>"

definition two_env :: app_env where
  "two_env = \<lparr>ae_api = [], ae_token = [], ae_fmt = id, ae_path = [], ae_typed = [], ae_page = sample_env, ae_share = no_env []\<rparr>"

definition two_screen :: app_screen where
  "two_screen = \<lparr>as_location = [], as_front = 0, as_log = id, as_rows = [], as_files = []\<rparr>"

definition menu_app :: app where
  "menu_app = app_click two_env (InSide (MenuOf 1 ''b'')) two_app"

lemma two_app_facts:
  "app_use two_app" "fr_slide (ap_frame two_app) = two_start" "synced (ap_frame two_app)" "fr_home (ap_frame two_app) = two_home"
proof -
  have "share_flush two_home two_home (share_init (hm_currentBucket two_home) 1) = fresh_share two_home"
    using flush_fresh [of two_home two_home "two_home\<lparr>hm_shareFileShow := False\<rparr>"]
    by (simp add: fresh_share_def two_home_def home_init_def share_init_def share_flush_def)
  then show "app_use two_app" unfolding two_app_def
    using app_opens [of two_home id "receive_buckets (Some (two_marks False False)) slide_init"] by (simp add: two_home_def home_init_def)
  show "fr_slide (ap_frame two_app) = two_start" "synced (ap_frame two_app)" "fr_home (ap_frame two_app) = two_home"
    by (simp_all add: two_app_def open_page_def two_start_def two_slide_def two_marks_def two_home_def home_init_def synced_def
        receive_buckets_def getMinioData_def copy_prop_def hide_def slide_init_def)
qed

lemma side_in_app: "e \<in> set (reachable (slide_page (as_location sc) (fr_slide (ap_frame a)))) \<Longrightarrow> InSide e \<in> set (reachable (app_page sc a))"
  by (simp add: app_page_def Let_def)

lemma menu_app_facts:
  "app_use menu_app" "fr_slide (ap_frame menu_app) = two_slide (two_marks False False) (Copied (two_marks False True)) [] ''b'' True"
  "hm_currentBucket (fr_home (ap_frame menu_app)) = ''b''" "\<not> hm_shareDialog (fr_home (ap_frame menu_app))"
  "hm_isRouterAlive (fr_home (ap_frame menu_app))"
proof -
  have "MenuOf (Suc 0) ''b'' \<in> set (reachable (slide_page [] two_start))"
    using side_offered(2) [of two_start "Suc 0" "[]"] by (simp add: two_start_def)
  then have "InSide (MenuOf 1 ''b'') \<in> set (reachable (app_page two_screen two_app))"
    by (intro side_in_app) (simp add: two_app_facts two_screen_def)
  moreover have "names_ok two_app"
    by (simp add: names_ok_def two_app_facts two_start_def) (simp add: two_marks_def)
  ultimately show use: "app_use menu_app"
    unfolding menu_app_def by (intro app_clicks [OF two_app_facts(1)]) simp_all
  have "fr_slide (ap_frame menu_app) = side_step [] (MenuOf (Suc 0) ''b'') two_start \<and> synced (ap_frame menu_app)"
    using side_click_slide [OF two_app_facts(3), of "[]" "MenuOf (Suc 0) ''b''" id]
    by (simp add: menu_app_def app_click_def Let_def two_env_def two_app_facts)
  then have slide: "fr_slide (ap_frame menu_app) = two_slide (two_marks False False) (Copied (two_marks False True)) [] ''b'' True"
    and sync: "synced (ap_frame menu_app)"
    by (simp_all add: two_start_def step7)
  from sync have "hm_currentBucket (fr_home (ap_frame menu_app)) = sl_currentBucket (fr_slide (ap_frame menu_app))"
    by (simp add: synced_def)
  then show "hm_currentBucket (fr_home (ap_frame menu_app)) = ''b''" by (simp add: slide two_slide_def)
  show "fr_slide (ap_frame menu_app) = two_slide (two_marks False False) (Copied (two_marks False True)) [] ''b'' True" by (fact slide)
  show "\<not> hm_shareDialog (fr_home (ap_frame menu_app))" "hm_isRouterAlive (fr_home (ap_frame menu_app))"
    by (simp_all add: menu_app_def app_click_def Let_def two_env_def side_click_def menu_turns_home)
      (simp_all add: side_handle_def Let_def caozuoFun_def getListBucket_def slide_listens getminioListBucket_def getListObjects_named
        case_prod_unfold two_app_facts two_home_def home_init_def)
qed


theorem backup_opens_empty_form_witness:
  "InShare SendOnline \<in> set (reachable (app_page two_screen (app_click two_env (InSide (BackupOf ''b'')) menu_app))) \<and>
   snd (share_submitForm ''/api'' ''t'' ((ap_share (app_click two_env (InSide (BackupOf ''b'')) menu_app))
       \<lparr>sd_online := online_init\<lparr>of_minerId := ''f01'', of_price := ''0.5'', of_duration := ''180''\<rparr>\<rparr>))
     = [Request DealReply (axios_post ''/api/minio/deals/b''
         (deal_body (online_init\<lparr>of_minerId := ''f01'', of_price := ''0.5'', of_duration := ''180''\<rparr>)) ''t'')]"
proof -
  let ?s = "fr_slide (ap_frame menu_app)"
  have "BackupOf ''b'' \<in> set (reachable (bucket_entry ?s (Suc 0, shown_list ?s ! Suc 0)))"
    unfolding entry_offers by (simp add: menu_app_facts(2))
  moreover have "set (reachable (bucket_entry ?s (Suc 0, shown_list ?s ! Suc 0))) \<subseteq> set (reachable (slide_page [] ?s))"
    by (rule entry_in_page) (simp_all add: menu_app_facts(2))
  ultimately have "InSide (BackupOf ''b'') \<in> set (reachable (app_page two_screen menu_app))"
    by (intro side_in_app) (auto simp: two_screen_def)
  moreover have "names_ok menu_app"
    by (simp add: names_ok_def menu_app_facts(2)) (simp add: two_marks_def)
  ultimately show ?thesis
    using backup_opens_empty_form [OF menu_app_facts(1), of "''b''" two_screen _ two_env
        "online_init\<lparr>of_minerId := ''f01'', of_price := ''0.5'', of_duration := ''180''\<rparr>" "''/api''" "''t''"]
      menu_app_facts(4,5) by (simp add: online_valid_def required_def)
qed

end
