(* ===== verification/Entry_Views.thy ===== *)
theory Entry_Views
  imports Page_Elements Change_Password Dashboard
begin

text \<open>
  What the login page, the change-password dialog and the introduction page render (templates of
  \<open>components/login.vue\<close>, \<open>changePassword.vue\<close>, \<open>fs3Backup.vue\<close>), and the first two in use.
\<close>

section \<open>The login page\<close>

datatype login_event = TypeAccess | TypeSecret | SubmitLogin | FollowLogo

definition login_page :: "login_view \<Rightarrow> login_event elem" where
  "login_page v =
     v_loading (loginLoad v)
       (box [Node ''el-form'' [] []
               [Node ''el-form-item'' [(''title'', ''Access Key'')] []
                  [Node ''el-input'' [(''type'', ''text''), (''value'', Accesskey v)] [(''input'', TypeAccess)] []],
                Node ''el-form-item'' [(''title'', ''Secret Key'')] []
                  [Node ''el-input'' [(''type'', ''password''), (''value'', Secretkey v)] [(''input'', TypeSecret)] []],
                Node ''el-form-item'' [] [] [Node ''el-button'' [] [(''click'', SubmitLogin)] []]],
             box [Text (login_location v), Node ''router-link'' [(''to'', ''/fs3/login'')] [(''click'', FollowLogo)] []]])"

fun login_handle :: "string \<Rightarrow> string \<Rightarrow> login_event \<Rightarrow> login_state \<Rightarrow> login_state \<times> login_tag cmd list" where
  "login_handle api typed TypeAccess s = (s\<lparr>lg_view := (lg_view s)\<lparr>Accesskey := typed\<rparr>\<rparr>, [])"
| "login_handle api typed TypeSecret s = (s\<lparr>lg_view := (lg_view s)\<lparr>Secretkey := typed\<rparr>\<rparr>, [])"
| "login_handle api typed SubmitLogin s = login_submitForm api s"
| "login_handle api typed FollowLogo s = (s, [RouterPush (ByPath ''/fs3/login'')])"

text \<open>
  The page in use, with the login requests that are not answered yet: its controls, and the answers. The overlay of a
  request under way keeps the pointer away, but the keyboard still operates the form. Careful use types only
  while no request is under way; sending the form again is allowed.
\<close>

inductive login_use :: "bool \<Rightarrow> string \<Rightarrow> login_state \<Rightarrow> http_request list \<Rightarrow> bool" for careful :: bool and api :: string where
  login_opens: "login_use careful api \<lparr>lg_view = login_view_init host, lg_page = p\<rparr> []"
| login_operates: "login_use careful api s fl \<Longrightarrow> ev \<in> set (operable (login_page (lg_view s))) \<Longrightarrow>
    (careful \<and> ev \<in> {TypeAccess, TypeSecret} \<longrightarrow> fl = []) \<Longrightarrow>
    login_use careful api (fst (login_handle api typed ev s)) (fl @ map snd (requests (snd (login_handle api typed ev s))))"
| login_answers: "login_use careful api s fl \<Longrightarrow> q \<in> set fl \<Longrightarrow>
    login_use careful api (out_state (login_reply version_ok a s)) (remove1 q fl)"

lemma login_offers:
  "reachable (login_page v) = (if loginLoad v then [] else [TypeAccess, TypeSecret, SubmitLogin, FollowLogo])"
  by (simp add: login_page_def)

lemma login_operable: "operable (login_page v) = [TypeAccess, TypeSecret, SubmitLogin, FollowLogo]"
  by (simp add: login_page_def box_def)

lemma reply_view:
  "Accesskey (lg_view (out_state (login_reply version_ok a s))) = Accesskey (lg_view s)"
  "Secretkey (lg_view (out_state (login_reply version_ok a s))) = Secretkey (lg_view s)"
  "\<not> loginLoad (lg_view (out_state (login_reply version_ok a s)))"
proof -
  have "Accesskey (lg_view (out_state (login_reply version_ok a s))) = Accesskey (lg_view s) \<and>
      Secretkey (lg_view (out_state (login_reply version_ok a s))) = Secretkey (lg_view s) \<and>
      \<not> loginLoad (lg_view (out_state (login_reply version_ok a s)))"
  proof (cases a)
    case (Inr ans)
    then show ?thesis
      by (cases "ans_error ans"; cases "ans_result ans")
        (simp_all add: login_reply_def login_answered_def login_failed_def currentUiVersion_def)
  qed (simp add: login_reply_def login_failed_def)
  then show "Accesskey (lg_view (out_state (login_reply version_ok a s))) = Accesskey (lg_view s)"
    "Secretkey (lg_view (out_state (login_reply version_ok a s))) = Secretkey (lg_view s)"
    "\<not> loginLoad (lg_view (out_state (login_reply version_ok a s)))" by simp_all
qed

text \<open>An accepted answer stores the keys that are in the form when it arrives, and the token.\<close>

lemma accepted_stores:
  assumes "accepted_login a = Some r"
  shows "lg_page (out_state (login_reply version_ok a s)) = store_login (lg_view s) (res_token r) (lg_page s)"
  using assms by (cases a) (auto simp: accepted_login_def login_reply_def login_answered_def currentUiVersion_def split: if_splits)

lemma stored_account:
  "map_option parse_object (getItem (local (store_login v token p)) ''MinioAccountNumber'')
     = Some (Some [(''Accesskey'', Accesskey v), (''Secretkey'', Secretkey v)])"
  by (simp add: store_login_def setItem_def getItem_def account_text_parses)

lemma login_use_flight:
  "login_use True api s fl \<Longrightarrow> q \<in> set fl \<Longrightarrow> q = login_request api (lg_view s) \<and> login_form_valid (lg_view s)"
proof (induction arbitrary: q rule: login_use.induct)
  case (login_operates s fl ev typed)
  then show ?case
    by (cases ev) (auto simp: login_submitForm_def login_request_def login_form_valid_def split: if_splits)
next
  case (login_answers s fl q' version_ok a)
  then have "q \<in> set fl" using notin_set_remove1 by metis
  from login_answers.IH [OF this] show ?case by (simp add: reply_view login_request_def login_form_valid_def)
qed simp

text \<open>
  C9: what is stored is what logged in. In every use of the rendered login page in which nothing is typed while a
  request is under way - the form may be sent again from the keyboard, under the overlay, and the answers come in any
  order - an accepted answer stores the token, and the very keys its request carried, which the form had found acceptable.
\<close>

theorem login_stores_what_was_sent:
  assumes "login_use True api s fl" "q \<in> set fl" "accepted_login a = Some r" "t = out_state (login_reply version_ok a s)"
  shows "\<exists>access secret. req_body q = rpc_body ''web.Login'' [(''username'', JStr access), (''password'', JStr secret)] \<and>
    access \<noteq> [] \<and> 8 \<le> length secret \<and>
    map_option parse_object (getItem (local (lg_page t)) ''MinioAccountNumber'')
      = Some (Some [(''Accesskey'', access), (''Secretkey'', secret)]) \<and>
    getItem (session (lg_page t)) ''fs3MinioLoginAccessToken'' = Some (res_token r)"
proof -
  from login_use_flight [OF assms(1,2)] have q: "q = login_request api (lg_view s)" and valid: "login_form_valid (lg_view s)"
    by simp_all
  have page: "lg_page t = store_login (lg_view s) (res_token r) (lg_page s)" unfolding assms(4) by (rule accepted_stores [OF assms(3)])
  have "Accesskey (lg_view s) \<noteq> [] \<and> 8 \<le> length (Secretkey (lg_view s))"
    using valid by (auto simp: login_form_valid_def validateAccesskey_def validateSecretkey_def split: if_splits)
  moreover have "getItem (session (lg_page t)) ''fs3MinioLoginAccessToken'' = Some (res_token r)"
    by (simp add: page store_login_def setItem_def getItem_def)
  ultimately show ?thesis unfolding page stored_account by (auto simp: q login_request_def)
qed

text \<open>A form filled in and sent.\<close>

definition login_start :: login_state where
  "login_start = \<lparr>lg_view = login_view_init ''h'', lg_page = store_init Map.empty Map.empty\<rparr>"

definition login_sent :: login_state where
  "login_sent = fst (login_handle [] [] SubmitLogin (fst (login_handle [] ''password'' TypeSecret (fst (login_handle [] ''admin'' TypeAccess login_start)))))"

definition sent_request :: http_request where
  "sent_request = login_request [] (lg_view login_sent)"

lemma login_sent_view:
  "lg_view login_sent = \<lparr>Accesskey = ''admin'', Secretkey = ''password'', login_location = ''h'', loginLoad = True\<rparr>"
  by (simp add: login_sent_def login_start_def login_view_init_def login_submitForm_def login_form_valid_def
      validateAccesskey_def validateSecretkey_def)

lemma login_sent_use: "login_use careful [] login_sent [sent_request]"
proof -
  let ?s1 = "fst (login_handle [] ''admin'' TypeAccess login_start)"
  let ?s2 = "fst (login_handle [] ''password'' TypeSecret ?s1)"
  have "login_use careful [] login_start []" unfolding login_start_def by (rule login_opens)
  from login_operates [OF this, of TypeAccess "''admin''"] have "login_use careful [] ?s1 []" by (simp add: login_operable)
  from login_operates [OF this, of TypeSecret "''password''"] have "login_use careful [] ?s2 []" by (simp add: login_operable)
  from login_operates [OF this, of SubmitLogin "[]"] have "login_use careful [] login_sent (map snd (requests (snd (login_handle [] [] SubmitLogin ?s2))))"
    by (simp add: login_operable login_sent_def del: login_handle.simps)
  moreover have "map snd (requests (snd (login_handle [] [] SubmitLogin ?s2))) = [sent_request]"
    by (simp add: sent_request_def login_sent_view) (simp add: login_start_def login_view_init_def login_submitForm_def login_form_valid_def
        validateAccesskey_def validateSecretkey_def login_request_def)
  ultimately show ?thesis by simp
qed

definition sample_accepted :: "int option + login_answer" where
  "sample_accepted = Inr \<lparr>ans_error = None, ans_result = Some \<lparr>res_token = ''t'', res_uiVersion = ''1''\<rparr>\<rparr>"

lemma sample_accepted: "accepted_login sample_accepted = Some \<lparr>res_token = ''t'', res_uiVersion = ''1''\<rparr>"
  by (simp add: accepted_login_def sample_accepted_def)

theorem login_stores_what_was_sent_witness:
  "\<exists>access secret. req_body sent_request = rpc_body ''web.Login'' [(''username'', JStr access), (''password'', JStr secret)] \<and>
    map_option parse_object (getItem (local (lg_page (out_state (login_reply (\<lambda>_. True) sample_accepted login_sent)))) ''MinioAccountNumber'')
      = Some (Some [(''Accesskey'', access), (''Secretkey'', secret)])"
  using login_stores_what_was_sent [OF login_sent_use, of sent_request, OF _ sample_accepted refl, of "\<lambda>_. True"] by auto

text \<open>
  C25: The overlay does not protect the form. While a login is under way, covered, the keyboard can still change
  the access key in it; the answer, which accepts the keys that were sent, then stores the token together with the key
  that was typed later: the account the application keeps is not the one that is logged in.
\<close>

theorem retyped_key_is_stored:
  "\<exists>s q. login_use False [] s [q] \<and> reachable (login_page (lg_view s)) = [] \<and>
    req_body q = rpc_body ''web.Login'' [(''username'', JStr ''admin''), (''password'', JStr ''password'')] \<and>
    accepted_login sample_accepted \<noteq> None \<and>
    (let t = out_state (login_reply (\<lambda>_. True) sample_accepted s)
     in getItem (session (lg_page t)) ''fs3MinioLoginAccessToken'' = Some ''t'' \<and>
        map_option parse_object (getItem (local (lg_page t)) ''MinioAccountNumber'')
          = Some (Some [(''Accesskey'', ''guest''), (''Secretkey'', ''password'')]))"
proof -
  let ?s = "fst (login_handle [] ''guest'' TypeAccess login_sent)"
  have "login_use False [] ?s [sent_request]"
    using login_operates [OF login_sent_use [of False], of TypeAccess "''guest''"] by (simp add: login_operable)
  moreover have v: "lg_view ?s = \<lparr>Accesskey = ''guest'', Secretkey = ''password'', login_location = ''h'', loginLoad = True\<rparr>"
    by (simp add: login_sent_view)
  moreover have "lg_page (out_state (login_reply (\<lambda>_. True) sample_accepted ?s)) = store_login (lg_view ?s) ''t'' (lg_page ?s)"
    using accepted_stores [OF sample_accepted, of "\<lambda>_. True" ?s] by simp
  ultimately show ?thesis
    using stored_account [of "lg_view ?s" "''t''" "lg_page ?s"]
    by (intro exI [of _ ?s] exI [of _ sent_request])
      (simp add: sample_accepted login_offers sent_request_def login_sent_view login_request_def,
       simp add: store_login_def setItem_def getItem_def)
qed

section \<open>The change-password dialog\<close>

datatype password_event = ClosePass | TypeOld | TypeNew | Generate | Update | CancelPass

fun member_text :: "json \<Rightarrow> string" where
  "member_text (JStr t) = t"
| "member_text j = []"

definition password_dialog :: "bool \<Rightarrow> password_form \<Rightarrow> password_event elem" where
  "password_dialog visible f =
     under_dialogs (box [])
       (el_dialog visible [] ClosePass
          [Text ''Change Password'',
           Node ''el-form-item'' [(''title'', ''Current Access Key'')] []
             [Node ''el-input'' [(''value'', member_text (cp_Accesskey f)), (''disabled'', ''true'')] [] []],
           Node ''el-form-item'' [(''title'', ''Current Secret Key'')] []
             [Node ''el-input'' [(''value'', member_text (cp_Secretkey f)), (''show-password'', ''true'')] [(''input'', TypeOld)] []],
           Node ''el-form-item'' [(''title'', ''New Secret Key'')] []
             [Node ''el-input'' [(''value'', cp_NewSecretkey f), (''show-password'', ''true'')] [(''input'', TypeNew)] []],
           button ''Generate'' Generate, button_if (\<not> updateBack f) ''Update'' Update, button ''Cancel'' CancelPass])"

fun password_handle :: "string \<Rightarrow> string \<Rightarrow> 8 word list \<Rightarrow> password_event \<Rightarrow> password_state \<Rightarrow> password_state \<times> password_tag cmd list" where
  "password_handle api typed bytes ClosePass s = password_getClose s"
| "password_handle api typed bytes CancelPass s = password_getClose s"
| "password_handle api typed bytes TypeOld s = (s\<lparr>cp_form := (cp_form s)\<lparr>cp_Secretkey := JStr typed\<rparr>\<rparr>, [])"
| "password_handle api typed bytes TypeNew s = (s\<lparr>cp_form := type_NewSecretkey typed (cp_form s)\<rparr>, [])"
| "password_handle api typed bytes Generate s = (s\<lparr>cp_form := generate bytes (cp_form s)\<rparr>, [])"
| "password_handle api typed bytes Update s = password_submitForm api s"

text \<open>The dialog in use: its controls, being opened and closed, and the answers to its requests.\<close>

inductive password_use :: "page \<Rightarrow> password_state \<Rightarrow> bool" for p :: page where
  password_made: "password_use p \<lparr>cp_form = password_form_init, cp_page = p\<rparr>"
| password_opens: "password_use p s \<Longrightarrow> password_use p (out_state (watch_changePass b s))"
| password_clicks: "password_use p s \<Longrightarrow> ev \<in> set (reachable (password_dialog True (cp_form s))) \<Longrightarrow> length bytes = 40 \<Longrightarrow>
    password_use p (fst (password_handle api typed bytes ev s))"
| password_answers: "password_use p s \<Longrightarrow> password_use p (fst (setAuth_reply r s))"

text \<open>
  Update is offered when there is a new secret. The page, and with it the account the dialog was filled
  from, is what it was: a changed secret is not stored.
\<close>

lemma password_use_state:
  "password_use p s \<Longrightarrow> cp_page s = p \<and> updateBack (cp_form s) = (cp_NewSecretkey (cp_form s) = [])"
proof (induction rule: password_use.induct)
  case (password_opens s b)
  then show ?case by (auto simp: watch_changePass_def split: option.split)
next
  case (password_clicks s ev bytes api typed)
  then show ?case
    by (cases ev) (auto simp: password_getClose_def type_NewSecretkey_def generate_def watch_NewSecretkey_def password_submitForm_def)
next
  case (password_answers s r)
  then show ?case by (cases r) auto
qed (simp add: password_form_init_def)

lemma update_sends_new_secret:
  assumes "password_use p s" "Update \<in> set (reachable (password_dialog True (cp_form s)))"
  shows "cp_NewSecretkey (cp_form s) \<noteq> [] \<and>
    requests (snd (password_handle api typed bytes Update s)) = [(SetAuthReply, axios_post (api @ ''/minio/webrpc'')
      (rpc_body ''web.SetAuth''
         [(''currentAccessKey'', cp_Accesskey (cp_form s)), (''currentSecretKey'', cp_Secretkey (cp_form s)),
          (''newAccessKey'', cp_Accesskey (cp_form s)), (''newSecretKey'', JStr (cp_NewSecretkey (cp_form s)))])
      (user_accessToken (user p)))]"
  using password_use_state [OF assms(1)] assms(2)
  by (auto simp: password_dialog_def reachable_under el_dialog_def v_if_def password_submitForm_def setAuth_request_def split: if_splits)

section \<open>The introduction page\<close>

definition intro_page :: "unit elem" where
  "intro_page =
     box [box [Text ''FS3 Backup'', Text ''FS3 Backup'',
            Text ''A simpler and faster storage calculation service for Filecoin network.'',
            Text ''FS3 Backup automatically retains backups for resources according to users backup plan.''],
          box (Text ''How to use FS3'' #
            map (\<lambda>(index, title, desc). box [Text (int_str (int index + 1)), Text title, Text desc]) (enumerate 0 conList))]"

lemma intro_steps:
  "texts intro_page = [''FS3 Backup'', ''FS3 Backup'', ''A simpler and faster storage calculation service for Filecoin network.'',
     ''FS3 Backup automatically retains backups for resources according to users backup plan.'', ''How to use FS3''] @
     concat (map (\<lambda>(i, title, desc). [int_str (int i + 1), title, desc]) (enumerate 0 conList)) \<and> reachable intro_page = []"
  by (simp add: intro_page_def box_def conList_def)

end
