(* ===== verification/Account_Views.thy ===== *)
theory Account_Views
  imports Page_Elements Job_Tables Dashboard
begin

text \<open>
  What the account pages render, from their templates (\<open>views/myAccount\<close>): the tables of jobs with their
  columns and dialogs, the plans with their dialogs, the form of a plan, the dashboard. The lemmas
  describe which events a page offers in which state; the runs of the details page are made of those
  events and of the server's answers.
\<close>

section \<open>Jobs: columns and dialogs\<close>

datatype job_event =
    OpenDis
  | OpenDetail backup_job
  | TurnBackup int
  | TurnRebuild int
  | CancelRebuild
  | ConfirmRebuild
  | CloseConfirm
  | CloseDis
  | CopyText string
  | FollowCrumb
  | SelectTab string

definition status_cell :: "string \<Rightarrow> job_event elem list" where
  "status_cell status = [Node ''div'' [(''style'', job_status_style status)] [] [Text status]]"

definition copy_cell :: "string \<Rightarrow> job_event elem list" where
  "copy_cell txt = [Node ''el-popover'' [] [] [Text txt, button txt (CopyText txt)]]"

definition rebuild_cell :: "shown_backup \<Rightarrow> job_event elem list" where
  "rebuild_cell r =
     [if bj_Status (sb_job r) \<noteq> ''Completed'' then button ''Rebuild Image'' OpenDis
      else button ''Rebuild Image'' (OpenDetail (sb_job r))]"

definition backup_columns :: "(shown_backup, job_event) column list" where
  "backup_columns =
     [(''Backup ID'', \<lambda>r. [Text (int_str (bj_ID (sb_job r)))]),
      (''Backup Plan Name'', \<lambda>r. [Text (bj_Name (sb_job r))]),
      (''Date Created'', \<lambda>r. [Text (bj_CreatedOn (sb_job r))]),
      (''W3SSID'', \<lambda>r. [Text (bj_MinerId (sb_job r))]),
      (''Price'', \<lambda>r. [Text (NumFormatPrice (bj_Cost (sb_job r)) @ '' FIL'')]),
      (''Deal CID'', \<lambda>r. copy_cell (bj_DealCid (sb_job r))),
      (''Data CID'', \<lambda>r. copy_cell (bj_PayloadCid (sb_job r))),
      (''Duration (Due date)'', \<lambda>r. [Text (duration_days (bj_Duration (sb_job r)) @ '' days''), Text (''('' @ sb_duration_time r @ '')'')]),
      (''Last Updated'', \<lambda>r. [Text (bj_UpdatedOn (sb_job r))]),
      (''Status'', \<lambda>r. status_cell (bj_Status (sb_job r))),
      ([], rebuild_cell)]"

definition rebuild_columns :: "(shown_rebuild, job_event) column list" where
  "rebuild_columns =
     [(''Rebuild ID'', \<lambda>r. [Text (int_str (rj_ID (sr_job r)))]),
      (''Backup Plan Name'', \<lambda>r. [Text (rj_BackupPlanName (sr_job r))]),
      (''Status'', \<lambda>r. status_cell (rj_Status (sr_job r))),
      (''W3SSID'', \<lambda>r. [Text (rj_MinerId (sr_job r))]),
      (''Deal CID'', \<lambda>r. copy_cell (rj_DealCid (sr_job r))),
      (''Data CID'', \<lambda>r. [Text (rj_PayloadCid (sr_job r))]),
      (''Backup ID'', \<lambda>r. [Text (int_str (rj_BackupJobId (sr_job r)))]),
      (''Date Created'', \<lambda>r. [Text (rj_CreatedOn (sr_job r))]),
      (''Date Updated'', \<lambda>r. [Text (rj_UpdatedOn (sr_job r))])]"

text \<open>The members of \<open>backupPlan\<close> as texts; a missing member is empty.\<close>

definition target_text :: "(rebuild_job \<Rightarrow> string) \<Rightarrow> job_target \<Rightarrow> string" where
  "target_text g t = (case jt_answer t of None \<Rightarrow> [] | Some j \<Rightarrow> g j)"

definition confirm_dialog :: "'a job_tables_scheme \<Rightarrow> job_event elem list" where
  "confirm_dialog s =
     el_dialog (jb_dialogVisible s) ''Rebuild Image'' CancelRebuild
       [Text (''Are you sure you want to rebuild volume from '' @ (case jt_Name (jb_backupPlan s) of None \<Rightarrow> [] | Some n \<Rightarrow> n) @ '' ?''),
        Text ''This action will overwrite your existing file system,'', Text ''Proceed?'',
        button ''Cancel'' CancelRebuild, button ''OK'' ConfirmRebuild]"

definition created_dialog :: "'a job_tables_scheme \<Rightarrow> job_event elem list" where
  "created_dialog s =
     (let t = jb_backupPlan s
      in el_dialog (jb_dialogConfirm s) ''Rebuild Image'' CloseConfirm
           [Text ''Your rebuild image job has created successfully'',
            box [Text ''Rebuild ID: '', Text (case jt_ID t of None \<Rightarrow> [] | Some i \<Rightarrow> int_str i)],
            box [Text ''Date Created:'', Text (target_text rj_CreatedOn t)],
            box [Text ''W3SSID:'', Text (target_text rj_MinerId t)],
            box [Text ''Backup ID:'', Text (target_text (\<lambda>j. int_str (rj_BackupJobId j)) t)],
            box [Text ''Data CID:'', Text (target_text rj_PayloadCid t)],
            box [Text ''Deal CID:'', Text (target_text rj_DealCid t)],
            box (Text ''Stauts:'' # status_cell (target_text rj_Status t)),
            button ''OK'' CloseConfirm])"

definition unavailable_dialog :: "'a job_tables_scheme \<Rightarrow> job_event elem list" where
  "unavailable_dialog s =
     el_dialog (jb_dialogDis s) ''Rebuild Image'' CloseDis
       [Text ''Rebuild image is accessible only when status is completed'', button ''OK'' CloseDis]"

definition job_dialogs :: "'a job_tables_scheme \<Rightarrow> job_event elem list" where
  "job_dialogs s = confirm_dialog s @ created_dialog s @ unavailable_dialog s"

definition backup_table :: "bool \<Rightarrow> 'a job_tables_scheme \<Rightarrow> job_event elem" where
  "backup_table loading s =
     v_loading loading (el_table ''No data'' backup_columns (case jb_tableData s of None \<Rightarrow> [] | Some rows \<Rightarrow> rows))"

definition rebuild_table :: "bool \<Rightarrow> 'a job_tables_scheme \<Rightarrow> job_event elem" where
  "rebuild_table loading s =
     v_loading loading (el_table ''No data'' rebuild_columns (case jb_tableData_2 s of None \<Rightarrow> [] | Some rows \<Rightarrow> rows))"

definition backup_pager :: "'a job_tables_scheme \<Rightarrow> job_event elem" where
  "backup_pager s = box (el_pagination (jb_parma s) TurnBackup)"

definition rebuild_pager :: "'a job_tables_scheme \<Rightarrow> job_event elem" where
  "rebuild_pager s = box (el_pagination (jb_parmaRebuild s) TurnRebuild)"

section \<open>The details page\<close>

text \<open>The details page; \<open>param\<close> is the type in its address.\<close>

definition details_page :: "string option \<Rightarrow> details \<Rightarrow> job_event elem" where
  "details_page param s =
     under_dialogs
       (box
          ([box [Text (dt_linkTitle s), Text (dt_linkTitle s)],
            Node ''el-breadcrumb'' [] [] [link ''Dashboard'' FollowCrumb, Text (dt_linkTitle s)]] @
           (if param = Some ''backup_job'' then [backup_table (jb_loading s) s] else [rebuild_table (jb_loading s) s]) @
           (if param = Some ''backup_job'' then [backup_pager s] else [rebuild_pager s])))
       (job_dialogs s)"

text \<open>What the events do; \<open>copied\<close> is what the browser's copy command answers.\<close>

fun job_handle :: "'a job_tables_scheme \<Rightarrow> bool option \<Rightarrow> string \<Rightarrow> string \<Rightarrow> job_event \<Rightarrow> 'a job_tables_scheme \<times> jobs_cmd list" where
  "job_handle s copied api token OpenDis = (s\<lparr>jb_dialogDis := True\<rparr>, [])"
| "job_handle s copied api token (OpenDetail j) = (detailFun j s, [])"
| "job_handle s copied api token CancelRebuild = (s\<lparr>jb_dialogVisible := False\<rparr>, [])"
| "job_handle s copied api token ConfirmRebuild = rebuild_confirm api token s"
| "job_handle s copied api token CloseConfirm = (jobs_handleClose s, [])"
| "job_handle s copied api token CloseDis = (s\<lparr>jb_dialogDis := False\<rparr>, [])"
| "job_handle s copied api token (CopyText t) = (s, fst (copyTextToClipboard t copied))"
| "job_handle s copied api token FollowCrumb = (s, [RouterPush (ByName ''my_account_dashboard'')])"
| "job_handle s copied api token ev = (s, [])"

fun details_handle :: "bool option \<Rightarrow> string \<Rightarrow> string \<Rightarrow> job_event \<Rightarrow> details \<Rightarrow> details \<times> jobs_cmd list" where
  "details_handle copied api token (TurnBackup k) s = details_backupChange api token k s"
| "details_handle copied api token (TurnRebuild k) s = details_rebuildChange api token k s"
| "details_handle copied api token ev s = job_handle s copied api token ev"

text \<open>The rebuild button of a row does what \<open>rebuild_click\<close> says.\<close>

lemma rebuild_cell_click:
  "\<exists>ev. concat (map reachable (rebuild_cell r)) = [ev] \<and> fst (job_handle s copied api token ev) = rebuild_click r s"
  by (simp add: rebuild_cell_def rebuild_click_def)

section \<open>Which events are offered\<close>

lemma reachable_status [simp]: "concat (map reachable (status_cell t)) = []"
  by (simp add: status_cell_def)

lemma reachable_copy [simp]: "concat (map reachable (copy_cell t)) = [CopyText t]"
  by (simp add: copy_cell_def)

lemma reachable_row:
  "set (concat (map (\<lambda>c. concat (map reachable (snd c r))) backup_columns))
     = {CopyText (bj_DealCid (sb_job r)), CopyText (bj_PayloadCid (sb_job r)),
        if bj_Status (sb_job r) = ''Completed'' then OpenDetail (sb_job r) else OpenDis}"
  by (auto simp: backup_columns_def rebuild_cell_def)

lemma reachable_backup_table:
  "set (reachable (backup_table loading s)) =
     (if loading then {}
      else {ev. \<exists>rows r. jb_tableData s = Some rows \<and> r \<in> set rows \<and>
        ev \<in> {CopyText (bj_DealCid (sb_job r)), CopyText (bj_PayloadCid (sb_job r)),
          if bj_Status (sb_job r) = ''Completed'' then OpenDetail (sb_job r) else OpenDis}})"
proof -
  have "set (reachable (el_table t backup_columns rows)) = (\<Union>r \<in> set rows. set (concat (map (\<lambda>c. concat (map reachable (snd c r))) backup_columns)))"
    for t and rows :: "shown_backup list"
    unfolding reachable_table by auto
  then show ?thesis
    unfolding backup_table_def reachable_v_loading reachable_row by (cases "jb_tableData s") auto
qed

lemma reachable_rebuild_table:
  "ev \<in> set (reachable (rebuild_table loading s)) \<Longrightarrow> \<not> loading \<and> (\<exists>t. ev = CopyText t)"
  by (auto simp: rebuild_table_def reachable_table rebuild_columns_def status_cell_def copy_cell_def split: option.splits if_splits)

lemma job_dialogs_last:
  "job_dialogs s = [] \<longleftrightarrow> \<not> jb_dialogVisible s \<and> \<not> jb_dialogConfirm s \<and> \<not> jb_dialogDis s"
  "job_dialogs s \<noteq> [] \<Longrightarrow> set (reachable (last (job_dialogs s))) =
     (if jb_dialogDis s then {CloseDis} else if jb_dialogConfirm s then {CloseConfirm} else {CancelRebuild, ConfirmRebuild})"
  by (auto simp: job_dialogs_def confirm_dialog_def created_dialog_def unavailable_dialog_def Let_def el_dialog_def v_if_def)

text \<open>
  The details page offers, under an open dialog, only that dialog's events; otherwise its links and its
  pager, and the events of the rows unless the spinner covers them.
\<close>

lemma details_offers:
  assumes "ev \<in> set (reachable (details_page param s))"
  shows "(jb_dialogVisible s \<and> ev \<in> {CancelRebuild, ConfirmRebuild}) \<or> (jb_dialogConfirm s \<and> ev = CloseConfirm) \<or>
    (jb_dialogDis s \<and> ev = CloseDis) \<or>
    \<not> jb_dialogVisible s \<and> \<not> jb_dialogConfirm s \<and> \<not> jb_dialogDis s \<and>
      (ev = FollowCrumb \<or> (\<exists>k. ev = TurnBackup k \<or> ev = TurnRebuild k) \<or>
       \<not> jb_loading s \<and> ((\<exists>t. ev = CopyText t) \<or> ev = OpenDis \<or>
         (\<exists>rows r. param = Some ''backup_job'' \<and> jb_tableData s = Some rows \<and> r \<in> set rows \<and>
            bj_Status (sb_job r) = ''Completed'' \<and> ev = OpenDetail (sb_job r))))"
proof (cases "job_dialogs s = []")
  case True
  have pagers: "\<exists>k. ev = TurnBackup k \<or> ev = TurnRebuild k"
    if "ev \<in> set (reachable (backup_pager s)) \<or> ev \<in> set (reachable (rebuild_pager s))"
    using that unfolding backup_pager_def rebuild_pager_def reachable_box reachable_pagination by (auto split: if_splits)
  show ?thesis
    using assms True pagers reachable_rebuild_table [of ev "jb_loading s" s]
    by (auto simp: details_page_def reachable_under reachable_backup_table job_dialogs_last(1) split: if_splits)
next
  case False
  with assms job_dialogs_last(2) [OF False] show ?thesis
    using job_dialogs_last(1) [of s] by (auto simp: details_page_def reachable_under split: if_splits)
qed

section \<open>Which job is rebuilt\<close>

text \<open>The event that opens the dialog names the job; the pagers and the tabs are each page's own.\<close>

fun aimed :: "job_event \<Rightarrow> int option \<Rightarrow> int option" where
  "aimed (OpenDetail j) c = Some (bj_ID j)"
| "aimed ev c = c"

fun own_event :: "job_event \<Rightarrow> bool" where
  "own_event (TurnBackup k) = True"
| "own_event (TurnRebuild k) = True"
| "own_event (SelectTab t) = True"
| "own_event ev = False"

text \<open>
  The contract of a page of jobs: its dialogs mask it, the spinner covers the buttons of the rows, it
  handles what the copies share as they all do, and its own events leave the dialog and the spinner alone.
\<close>

locale job_page =
  fixes offers :: "'a job_tables_scheme \<Rightarrow> job_event set"
    and handle :: "bool option \<Rightarrow> string \<Rightarrow> string \<Rightarrow> job_event \<Rightarrow> 'a job_tables_scheme \<Rightarrow> 'a job_tables_scheme \<times> jobs_cmd list"
  assumes confirm_shown: "ConfirmRebuild \<in> offers s \<Longrightarrow> jb_dialogVisible s"
    and rows_covered: "OpenDetail j \<in> offers s \<Longrightarrow> \<not> jb_loading s"
    and shared: "\<not> own_event ev \<Longrightarrow> handle copied api token ev s = job_handle s copied api token ev"
    and own_keeps: "own_event ev \<Longrightarrow>
      jb_dialogVisible (fst (handle copied api token ev s)) = jb_dialogVisible s \<and>
      jb_backupPlan (fst (handle copied api token ev s)) = jb_backupPlan s \<and>
      (jb_loading s \<longrightarrow> jb_loading (fst (handle copied api token ev s)))"
begin

lemma event_aims:
  assumes "aims_at s c n" "ev \<in> offers s"
  shows "aims_at (fst (handle copied api token ev s)) (aimed ev c) (if ev = ConfirmRebuild then Suc n else n)"
proof (cases "own_event ev")
  case True
  then have "aimed ev c = c" "ev \<noteq> ConfirmRebuild" by (cases ev; simp)+
  with own_keeps [OF True, of copied api token s] assms(1) show ?thesis by (auto simp: aims_at_def)
next
  case False
  with assms confirm_shown [of s] rows_covered [of _ s] show ?thesis unfolding shared [OF False]
    by (cases ev) (auto simp: aims_at_def detailFun_def rebuild_confirm_def jobs_handleClose_def)
qed

end

interpretation details_job: job_page "\<lambda>s. set (reachable (details_page param s))" details_handle for param
proof
  show "ConfirmRebuild \<in> set (reachable (details_page param s)) \<Longrightarrow> jb_dialogVisible s"
    "OpenDetail j \<in> set (reachable (details_page param s)) \<Longrightarrow> \<not> jb_loading s" for s :: details and j
    using details_offers [of _ param s] by blast+
  fix ev copied api token and s :: details
  show "\<not> own_event ev \<Longrightarrow> details_handle copied api token ev s = job_handle s copied api token ev" by (cases ev) simp_all
  show "own_event ev \<Longrightarrow>
      jb_dialogVisible (fst (details_handle copied api token ev s)) = jb_dialogVisible s \<and>
      jb_backupPlan (fst (details_handle copied api token ev s)) = jb_backupPlan s \<and>
      (jb_loading s \<longrightarrow> jb_loading (fst (details_handle copied api token ev s)))"
    by (cases ev) (simp_all add: details_backupChange_def details_rebuildChange_def details_getData_def)
qed

text \<open>
  The details page in use: the state, the id in the row whose dialog was opened last, and the number of
  rebuild requests in flight. The user does, with the pointer, what the page offers; the server answers. With \<open>apart\<close> no
  exchange of a list overlaps a rebuild request.
\<close>

inductive page_use :: "bool \<Rightarrow> details \<Rightarrow> int option \<Rightarrow> nat \<Rightarrow> bool" for apart :: bool where
  use_start: "\<not> jb_dialogVisible s \<Longrightarrow> page_use apart s None 0"
| use_event: "page_use apart s c n \<Longrightarrow> ev \<in> set (reachable (details_page param s)) \<Longrightarrow> apart \<and> own_event ev \<longrightarrow> n = 0 \<Longrightarrow>
    page_use apart (fst (details_handle copied api token ev s)) (aimed ev c) (if ev = ConfirmRebuild then Suc n else n)"
| use_answer: "page_use apart s c (Suc n) \<Longrightarrow> page_use apart (fst (rebuildJob_reply moment_ms a s)) c n"
| use_listed: "page_use apart s c n \<Longrightarrow> apart \<longrightarrow> n = 0 \<Longrightarrow> page_use apart (out_state (volume_reply moment_ms l s)) c n"
| use_tick: "page_use apart s c n \<Longrightarrow> apart \<longrightarrow> n = 0 \<Longrightarrow> page_use apart (sort_backups s) c n"
| use_listed_2: "page_use apart s c n \<Longrightarrow> apart \<longrightarrow> n = 0 \<Longrightarrow>
    page_use apart (out_state (rebuild_reply details_set_loading moment_ms l' s)) c n"
| use_tick_2: "page_use apart s c n \<Longrightarrow> apart \<longrightarrow> n = 0 \<Longrightarrow> page_use apart (sort_rebuilds details_set_loading s) c n"

lemma rebuild_reply_dialog:
  fixes s :: details
  shows "jb_dialogVisible (out_state (rebuild_reply details_set_loading moment_ms l s)) = jb_dialogVisible s \<and>
    jb_backupPlan (out_state (rebuild_reply details_set_loading moment_ms l s)) = jb_backupPlan s"
proof (cases l)
  case (RestSuccess a)
  obtain jobs k where a: "a = (jobs, k)" by (cases a)
  show ?thesis
    by (cases jobs) (simp_all add: RestSuccess a rebuild_reply_def rebuild_answered_def details_set_loading_def Let_def)
qed (simp_all add: rebuild_reply_def rebuild_answered_def details_set_loading_def)

lemma page_use_aims:
  assumes "page_use apart s c n" "apart"
  shows "aims_at s c n"
  using assms
proof (induction rule: page_use.induct)
  case (use_event s c n ev param copied api token)
  then show ?case by (intro details_job.event_aims) auto
next
  case (use_answer s c n moment_ms a)
  then have "aims_at s c (Suc n)" by simp
  then have "\<not> jb_dialogVisible s" "n = 0" by (simp_all add: aims_at_def)
  moreover have "jb_dialogVisible (fst (rebuildJob_reply moment_ms a s)) = jb_dialogVisible s" by (cases a) simp_all
  ultimately show ?case by (simp add: aims_at_def)
next
  case (use_listed s c n moment_ms l)
  then show ?case by (simp add: aims_at_def volume_reply_dialog)
next
  case (use_listed_2 s c n moment_ms l)
  then show ?case by (simp add: aims_at_def rebuild_reply_dialog)
qed (simp_all add: aims_at_def sort_backups_def sort_rebuilds_def details_set_loading_def)

text \<open>
  C14: the rebuild dialog aims at the job whose button was clicked. Whatever the user does, with the pointer, of what the page
  offers, and whatever the server answers, as long as no exchange of a list overlaps a rebuild request:
  in every state in which the dialog is open its OK sends exactly the id of the row whose dialog was
  opened last, and it is never open without one.
\<close>

theorem rebuild_aims_at_clicked:
  assumes "page_use True s c n" "jb_dialogVisible s"
  shows "\<exists>i. c = Some i \<and> snd (rebuild_confirm api token s)
    = [Request RebuildJobReply (axios_post (api @ ''/minio/rebuild/add/job'') (JObj [(''BackupTaskId'', JInt i)]) token)]"
  using page_use_aims [OF assms(1)] assms(2) by (auto simp: aims_at_def rebuild_confirm_def)

lemma detail_offered:
  assumes "job_dialogs s = []" "\<not> jb_loading s" "jb_tableData s = Some rows" "r \<in> set rows" "bj_Status (sb_job r) = ''Completed''"
  shows "OpenDetail (sb_job r) \<in> set (reachable (details_page (Some ''backup_job'') s))"
  using assms by (auto simp: details_page_def reachable_under reachable_backup_table)

lemma click_listed:
  assumes "page_use apart s c n" "job_dialogs s = []" "\<not> jb_loading s"
    "jb_tableData s = Some (map (show_backup num_str) [sample_job 7, sample_job 8])" "i \<in> {7, 8}"
  shows "page_use apart (detailFun (sb_job (show_backup num_str (sample_job i))) s) (Some i) n"
proof -
  let ?r = "show_backup num_str (sample_job i)"
  have "?r \<in> set (map (show_backup num_str) [sample_job 7, sample_job 8])" "bj_Status (sb_job ?r) = ''Completed''"
    using assms(5) by (auto simp: show_backup_def sample_job_def)
  from use_event [OF assms(1) detail_offered [OF assms(2-4) this]] show ?thesis
    by (simp add: show_backup_def sample_job_def)
qed

lemma confirm_offered:
  assumes "jb_dialogVisible s" "\<not> jb_dialogConfirm s" "\<not> jb_dialogDis s"
  shows "ConfirmRebuild \<in> set (reachable (details_page param s))"
proof -
  have "job_dialogs s \<noteq> []" using assms by (simp add: job_dialogs_last)
  then show ?thesis using assms by (simp add: details_page_def reachable_under job_dialogs_last(2))
qed

theorem rebuild_aims_at_clicked_witness:
  "\<exists>i. Some 7 = Some i \<and> snd (rebuild_confirm [] [] (detailFun (sb_job (show_backup num_str (sample_job 7))) listed_jobs))
    = [Request RebuildJobReply (axios_post ([] @ ''/minio/rebuild/add/job'') (JObj [(''BackupTaskId'', JInt i)]) [])]"
proof (rule rebuild_aims_at_clicked)
  show "page_use True (detailFun (sb_job (show_backup num_str (sample_job 7))) listed_jobs) (Some 7) 0"
    by (rule click_listed [OF use_start]) (simp_all add: listed_jobs_fields job_dialogs_last)
qed (simp add: detailFun_def)

text \<open>
  C32: overlapping exchanges can rebuild the wrong image. The pager stays in reach while a rebuild request
  is in flight; when the page is turned, the list's timer takes the spinner away, another completed row
  can be clicked, and the late answer of the first request overwrites the id in the open dialog. Once its
  own message is closed, the dialog's OK sends the id of the rebuild job instead of the id of the row.
\<close>

theorem rebuild_race:
  fixes answer :: rebuild_job
  shows "\<exists>s. page_use False s (Some 8) 0 \<and> ConfirmRebuild \<in> set (reachable (details_page (Some ''backup_job'') s)) \<and>
    snd (rebuild_confirm api token s)
      = [Request RebuildJobReply (axios_post (api @ ''/minio/rebuild/add/job'') (JObj [(''BackupTaskId'', JInt (rj_ID answer))]) token)]"
proof -
  let ?row = "\<lambda>i. sb_job (show_backup num_str (sample_job i))"
  let ?offers = "\<lambda>s. set (reachable (details_page (Some ''backup_job'') s))"
  define s1 where "s1 = detailFun (?row 7) listed_jobs"
  define s2 where "s2 = fst (rebuild_confirm api token s1)"
  define s3 where "s3 = fst (details_backupChange api token 2 s2)"
  define s4 where "s4 = sort_backups (out_state (volume_reply num_str (RestSuccess (Some [sample_job 7, sample_job 8], 12)) s3))"
  define s5 where "s5 = detailFun (?row 8) s4"
  define s6 where "s6 = fst (rebuildJob_reply num_str (RestSuccess answer) s5)"
  define s7 where "s7 = jobs_handleClose s6"
  note steps = s2_def rebuild_confirm_def s3_def details_backupChange_def details_getData_def s4_def sort_backups_def
    volume_reply_def volume_answered_def Let_def
  have d1: "jb_dialogVisible s1" "\<not> jb_dialogConfirm s1" "\<not> jb_dialogDis s1"
    by (simp_all add: s1_def detailFun_def listed_jobs_fields)
  have r1: "page_use False s1 (Some 7) 0"
    unfolding s1_def by (rule click_listed [OF use_start]) (simp_all add: listed_jobs_fields job_dialogs_last)
  from use_event [OF r1 confirm_offered [OF d1]] have r2: "page_use False s2 (Some 7) (Suc 0)" by (simp add: s2_def)
  have "job_dialogs s2 = []" "jb_parma s2 = \<lparr>pg_limit = 10, pg_offset = 1, pg_total = 12\<rparr>"
    using d1 by (simp_all add: job_dialogs_last s2_def rebuild_confirm_def) (simp add: s1_def detailFun_def listed_jobs_fields)
  then have "TurnBackup 2 \<in> ?offers s2"
    using reachable_pagination [of "jb_parma s2" TurnBackup]
    by (auto simp: details_page_def reachable_under backup_pager_def page_count_def)
  from use_event [OF r2 this] have "page_use False s3 (Some 7) (Suc 0)" by (simp add: s3_def)
  then have r4: "page_use False s4 (Some 7) (Suc 0)"
    unfolding s4_def by (intro use_tick use_listed) simp_all
  have d4: "job_dialogs s4 = []" "\<not> jb_loading s4"
    using d1 by (simp_all add: job_dialogs_last steps)
  have "jb_tableData s4 = Some (map (show_backup num_str) [sample_job 7, sample_job 8])"
    by (simp add: steps s1_def detailFun_def listed_jobs_fields) (simp add: show_backup_def sample_job_def)
  then have "page_use False s5 (Some 8) (Suc 0)"
    unfolding s5_def by (intro click_listed [OF r4 d4]) simp_all
  then have r6: "page_use False s6 (Some 8) 0" unfolding s6_def by (rule use_answer)
  have d6: "jb_dialogVisible s6" "jb_dialogConfirm s6" "\<not> jb_dialogDis s6"
    using d4(1) by (simp_all add: s6_def s5_def detailFun_def job_dialogs_last)
  have "job_dialogs s6 \<noteq> []" using d6 by (simp add: job_dialogs_last)
  then have "CloseConfirm \<in> ?offers s6" using d6 by (simp add: details_page_def reachable_under job_dialogs_last(2))
  from use_event [OF r6 this] have "page_use False s7 (Some 8) 0" by (simp add: s7_def)
  moreover have "ConfirmRebuild \<in> ?offers s7" using d6 by (intro confirm_offered) (simp_all add: s7_def jobs_handleClose_def)
  moreover have "jt_ID (jb_backupPlan s7) = Some (rj_ID answer)" by (simp add: s7_def jobs_handleClose_def s6_def)
  ultimately show ?thesis by (intro exI [of _ s7]) (simp add: rebuild_confirm_def)
qed

end
