(* ===== verification/Jobs_View.thy ===== *)
theory Jobs_View
  imports Account_Views
begin

text \<open>
  The jobs page (\<open>views/myAccount/myJobs/index.vue\<close>): its template and its methods. The page is a copy of the
  details page with tabs in place of the title, a spinner for each table, and both lists asked for at
  once; the copies of the methods are shown to agree, and the contract of a page of jobs carries over.
\<close>

section \<open>The template\<close>

definition my_jobs_tabs :: "my_jobs \<Rightarrow> job_event elem" where
  "my_jobs_tabs s =
     Node ''el-tabs'' [(''value'', mj_activeName s)] []
       (map (\<lambda>(label, name). Node ''el-tab-pane'' [(''name'', name)] [(''click'', SelectTab name)] [Text label])
          [(''Backup Jobs'', ''backup_job''), (''Rebuild Jobs'', ''rebuild_job'')])"

definition my_jobs_backups :: "my_jobs \<Rightarrow> job_event elem list" where
  "my_jobs_backups s =
     v_if (mj_activeName s = ''backup_job'')
       [v_loading (jb_loading s) (el_table ''No data'' backup_columns (case jb_tableData s of None \<Rightarrow> [] | Some rows \<Rightarrow> rows))]"

definition my_jobs_rebuilds :: "my_jobs \<Rightarrow> job_event elem list" where
  "my_jobs_rebuilds s =
     v_if (mj_activeName s \<noteq> ''backup_job'')
       [v_loading (mj_loading_rebuild s) (el_table ''No data'' rebuild_columns (case jb_tableData_2 s of None \<Rightarrow> [] | Some rows \<Rightarrow> rows))]"

definition my_jobs_pagers :: "my_jobs \<Rightarrow> job_event elem" where
  "my_jobs_pagers s =
     box (if mj_activeName s = ''backup_job'' then el_pagination (jb_parma s) TurnBackup
          else el_pagination (jb_parmaRebuild s) TurnRebuild)"

text \<open>The dialogs are those of the details page, word for word.\<close>

definition my_jobs_dialogs :: "my_jobs \<Rightarrow> job_event elem list" where
  "my_jobs_dialogs s = confirm_dialog s @ created_dialog s @ unavailable_dialog s"

definition my_jobs_page :: "my_jobs \<Rightarrow> job_event elem" where
  "my_jobs_page s =
     under_dialogs
       (box ([box [Text ''Jobs'', Text ''Jobs''], my_jobs_tabs s] @ my_jobs_backups s @ my_jobs_rebuilds s @ [my_jobs_pagers s]))
       (my_jobs_dialogs s)"

section \<open>The methods\<close>

definition my_jobs_confirm :: "string \<Rightarrow> string \<Rightarrow> my_jobs \<Rightarrow> my_jobs \<times> jobs_cmd list" where
  "my_jobs_confirm api token s =
     (let s1 = s\<lparr>jb_dialogVisible := False\<rparr>; s2 = s1\<lparr>jb_loading := True\<rparr>;
          params = JObj [(''BackupTaskId'', case jt_ID (jb_backupPlan s2) of None \<Rightarrow> JUndef | Some i \<Rightarrow> JInt i)]
      in (s2, [Request RebuildJobReply (axios_post (api @ ''/minio/rebuild/add/job'') params token)]))"

text \<open>Its callbacks: the spinner ends first; the answer becomes the job of the next dialog, with its date formatted.\<close>

definition my_jobs_confirmed :: "(jsnum \<Rightarrow> string) \<Rightarrow> rebuild_job rest_reply \<Rightarrow> my_jobs \<Rightarrow> my_jobs \<times> jobs_cmd list" where
  "my_jobs_confirmed moment_ms r s =
     (let s1 = s\<lparr>jb_loading := False\<rparr>
      in case r of
           RestSuccess j \<Rightarrow>
             (let j1 = (if rj_CreatedOn j \<noteq> [] then j\<lparr>rj_CreatedOn := moment_ms (micros_ms (rj_CreatedOn j))\<rparr> else j)
              in (s1\<lparr>jb_backupPlan := \<lparr>jt_Name = None, jt_ID = Some (rj_ID j1), jt_answer = Some j1\<rparr>, jb_dialogConfirm := True\<rparr>, []))
         | RestRefused m \<Rightarrow> (s1, [Toast ToastError m])
         | RestFailure c \<Rightarrow> (s1, []))"

definition my_jobs_detailFun :: "backup_job \<Rightarrow> my_jobs \<Rightarrow> my_jobs" where
  "my_jobs_detailFun row s =
     (let t = jb_backupPlan s; t1 = t\<lparr>jt_Name := Some (bj_Name row)\<rparr>; t2 = t1\<lparr>jt_ID := Some (bj_ID row)\<rparr>
      in s\<lparr>jb_backupPlan := t2, jb_dialogVisible := True\<rparr>)"

text \<open>\<open>copyTextToClipboard\<close>; \<open>None\<close> when \<open>execCommand\<close> throws. The text area is removed in every case.\<close>

definition my_jobs_copy :: "string \<Rightarrow> bool option \<Rightarrow> jobs_cmd list" where
  "my_jobs_copy txt successful =
     [DomCall (''append textarea '' @ txt), DomCall ''select''] @
     (case successful of Some True \<Rightarrow> [Toast ToastSuccess ''Success''] | _ \<Rightarrow> []) @ [DomCall ''remove textarea'']"

fun my_jobs_handle :: "bool option \<Rightarrow> string \<Rightarrow> string \<Rightarrow> job_event \<Rightarrow> my_jobs \<Rightarrow> my_jobs \<times> jobs_cmd list" where
  "my_jobs_handle copied api token (SelectTab t) s = (s\<lparr>mj_activeName := t\<rparr>, [])"
| "my_jobs_handle copied api token (TurnBackup k) s = jobs_backupChange api token k s"
| "my_jobs_handle copied api token (TurnRebuild k) s = jobs_rebuildChange api token k s"
| "my_jobs_handle copied api token OpenDis s = (s\<lparr>jb_dialogDis := True\<rparr>, [])"
| "my_jobs_handle copied api token CloseDis s = (s\<lparr>jb_dialogDis := False\<rparr>, [])"
| "my_jobs_handle copied api token (OpenDetail j) s = (my_jobs_detailFun j s, [])"
| "my_jobs_handle copied api token CancelRebuild s = (s\<lparr>jb_dialogVisible := False\<rparr>, [])"
| "my_jobs_handle copied api token ConfirmRebuild s = my_jobs_confirm api token s"
| "my_jobs_handle copied api token CloseConfirm s = (s\<lparr>jb_dialogConfirm := False\<rparr>, [])"
| "my_jobs_handle copied api token (CopyText t) s = (s, my_jobs_copy t copied)"
| "my_jobs_handle copied api token FollowCrumb s = (s, [RouterPush (ByName ''my_account_dashboard'')])"

text \<open>The copies of the methods agree with those of the details page.\<close>

lemma jobs_copies_agree:
  "my_jobs_confirm api token s = rebuild_confirm api token s"
  "my_jobs_confirmed moment_ms r s = rebuildJob_reply moment_ms r s"
  "my_jobs_detailFun j s = detailFun j s"
  "my_jobs_copy t copied = fst (copyTextToClipboard t copied)"
  "my_jobs_dialogs s = job_dialogs s"
proof -
  show "my_jobs_confirmed moment_ms r s = rebuildJob_reply moment_ms r s"
    by (cases r) (simp_all add: my_jobs_confirmed_def Let_def)
  show "my_jobs_copy t copied = fst (copyTextToClipboard t copied)"
    by (simp add: my_jobs_copy_def copyTextToClipboard_def split: option.split bool.split)
qed (simp_all add: my_jobs_confirm_def rebuild_confirm_def my_jobs_detailFun_def detailFun_def Let_def my_jobs_dialogs_def job_dialogs_def)

lemma jobs_handlers_agree: "\<not> own_event ev \<Longrightarrow> my_jobs_handle copied api token ev s = job_handle s copied api token ev"
  by (cases ev) (simp_all add: jobs_copies_agree jobs_handleClose_def)

section \<open>Which events are offered\<close>

lemma jobs_offers:
  assumes "ev \<in> set (reachable (my_jobs_page s))"
  shows "(jb_dialogVisible s \<and> ev \<in> {CancelRebuild, ConfirmRebuild}) \<or> ev \<in> {CloseConfirm, CloseDis} \<or>
    \<not> jb_dialogVisible s \<and>
      (own_event ev \<or> (\<exists>t. ev = CopyText t) \<or> \<not> jb_loading s \<and> mj_activeName s = ''backup_job'' \<and> (ev = OpenDis \<or>
         (\<exists>rows r. jb_tableData s = Some rows \<and> r \<in> set rows \<and> bj_Status (sb_job r) = ''Completed'' \<and> ev = OpenDetail (sb_job r))))"
proof (cases "job_dialogs s = []")
  case True
  have backups: "reachable (backup_table (jb_loading s) s) = (if jb_loading s then [] else reachable (el_table ''No data'' backup_columns
      (case jb_tableData s of None \<Rightarrow> [] | Some rows \<Rightarrow> rows)))" by (simp add: backup_table_def)
  have rebuilds: "reachable (rebuild_table (mj_loading_rebuild s) s) = (if mj_loading_rebuild s then [] else reachable (el_table ''No data'' rebuild_columns
      (case jb_tableData_2 s of None \<Rightarrow> [] | Some rows \<Rightarrow> rows)))" by (simp add: rebuild_table_def)
  have pagers: "own_event ev" if "ev \<in> set (reachable (my_jobs_pagers s))"
    using that unfolding my_jobs_pagers_def reachable_box by (auto simp: reachable_pagination simp del: set_concat split: if_splits)
  have tabs: "own_event ev" if "ev \<in> set (reachable (my_jobs_tabs s))" using that by (auto simp: my_jobs_tabs_def)
  have "ev \<in> set (reachable (my_jobs_tabs s)) \<or> ev \<in> set (reachable (my_jobs_pagers s)) \<or>
      mj_activeName s = ''backup_job'' \<and> ev \<in> set (reachable (backup_table (jb_loading s) s)) \<or>
      ev \<in> set (reachable (rebuild_table (mj_loading_rebuild s) s))"
    using assms True unfolding backups rebuilds
    by (auto simp: my_jobs_page_def jobs_copies_agree reachable_under my_jobs_backups_def my_jobs_rebuilds_def v_if_def split: if_splits)
  then show ?thesis
    using True pagers tabs reachable_rebuild_table [of ev "mj_loading_rebuild s" s]
    by (auto simp: reachable_backup_table job_dialogs_last(1) split: if_splits)
next
  case False
  with assms job_dialogs_last(2) [OF False] show ?thesis
    using job_dialogs_last(1) [of s] by (auto simp: my_jobs_page_def jobs_copies_agree reachable_under split: if_splits)
qed

interpretation jobs_page: job_page "\<lambda>s. set (reachable (my_jobs_page s))" my_jobs_handle
proof
  show "ConfirmRebuild \<in> set (reachable (my_jobs_page s)) \<Longrightarrow> jb_dialogVisible s"
    "OpenDetail j \<in> set (reachable (my_jobs_page s)) \<Longrightarrow> \<not> jb_loading s" for s :: my_jobs and j
    using jobs_offers [of "ConfirmRebuild" s] jobs_offers [of "OpenDetail j" s] by auto
  fix ev copied api token and s :: my_jobs
  show "\<not> own_event ev \<Longrightarrow> my_jobs_handle copied api token ev s = job_handle s copied api token ev" by (rule jobs_handlers_agree)
  show "own_event ev \<Longrightarrow>
      jb_dialogVisible (fst (my_jobs_handle copied api token ev s)) = jb_dialogVisible s \<and>
      jb_backupPlan (fst (my_jobs_handle copied api token ev s)) = jb_backupPlan s \<and>
      (jb_loading s \<longrightarrow> jb_loading (fst (my_jobs_handle copied api token ev s)))"
    by (cases ev) (simp_all add: jobs_backupChange_def jobs_rebuildChange_def jobs_getData_def)
qed

section \<open>Which job is rebuilt\<close>

text \<open>
  The page in use, as in theory Account_Views; here both lists are asked for when the page opens, and with
  \<open>apart\<close> only the answers to the list of backup jobs, and its timer, stay out of a rebuild request.
\<close>

inductive jobs_use :: "bool \<Rightarrow> my_jobs \<Rightarrow> int option \<Rightarrow> nat \<Rightarrow> bool" for apart :: bool where
  jobs_opens: "jobs_use apart (fst (jobs_mounted api token my_jobs_init)) None 0"
| jobs_event: "jobs_use apart s c n \<Longrightarrow> ev \<in> set (reachable (my_jobs_page s)) \<Longrightarrow>
    jobs_use apart (fst (my_jobs_handle copied api token ev s)) (aimed ev c) (if ev = ConfirmRebuild then Suc n else n)"
| jobs_answer: "jobs_use apart s c (Suc n) \<Longrightarrow> jobs_use apart (fst (my_jobs_confirmed moment_ms a s)) c n"
| jobs_listed: "jobs_use apart s c n \<Longrightarrow> apart \<longrightarrow> n = 0 \<Longrightarrow> jobs_use apart (out_state (volume_reply moment_ms l s)) c n"
| jobs_tick: "jobs_use apart s c n \<Longrightarrow> apart \<longrightarrow> n = 0 \<Longrightarrow> jobs_use apart (sort_backups s) c n"
| jobs_listed_2: "jobs_use apart s c n \<Longrightarrow> jobs_use apart (out_state (rebuild_reply jobs_set_loading moment_ms l' s)) c n"
| jobs_tick_2: "jobs_use apart s c n \<Longrightarrow> jobs_use apart (sort_rebuilds jobs_set_loading s) c n"

lemma jobs_rebuild_reply_aims:
  "aims_at s c n \<Longrightarrow> aims_at (out_state (rebuild_reply jobs_set_loading moment_ms l s)) c n"
proof -
  have "jb_dialogVisible t = jb_dialogVisible s \<and> jb_backupPlan t = jb_backupPlan s \<and> jb_loading t = jb_loading s"
    if "t = out_state (rebuild_reply jobs_set_loading moment_ms l s)" for t
  proof (cases l)
    case (RestSuccess a)
    obtain jobs k where "a = (jobs, k)" by (cases a)
    with that RestSuccess show ?thesis
      by (cases jobs) (simp_all add: rebuild_reply_def rebuild_answered_def jobs_set_loading_def Let_def)
  qed (simp_all add: that rebuild_reply_def rebuild_answered_def jobs_set_loading_def)
  then show "aims_at s c n \<Longrightarrow> aims_at (out_state (rebuild_reply jobs_set_loading moment_ms l s)) c n"
    by (simp add: aims_at_def)
qed

lemma jobs_use_aims:
  assumes "jobs_use apart s c n" "apart"
  shows "aims_at s c n"
  using assms
proof (induction rule: jobs_use.induct)
  case (jobs_opens api token)
  show ?case by (simp add: aims_at_def jobs_mounted_def jobs_getData_def my_jobs_init_def)
next
  case (jobs_event s c n ev copied api token)
  then show ?case by (intro jobs_page.event_aims) auto
next
  case (jobs_answer s c n moment_ms a)
  then have "aims_at s c (Suc n)" by simp
  then have "\<not> jb_dialogVisible s" "n = 0" by (simp_all add: aims_at_def)
  moreover have "jb_dialogVisible (fst (my_jobs_confirmed moment_ms a s)) = jb_dialogVisible s"
    by (cases a) (simp_all add: jobs_copies_agree)
  ultimately show ?case by (simp add: aims_at_def)
next
  case (jobs_listed s c n moment_ms l)
  then show ?case by (simp add: aims_at_def volume_reply_dialog)
next
  case (jobs_listed_2 s c n moment_ms l')
  then show ?case by (simp add: jobs_rebuild_reply_aims)
qed (simp_all add: aims_at_def sort_backups_def sort_rebuilds_def jobs_set_loading_def)


text \<open>Both lists are asked for, the backup jobs are listed while the rebuild jobs are not, and the first row is clicked.\<close>

definition jobs_shown :: my_jobs where
  "jobs_shown =
     sort_backups (out_state (volume_reply num_str (RestSuccess (Some [sample_job 7, sample_job 8], 12))
       (fst (jobs_mounted [] [] my_jobs_init))))"

lemma jobs_shown_fields:
  "jb_tableData jobs_shown = Some (map (show_backup num_str) [sample_job 7, sample_job 8])" "\<not> jb_loading jobs_shown"
  "mj_activeName jobs_shown = ''backup_job''" "mj_loading_rebuild jobs_shown" "job_dialogs jobs_shown = []"
proof -
  note facts = jobs_shown_def jobs_mounted_def jobs_getData_def my_jobs_init_def volume_reply_def volume_answered_def
    sort_backups_def Let_def
  show "jb_tableData jobs_shown = Some (map (show_backup num_str) [sample_job 7, sample_job 8])"
    by (simp add: facts show_backup_def sample_job_def)
  show "\<not> jb_loading jobs_shown" "mj_activeName jobs_shown = ''backup_job''" "mj_loading_rebuild jobs_shown"
    by (simp_all add: facts)
  show "job_dialogs jobs_shown = []" by (simp add: job_dialogs_last(1)) (simp add: facts)
qed


end
