(* ===== verification/Plan_Views.thy ===== *)
theory Plan_Views
  imports Page_Elements Backup_Form Dashboard
begin

text \<open>
  What the pages of backup plans and the dashboard render, from their templates: the cards of the plans
  with their two dialogs (\<open>myPlans/index.vue\<close>), the form of a plan with its two dialogs
  (\<open>backupPlans/index.vue\<close>), the cards of the dashboard. The runs of the list of plans are made of the
  events it offers and of the server's answers.
\<close>

section \<open>The list of plans\<close>

datatype plans_event =
    GoCreate
  | ViewDetails nat plan
  | AskDelete plan
  | TurnPlans int
  | CloseDetails
  | ToggleStatus
  | DeleteIt
  | CancelDelete

definition plan_status_style :: "string \<Rightarrow> string" where
  "plan_status_style status =
     (if status = ''Created'' then ''color: #0a318e'' else if status = ''Running'' then ''color: #ffb822''
      else if status = ''Enabled'' then ''color: #67c23a'' else if status = ''Completed'' then ''color: #1dc9b7''
      else if status = ''Stopped'' then ''color: #f56c6c'' else if status = ''Disabled'' then ''color: #e41f1f''
      else ''color: rgb(255, 184, 34)'')"

definition plan_card :: "nat \<times> plan \<Rightarrow> plans_event elem" where
  "plan_card ip =
     (case ip of (index, item) \<Rightarrow>
        Node ''el-card'' [] []
          [box [Text (pl_Name item)],
           box [Node ''div'' [(''style'', plan_status_style (pl_Status item))] [] [Text (pl_Status item)],
                button ''View details'' (ViewDetails index item), button ''Delete'' (AskDelete item)]])"

definition plans_list :: "bool \<Rightarrow> plan list \<Rightarrow> plans_event elem" where
  "plans_list loading ps =
     (if ps \<noteq> [] then v_loading loading (box (map plan_card (enumerate 0 ps))) else box [Text ''No Data''])"

text \<open>The dialog with the chosen plan; without one its members are missing.\<close>

definition plan_dialog :: "my_plans \<Rightarrow> plans_event elem list" where
  "plan_dialog s =
     el_dialog (mp_dialogVisible s) (case mp_ruleForm s of None \<Rightarrow> [] | Some p \<Rightarrow> pl_Name p) CloseDetails
       ((case mp_ruleForm s of
           None \<Rightarrow> []
         | Some p \<Rightarrow>
             [box [Text ''Backup Plan ID:'', Text (int_str (pl_ID p))]] @
             map (\<lambda>(label, v). box [Text label, Text v]) (plan_summary p) @
             [box [Text ''Create Date:'', Text (pl_CreatedOn p)], box [Text ''Last Update:'', Text (pl_UpdatedOn p)],
              box [Text ''Last Backup Date:'', Text (pl_LastBackupOn p)]]) @
        [button_if (stop_clickable s) ''STOP'' ToggleStatus, button_if (start_clickable s) ''START'' ToggleStatus])"

definition delete_dialog :: "my_plans \<Rightarrow> plans_event elem list" where
  "delete_dialog s =
     el_dialog (mp_deleteConfirm s) ''Tips'' CancelDelete
       [Text ''Are you sure you want to delete?'', button ''Yes, delete'' DeleteIt, button ''No, close the window'' CancelDelete]"

text \<open>The page; reading the length of a list that is null throws, and nothing new is rendered.\<close>

definition my_plans_page :: "my_plans \<Rightarrow> plans_event elem option" where
  "my_plans_page s =
     map_option (\<lambda>ps.
       under_dialogs
         (box [box [Text ''My Plans'', Text ''My Plans''], link ''Create Backup Plan'' GoCreate,
               plans_list (mp_loading s) ps, box (el_pagination (mp_parma s) TurnPlans)])
         (plan_dialog s @ delete_dialog s)) (mp_plan_list s)"

text \<open>
  What the events do. The buttons of the dialogs act on the chosen plan; without one the dialogs are
  closed (lemma \<open>plans_use_aims\<close>).
\<close>

fun plans_handle :: "string \<Rightarrow> string \<Rightarrow> plans_event \<Rightarrow> my_plans \<Rightarrow> my_plans \<times> plans_cmd list" where
  "plans_handle api token GoCreate s = (s, [RouterPush (ByName ''my_account_backupPlans'')])"
| "plans_handle api token (ViewDetails i p) s = (planSubmit i p s, [])"
| "plans_handle api token (AskDelete p) s = (deleteAct p s, [])"
| "plans_handle api token (TurnPlans k) s = plans_handleCurrentChange api token k s"
| "plans_handle api token CloseDetails s = (plans_handleClose s, [])"
| "plans_handle api token ToggleStatus s = (case mp_ruleForm s of None \<Rightarrow> (s, []) | Some p \<Rightarrow> planStatus api token p False s)"
| "plans_handle api token DeleteIt s = (case mp_ruleForm s of None \<Rightarrow> (s, []) | Some p \<Rightarrow> planStatus api token p True s)"
| "plans_handle api token CancelDelete s = (s\<lparr>mp_deleteConfirm := False\<rparr>, [])"

section \<open>Which events the list offers\<close>

definition offers_plans :: "my_plans \<Rightarrow> plans_event set" where
  "offers_plans s = (case my_plans_page s of None \<Rightarrow> {} | Some e \<Rightarrow> set (reachable e))"

lemma reachable_cards:
  "set (reachable (plans_list loading ps)) =
     (if loading then {} else {ev. \<exists>i < length ps. ev = ViewDetails i (ps ! i) \<or> ev = AskDelete (ps ! i)})"
proof -
  have "set (reachable (plan_card (i, p))) = {ViewDetails i p, AskDelete p}" for i p
    by (auto simp: plan_card_def)
  moreover have "set (enumerate 0 ps) = (\<lambda>i. (i, ps ! i)) ` {..<length ps}"
    by (auto simp: in_set_enumerate_eq image_iff)
  ultimately show ?thesis by (auto simp: plans_list_def)
qed

lemma plans_offers:
  assumes "ev \<in> offers_plans s"
  shows "(mp_dialogVisible s \<and> ev \<in> {CloseDetails, ToggleStatus}) \<or> (mp_deleteConfirm s \<and> ev \<in> {DeleteIt, CancelDelete}) \<or>
    \<not> mp_dialogVisible s \<and> \<not> mp_deleteConfirm s \<and>
      (ev = GoCreate \<or> (\<exists>k. ev = TurnPlans k) \<or> \<not> mp_loading s \<and> (\<exists>i p. ev = ViewDetails i p \<or> ev = AskDelete p))"
proof (cases "plan_dialog s @ delete_dialog s = []")
  case True
  then have closed: "\<not> mp_dialogVisible s" "\<not> mp_deleteConfirm s" by (simp_all add: plan_dialog_def delete_dialog_def)
  obtain ps where ps: "mp_plan_list s = Some ps" using assms by (auto simp: offers_plans_def my_plans_page_def split: option.splits)
  have "\<exists>k. ev = TurnPlans k" if "ev \<in> set (concat (map reachable (el_pagination (mp_parma s) TurnPlans)))"
    using that unfolding reachable_pagination by (auto split: if_splits)
  with assms True closed ps show ?thesis
    by (auto simp: offers_plans_def my_plans_page_def reachable_under reachable_cards split: if_splits)
next
  case False
  obtain ps where ps: "mp_plan_list s = Some ps" using assms by (auto simp: offers_plans_def my_plans_page_def split: option.splits)
  have "ev \<in> set (reachable (last (plan_dialog s @ delete_dialog s)))"
    using assms False ps by (auto simp add: offers_plans_def my_plans_page_def reachable_under simp del: last_append split: if_splits)
  then show ?thesis
  proof (cases "mp_deleteConfirm s")
    case True
    then have "last (plan_dialog s @ delete_dialog s) = last (delete_dialog s)" by (simp add: delete_dialog_def el_dialog_def v_if_def)
    with \<open>ev \<in> set (reachable (last (plan_dialog s @ delete_dialog s)))\<close> True show ?thesis
      by (auto simp: delete_dialog_def el_dialog_def v_if_def)
  next
    case none: False
    then have "delete_dialog s = []" by (simp add: delete_dialog_def)
    with False have "mp_dialogVisible s" by (auto simp: plan_dialog_def)
    moreover have "concat (map reachable (map (\<lambda>(label, v). box [Text label, Text v]) xs)) = ([] :: plans_event list)" for xs
      by (induction xs) auto
    ultimately have "set (reachable (last (plan_dialog s))) \<subseteq> {CloseDetails, ToggleStatus}"
      by (auto simp: plan_dialog_def el_dialog_def v_if_def split: option.splits)
    with \<open>ev \<in> set (reachable (last (plan_dialog s @ delete_dialog s)))\<close> \<open>delete_dialog s = []\<close> \<open>mp_dialogVisible s\<close>
    show ?thesis by auto
  qed
qed

section \<open>Which plan is stopped, started or deleted\<close>

text \<open>
  The list in use: the state, the id of the plan whose dialog was opened last, and the number of
  status requests in flight. With \<open>apart\<close> no exchange of the list overlaps a status request. The server's
  list is never null: the page would not render it and keep the old one on screen.
\<close>

fun chosen_plan :: "plans_event \<Rightarrow> int option \<Rightarrow> int option" where
  "chosen_plan (ViewDetails i p) c = Some (pl_ID p)"
| "chosen_plan (AskDelete p) c = Some (pl_ID p)"
| "chosen_plan ev c = c"

definition sends_status :: "plans_event \<Rightarrow> bool" where
  "sends_status ev \<longleftrightarrow> ev = ToggleStatus \<or> ev = DeleteIt"

inductive plans_use :: "bool \<Rightarrow> my_plans \<Rightarrow> int option \<Rightarrow> nat \<Rightarrow> bool" for apart :: bool where
  plans_start: "\<not> mp_dialogVisible s \<Longrightarrow> \<not> mp_deleteConfirm s \<Longrightarrow> mp_plan_list s \<noteq> None \<Longrightarrow> plans_use apart s None 0"
| plans_event: "plans_use apart s c n \<Longrightarrow> ev \<in> offers_plans s \<Longrightarrow> apart \<and> (\<exists>k. ev = TurnPlans k) \<longrightarrow> n = 0 \<Longrightarrow>
    plans_use apart (fst (plans_handle api token ev s)) (chosen_plan ev c) (if sends_status ev then Suc n else n)"
| plans_status: "plans_use apart s c (Suc n) \<Longrightarrow> plans_use apart (fst (status_reply api token moment_ms a s)) c n"
| plans_listed: "plans_use apart s c n \<Longrightarrow> apart \<longrightarrow> n = 0 \<Longrightarrow> \<forall>k. l \<noteq> RestSuccess (None, k) \<Longrightarrow>
    plans_use apart (out_state (plans_reply moment_ms l s)) c n"
| plans_tick: "plans_use apart s c n \<Longrightarrow> apart \<longrightarrow> n = 0 \<Longrightarrow> plans_use apart (plans_sort_tick s) c n"

text \<open>The page can always be rendered.\<close>

lemma plans_use_rendered: "plans_use apart s c n \<Longrightarrow> mp_plan_list s \<noteq> None"
proof (induction rule: plans_use.induct)
  case (plans_event s c n ev api token)
  then show ?case
    by (cases ev) (auto simp: planSubmit_def deleteAct_def plans_handleClose_def planStatus_def plans_handleCurrentChange_def
        plans_getData_def split: option.splits)
next
  case (plans_status s c n api token moment_ms a)
  then show ?case by (cases a) (auto simp: plans_getData_def)
next
  case (plans_listed s c n l moment_ms)
  show ?case
  proof (cases l)
    case (RestSuccess a)
    obtain ps k where a: "a = (ps, k)" by (cases a)
    show ?thesis using plans_listed.hyps
      by (cases ps) (simp_all add: RestSuccess a plans_reply_def plans_answered_def Let_def)
  qed (use plans_listed.IH in \<open>simp_all add: plans_reply_def plans_answered_def plans_failed_def\<close>)
qed (auto simp: plans_sort_tick_def)

definition plan_aimed :: "my_plans \<Rightarrow> int option \<Rightarrow> nat \<Rightarrow> bool" where
  "plan_aimed s c n \<longleftrightarrow>
     (mp_dialogVisible s \<or> mp_deleteConfirm s \<longrightarrow> (\<exists>p. mp_ruleForm s = Some p \<and> c = Some (pl_ID p))) \<and>
     (0 < n \<longrightarrow> n = 1 \<and> mp_loading s \<and> \<not> mp_dialogVisible s \<and> \<not> mp_deleteConfirm s)"

lemma plans_reply_dialogs:
  "mp_dialogVisible (out_state (plans_reply moment_ms l s)) = mp_dialogVisible s"
  "mp_deleteConfirm (out_state (plans_reply moment_ms l s)) = mp_deleteConfirm s"
  "mp_ruleForm (out_state (plans_reply moment_ms l s)) = mp_ruleForm s"
proof -
  have "mp_dialogVisible (out_state (plans_reply moment_ms l s)) = mp_dialogVisible s \<and>
    mp_deleteConfirm (out_state (plans_reply moment_ms l s)) = mp_deleteConfirm s \<and>
    mp_ruleForm (out_state (plans_reply moment_ms l s)) = mp_ruleForm s"
  proof (cases l)
    case (RestSuccess a)
    obtain ps k where a: "a = (ps, k)" by (cases a)
    show ?thesis by (cases ps) (simp_all add: RestSuccess a plans_reply_def plans_answered_def plans_failed_def Let_def)
  qed (simp_all add: plans_reply_def plans_answered_def plans_failed_def)
  then show "mp_dialogVisible (out_state (plans_reply moment_ms l s)) = mp_dialogVisible s"
    "mp_deleteConfirm (out_state (plans_reply moment_ms l s)) = mp_deleteConfirm s"
    "mp_ruleForm (out_state (plans_reply moment_ms l s)) = mp_ruleForm s" by blast+
qed

lemma plans_event_aims:
  assumes "plan_aimed s c n" "ev \<in> offers_plans s" "(\<exists>k. ev = TurnPlans k) \<longrightarrow> n = 0"
  shows "plan_aimed (fst (plans_handle api token ev s)) (chosen_plan ev c) (if sends_status ev then Suc n else n)"
  using plans_offers [OF assms(2)] assms(1,3)
  by (cases ev) (auto simp: plan_aimed_def sends_status_def planSubmit_def deleteAct_def plans_handleClose_def planStatus_def
      plans_handleCurrentChange_def plans_getData_def split: option.splits)

lemma status_reply_dialogs:
  "mp_dialogVisible (fst (status_reply api token moment_ms a s)) = mp_dialogVisible s"
  "mp_deleteConfirm (fst (status_reply api token moment_ms a s)) = mp_deleteConfirm s"
  by (cases a; simp add: plans_getData_def)+

lemma plans_use_aims:
  assumes "plans_use apart s c n" "apart"
  shows "plan_aimed s c n"
  using assms
proof (induction rule: plans_use.induct)
  case (plans_event s c n ev api token)
  then show ?case by (intro plans_event_aims) auto
next
  case (plans_status s c n api token moment_ms a)
  then have "plan_aimed s c (Suc n)" by simp
  then show ?case by (simp add: plan_aimed_def status_reply_dialogs)
next
  case (plans_listed s c n moment_ms l)
  then show ?case by (simp add: plan_aimed_def plans_reply_dialogs)
qed (simp_all add: plan_aimed_def plans_sort_tick_def)

text \<open>
  C16: the dialogs act on the plan they were opened for. Whatever the user does of what the list offers and
  whatever the server answers, as long as no exchange of the list overlaps a status request: a status
  request is for the plan whose details or deletion was asked for last, and there is one.
\<close>

theorem plan_action_aims_at_chosen:
  assumes "plans_use True s c n" "ev \<in> offers_plans s" "sends_status ev"
  shows "\<exists>p. mp_ruleForm s = Some p \<and> c = Some (pl_ID p) \<and>
    snd (plans_handle api token ev s) = [Request StatusReply (axios_post (api @ ''/minio/backup/update/plan'')
      (JObj [(''BackupPlanId'', JInt (pl_ID p)), (''Status'', JStr (next_status (ev = DeleteIt) p))]) token)]"
proof -
  have "mp_dialogVisible s \<or> mp_deleteConfirm s"
    using plans_offers [OF assms(2)] assms(3) by (auto simp: sends_status_def)
  with plans_use_aims [OF assms(1)] obtain p where "mp_ruleForm s = Some p" "c = Some (pl_ID p)"
    by (auto simp: plan_aimed_def)
  with assms(3) show ?thesis by (auto simp: sends_status_def planStatus_def)
qed

definition listed_plans :: my_plans where
  "listed_plans = my_plans_init\<lparr>mp_plan_list := Some [sample_plan 4 ''Enabled'', sample_plan 5 ''Disabled''],
     mp_parma := \<lparr>pg_limit = 10, pg_offset = 1, pg_total = 12\<rparr>\<rparr>"

lemma click_offered:
  assumes "\<not> mp_dialogVisible s" "\<not> mp_deleteConfirm s" "\<not> mp_loading s" "mp_plan_list s = Some ps" "i < length ps"
  shows "ViewDetails i (ps ! i) \<in> offers_plans s" "AskDelete (ps ! i) \<in> offers_plans s"
  using assms by (auto simp: offers_plans_def my_plans_page_def reachable_under plan_dialog_def delete_dialog_def reachable_cards)

lemma delete_offered:
  assumes "mp_deleteConfirm s" "mp_plan_list s = Some ps"
  shows "DeleteIt \<in> offers_plans s"
proof -
  have "delete_dialog s \<noteq> []" "last (plan_dialog s @ delete_dialog s) = last (delete_dialog s)"
    using assms(1) by (simp_all add: delete_dialog_def el_dialog_def v_if_def)
  with assms show ?thesis
    by (auto simp: offers_plans_def my_plans_page_def reachable_under delete_dialog_def el_dialog_def v_if_def)
qed

theorem plan_action_aims_at_chosen_witness:
  "snd (plans_handle [] [] DeleteIt (deleteAct (sample_plan 5 ''Disabled'') listed_plans))
     = [Request StatusReply (axios_post ''/minio/backup/update/plan'' (JObj [(''BackupPlanId'', JInt 5), (''Status'', JStr ''Deleted'')]) [])]"
proof -
  have fields: "\<not> mp_dialogVisible listed_plans" "\<not> mp_deleteConfirm listed_plans" "\<not> mp_loading listed_plans"
    "mp_plan_list listed_plans = Some [sample_plan 4 ''Enabled'', sample_plan 5 ''Disabled'']"
    by (simp_all add: listed_plans_def my_plans_init_def)
  have "AskDelete (sample_plan 5 ''Disabled'') \<in> offers_plans listed_plans"
    using click_offered(2) [OF fields, of 1] by simp
  from plans_event [OF plans_start [OF fields(1,2)] this] fields(4)
  have run: "plans_use True (deleteAct (sample_plan 5 ''Disabled'') listed_plans) (Some 5) 0"
    by (simp add: sends_status_def sample_plan_def)
  have "DeleteIt \<in> offers_plans (deleteAct (sample_plan 5 ''Disabled'') listed_plans)"
    using fields(4) by (intro delete_offered) (simp_all add: deleteAct_def)
  from plan_action_aims_at_chosen [OF run this, of "[]" "[]"] show ?thesis
    by (simp add: sends_status_def deleteAct_def next_status_def sample_plan_def)
qed

lemma toggle_offered:
  assumes "mp_dialogVisible s" "\<not> mp_deleteConfirm s" "mp_plan_list s = Some ps"
  shows "ToggleStatus \<in> offers_plans s"
proof -
  have "plan_dialog s \<noteq> []" "delete_dialog s = []" using assms(1,2) by (simp_all add: plan_dialog_def delete_dialog_def)
  with assms show ?thesis
    by (auto simp: offers_plans_def my_plans_page_def reachable_under plan_dialog_def el_dialog_def v_if_def
        stop_clickable_def start_clickable_def)
qed

text \<open>
  C33: overlapping exchanges can delete the wrong plan. After a plan was stopped the page is turned; the
  list's timer takes the spinner away, the deletion of another plan is asked for, and the late answer to
  the stop replaces the chosen plan under the open dialog, which does not name it: confirming deletes the
  plan that was stopped.
\<close>

theorem plan_delete_race:
  "\<exists>s. plans_use False s (Some 5) 0 \<and> DeleteIt \<in> offers_plans s \<and>
    snd (plans_handle api token DeleteIt s) = [Request StatusReply (axios_post (api @ ''/minio/backup/update/plan'')
      (JObj [(''BackupPlanId'', JInt 4), (''Status'', JStr ''Deleted'')]) token)]"
proof -
  let ?p4 = "sample_plan 4 ''Enabled''" and ?p5 = "sample_plan 5 ''Disabled''"
  let ?rows = "plan_times num_str ?p4 # [plan_times num_str ?p5]"
  define s1 where "s1 = planSubmit 0 ?p4 listed_plans"
  define s2 where "s2 = fst (planStatus api token ?p4 False s1)"
  define s3 where "s3 = fst (plans_handleCurrentChange api token 2 s2)"
  define s4 where "s4 = plans_sort_tick (out_state (plans_reply num_str (RestSuccess (Some [?p4, ?p5], 12)) s3))"
  define s5 where "s5 = deleteAct (plan_times num_str ?p5) s4"
  define s6 where "s6 = fst (status_reply api token num_str (RestSuccess (sample_plan 4 ''Disabled'')) s5)"
  have f0: "\<not> mp_dialogVisible listed_plans" "\<not> mp_deleteConfirm listed_plans" "\<not> mp_loading listed_plans"
    "mp_plan_list listed_plans = Some [?p4, ?p5]"
    by (simp_all add: listed_plans_def my_plans_init_def)
  have "ViewDetails 0 ?p4 \<in> offers_plans listed_plans" using click_offered(1) [OF f0, of 0] by simp
  from plans_event [OF plans_start [OF f0(1,2)] this] f0(4) have r1: "plans_use False s1 (Some 4) 0"
    by (simp add: s1_def sends_status_def sample_plan_def)
  have f1: "mp_dialogVisible s1" "\<not> mp_deleteConfirm s1" "mp_plan_list s1 = Some [?p4, ?p5]" "mp_ruleForm s1 = Some ?p4"
    using f0 by (simp_all add: s1_def planSubmit_def)
  from plans_event [OF r1 toggle_offered [OF f1(1-3)]] have r2: "plans_use False s2 (Some 4) (Suc 0)"
    by (simp add: s2_def sends_status_def f1(4))
  have f2: "\<not> mp_dialogVisible s2" "\<not> mp_deleteConfirm s2" "mp_plan_list s2 = Some [?p4, ?p5]"
    "mp_parma s2 = \<lparr>pg_limit = 10, pg_offset = 1, pg_total = 12\<rparr>"
    using f1(3) by (simp_all add: s2_def planStatus_def) (simp add: s1_def planSubmit_def listed_plans_def)
  then have "TurnPlans 2 \<in> offers_plans s2"
    using reachable_pagination [of "mp_parma s2" TurnPlans]
    by (auto simp: offers_plans_def my_plans_page_def reachable_under plan_dialog_def delete_dialog_def page_count_def)
  from plans_event [OF r2 this] have "plans_use False s3 (Some 4) (Suc 0)" by (simp add: s3_def sends_status_def)
  then have r4: "plans_use False s4 (Some 4) (Suc 0)" unfolding s4_def by (intro plans_tick plans_listed) simp_all
  have f4: "\<not> mp_dialogVisible s4" "\<not> mp_deleteConfirm s4" "\<not> mp_loading s4" "mp_plan_list s4 = Some ?rows"
    using f2 by (simp_all add: s4_def s3_def plans_sort_tick_def plans_reply_def plans_answered_def Let_def
        plans_handleCurrentChange_def plans_getData_def plan_times_def sample_plan_def)
  have "AskDelete (plan_times num_str ?p5) \<in> offers_plans s4" using click_offered(2) [OF f4, of 1] by simp
  from plans_event [OF r4 this] have "plans_use False s5 (Some 5) (Suc 0)"
    by (simp add: s5_def sends_status_def plan_times_def sample_plan_def)
  then have r6: "plans_use False s6 (Some 5) 0" unfolding s6_def by (rule plans_status)
  have "mp_deleteConfirm s6" "mp_plan_list s6 = Some ?rows" "mp_ruleForm s6 = Some (plan_times num_str (sample_plan 4 ''Disabled''))"
    using f4(4) by (simp_all add: s6_def s5_def deleteAct_def plans_getData_def)
  with r6 delete_offered [OF this(1,2)] show ?thesis
    by (intro exI [of _ s6]) (simp add: planStatus_def next_status_def plan_times_def sample_plan_def)
qed

section \<open>The form of a plan\<close>

datatype form_event =
    TypeName
  | TypePrice
  | TypeDuration
  | PickFrequency string
  | PickVerified string
  | PickFast string
  | Create
  | ConfirmSummary
  | CloseSummary
  | CloseDone
  | ViewPlans

definition form_item :: "string \<Rightarrow> form_event elem list \<Rightarrow> form_event elem" where
  "form_item label es = Node ''el-form-item'' [(''label'', label)] [] es"

definition el_input :: "string \<Rightarrow> form_event \<Rightarrow> form_event elem" where
  "el_input v e = Node ''el-input'' [(''value'', v)] [(''input'', e)] []"

definition yes_no :: "string \<Rightarrow> (string \<Rightarrow> form_event) \<Rightarrow> form_event elem list" where
  "yes_no v pick =
     map (\<lambda>(l, t). Node ''el-radio'' [(''label'', l), (''checked'', if v = l then ''true'' else ''false'')] [(''input'', pick l)] [Text t])
       [(''1'', ''Yes''), (''2'', ''No'')]"

definition plan_form_fields :: "plan_form \<Rightarrow> form_event elem" where
  "plan_form_fields f =
     Node ''el-form'' [] []
       [form_item ''Backup plan name:'' [el_input (pf_name f) TypeName],
        form_item ''Choose your backup frequency:''
          [Node ''el-select'' [(''value'', pf_frequency f)] []
             (map (\<lambda>(v, label). Node ''el-option'' [(''value'', v)] [(''click'', PickFrequency v)] [Text label]) frequencyOptions)],
        form_item ''Price:'' [el_input (pf_price f) TypePrice, Text ''FIL''],
        form_item ''Duration:'' [el_input (pf_duration f) TypeDuration, Text ''Days''],
        form_item ''Verified-Deal:'' (yes_no (pf_verified f) PickVerified),
        form_item ''Fast-Retrival:'' (yes_no (pf_fastRetirval f) PickFast),
        form_item [] [button ''Create'' Create]]"

definition backup_form_page :: "backup_form \<Rightarrow> form_event elem" where
  "backup_form_page s =
     under_dialogs
       (box [box [Text ''Backup Plans'', Text ''Backup Plans''],
             Node ''el-breadcrumb'' [] [] [link ''Backup Plan'' ViewPlans, Text ''Create Backup Plan''],
             v_loading (bf_loading s) (plan_form_fields (bf_ruleForm s))])
       (el_dialog (bf_dialogVisible s) (pf_name (bf_ruleForm s)) CloseSummary
          (map (\<lambda>(label, v). box [Text label, Text v]) (form_summary (bf_ruleForm s)) @ [button ''OK'' ConfirmSummary]) @
        el_dialog (bf_dialogConfirm s) ''Backup Plans'' CloseDone
          [Text ''Your backup has created successfully'', link ''VIEW'' ViewPlans])"

text \<open>What the events do; \<open>typed\<close> is the text of the field that was typed into.\<close>

fun form_handle :: "string \<Rightarrow> string \<Rightarrow> string \<Rightarrow> form_event \<Rightarrow> backup_form \<Rightarrow> backup_form \<times> form_tag cmd list" where
  "form_handle typed api token TypeName s = (s\<lparr>bf_ruleForm := (bf_ruleForm s)\<lparr>pf_name := typed\<rparr>\<rparr>, [])"
| "form_handle typed api token TypePrice s = (s\<lparr>bf_ruleForm := (bf_ruleForm s)\<lparr>pf_price := typed\<rparr>\<rparr>, [])"
| "form_handle typed api token TypeDuration s = (s\<lparr>bf_ruleForm := (bf_ruleForm s)\<lparr>pf_duration := typed\<rparr>\<rparr>, [])"
| "form_handle typed api token (PickFrequency v) s = (s\<lparr>bf_ruleForm := (bf_ruleForm s)\<lparr>pf_frequency := v\<rparr>\<rparr>, [])"
| "form_handle typed api token (PickVerified v) s = (s\<lparr>bf_ruleForm := (bf_ruleForm s)\<lparr>pf_verified := v\<rparr>\<rparr>, [])"
| "form_handle typed api token (PickFast v) s = (s\<lparr>bf_ruleForm := (bf_ruleForm s)\<lparr>pf_fastRetirval := v\<rparr>\<rparr>, [])"
| "form_handle typed api token Create s = plan_submitForm api token s"
| "form_handle typed api token ConfirmSummary s = (plan_confirm s, [])"
| "form_handle typed api token CloseSummary s = (s\<lparr>bf_dialogVisible := False\<rparr>, [])"
| "form_handle typed api token CloseDone s = (s\<lparr>bf_dialogConfirm := False\<rparr>, [])"
| "form_handle typed api token ViewPlans s = (s, [RouterPush (ByName ''my_account_myPlans'')])"

section \<open>Typing into a field with a sanitiser\<close>

text \<open>
  The price and the duration have two handlers: \<open>v-model\<close> takes the field's text on each input, and
  \<open>onkeyup\<close> rewrites the text of the field afterwards, which is no input. A field is the text it shows and
  the value of the form.
\<close>

record text_field =
  tf_shown :: string
  tf_value :: string

definition type_char :: "(string \<Rightarrow> string) \<Rightarrow> char \<Rightarrow> text_field \<Rightarrow> text_field" where
  "type_char sanitise c f = (let t = tf_shown f @ [c] in \<lparr>tf_shown = sanitise t, tf_value = t\<rparr>)"

definition type_text :: "(string \<Rightarrow> string) \<Rightarrow> string \<Rightarrow> text_field \<Rightarrow> text_field" where
  "type_text sanitise cs f = fold (type_char sanitise) cs f"

definition empty_field :: text_field where
  "empty_field = \<lparr>tf_shown = [], tf_value = []\<rparr>"

lemma clean_duration_digits:
  "all_digits ds \<Longrightarrow> ds = [] \<or> hd ds \<noteq> CHR ''0'' \<Longrightarrow> clean_duration ds = ds"
  by (cases ds) (simp_all add: clean_duration_def filter_id_conv all_digits_def)

lemma type_digits:
  assumes "all_digits ds" "ds \<noteq> []" "hd ds \<noteq> CHR ''0''"
  shows "type_text clean_duration ds empty_field = \<lparr>tf_shown = ds, tf_value = ds\<rparr>"
  using assms
proof (induction ds rule: rev_induct)
  case Nil
  then show ?case by simp
next
  case (snoc d ds)
  show ?case
  proof (cases "ds = []")
    case True
    with snoc.prems show ?thesis
      by (simp add: type_text_def type_char_def empty_field_def Let_def clean_duration_digits)
  next
    case False
    with snoc have "type_text clean_duration ds empty_field = \<lparr>tf_shown = ds, tf_value = ds\<rparr>" by simp
    moreover have "clean_duration (ds @ [d]) = ds @ [d]" using snoc.prems by (intro clean_duration_digits) simp_all
    ultimately show ?thesis by (simp add: type_text_def type_char_def Let_def)
  qed
qed

lemma hd_dec_str: "0 < n \<Longrightarrow> hd (dec_str n) \<noteq> CHR ''0''"
proof (induction n rule: dec_str.induct)
  case (1 n)
  show ?case
  proof (cases "n < 10")
    case True
    with 1 have "n \<in> {1, 2, 3, 4, 5, 6, 7, 8, 9}" by auto
    then have "digit_char n \<noteq> CHR ''0''" by (auto simp: digit_char_def)
    with True show ?thesis by (simp add: dec_str.simps [of n])
  next
    case False
    with 1 show ?thesis by (simp add: dec_str.simps [of n])
  qed
qed

text \<open>
  C36: what the form sends is not what it shows. When the last key typed into the duration is not a digit
  the field shows the number before it, but the form keeps the text with that key: if it is no number,
  the rule that asks for 180 days does not object, however few days are shown, and the request asks for a
  duration of \<open>NaN\<close> epochs.
\<close>

theorem typed_letter_is_sent:
  assumes "0 < d" "\<not> is_digit c" "js_Number (dec_str d @ [c]) = NaN"
    and "pf_name (bf_ruleForm s) \<noteq> []" "pf_price (bf_ruleForm s) \<noteq> []"
  defines "f \<equiv> type_text clean_duration (dec_str d @ [c]) empty_field"
  shows "tf_shown f = dec_str d \<and>
    (\<exists>q. requests (snd (plan_submitForm api token (s\<lparr>bf_ruleForm := (bf_ruleForm s)\<lparr>pf_duration := tf_value f\<rparr>\<rparr>))) = [(AddPlanReply, q)] \<and>
       json_get (req_body q) ''Duration'' = JStr ''NaN'')"
proof -
  have digits: "all_digits (dec_str d)" "hd (dec_str d) \<noteq> CHR ''0''"
    using assms(1) by (simp_all add: dec_str_digits hd_dec_str)
  have typed: "type_text clean_duration (dec_str d) empty_field = \<lparr>tf_shown = dec_str d, tf_value = dec_str d\<rparr>"
    using digits by (intro type_digits) simp_all
  have "clean_duration (dec_str d @ [c]) = clean_duration (dec_str d)"
    using assms(2) digits(2) by (cases "dec_str d") (simp_all add: clean_duration_def)
  also have "\<dots> = dec_str d" using digits by (intro clean_duration_digits) simp_all
  finally have f: "f = \<lparr>tf_shown = dec_str d, tf_value = dec_str d @ [c]\<rparr>"
    using typed by (simp add: f_def type_text_def type_char_def Let_def)
  have "validateDuration (dec_str d @ [c]) = None" by (simp add: validateDuration_def assms(3))
  moreover have "epochs_text (dec_str d @ [c]) = ''NaN''" by (simp add: epochs_text_def assms(3))
  ultimately show ?thesis
    using assms(4,5) by (simp add: f plan_submitForm_def plan_rules_def required_def plan_body_def axios_post_def)
qed

theorem typed_letter_is_sent_witness:
  "tf_shown (type_text clean_duration (dec_str 7 @ ''x'') empty_field) = ''7''"
proof -
  have "js_Number ''7x'' = NaN" by code_simp
  moreover have "dec_str 7 = ''7''" by code_simp
  ultimately have "js_Number (dec_str 7 @ [CHR ''x'']) = NaN" by simp
  moreover have "\<not> is_digit CHR ''x''" by (simp add: is_digit_def)
  ultimately show ?thesis
    using typed_letter_is_sent [of 7 "CHR ''x''" "backup_form_init\<lparr>bf_ruleForm := (bf_ruleForm backup_form_init)
        \<lparr>pf_name := ''daily'', pf_price := ''1''\<rparr>\<rparr>"] \<open>dec_str 7 = ''7''\<close> by simp
qed

section \<open>The dashboard\<close>

datatype dashboard_event = OpenCard nat

definition card_view :: "nat \<times> card \<Rightarrow> dashboard_event elem" where
  "card_view ic =
     (case ic of (index, item) \<Rightarrow>
        Node ''el-card'' [] []
          [Text (cd_title item),
           box [Text (''In process jobs: '' @ int_str (cd_inProcessJobs item))],
           box [Text (''Completed jobs: '' @ int_str (cd_completedJobs item))],
           box [Text (''Failed jobs: '' @ int_str (cd_failedJobs item))],
           button (cd_btn item) (OpenCard index)])"

definition dashboard_page :: "dashboard \<Rightarrow> dashboard_event elem" where
  "dashboard_page s =
     box (box [Text ''Dashboard'', Text ''Dashboard''] # map card_view (enumerate 0 [db_backup s, db_rebuild s]))"

lemma dashboard_offers: "reachable (dashboard_page s) = [OpenCard 0, OpenCard 1]"
  by (simp add: dashboard_page_def card_view_def)

end
