(* ===== verification/App_Session.thy ===== *)
theory App_Session
  imports Routing Slide_View File_View Entry_Views Jobs_View Plan_Views
begin

text \<open>
  The application in a browser tab: the storages and the store, the page the router shows
  (\<open>App.vue\<close>, \<open>views/myAccount/index.vue\<close>, \<open>src/router/index.js\<close>), the login page, and the requests for logging in and out that
  are under way. The router calls and the log-out of every handler - of the side bar, the file page, the
  account pages, the frame - are carried out with the guards of theory Routing. What the pages look like inside is
  left open: any state of a page that has a control may be the one on display, and the controls are used with the
  pointer or, under an overlay too, from the keyboard.
\<close>

section \<open>Router calls\<close>

text \<open>
  The path of a navigation by name: that of the record with the name, with the parameter of the details
  page in place of its pattern.
\<close>

definition target_path :: "route_target \<Rightarrow> string option" where
  "target_path t =
     (case t of
        ByPath p \<Rightarrow> Some p
      | ByName nm \<Rightarrow> map_option rt_path (List.find (\<lambda>r. rt_name r = Some nm) flat_routes)
      | ByNameParams nm ps \<Rightarrow>
          (case List.find (\<lambda>r. rt_name r = Some nm) flat_routes of
             None \<Rightarrow> None
           | Some r \<Rightarrow> if rt_path r = detail_prefix @ '':type'' then map_option (\<lambda>v. detail_prefix @ v) (map_of ps ''type'')
                       else Some (rt_path r)))"

definition type_param :: "string \<Rightarrow> string option" where
  "type_param p = (if is_detail p then Some (drop (length detail_prefix) p) else None)"

text \<open>The commands that concern the tab: \<open>push\<close> and \<open>replace\<close> differ in the history only, which is left out.\<close>

datatype nav_cmd = GoTo route_target | LogOut

fun nav_cmds :: "'r cmd list \<Rightarrow> nav_cmd list" where
  "nav_cmds [] = []"
| "nav_cmds (RouterPush t # cs) = GoTo t # nav_cmds cs"
| "nav_cmds (RouterReplace t # cs) = GoTo t # nav_cmds cs"
| "nav_cmds (DispatchFedLogOut # cs) = LogOut # nav_cmds cs"
| "nav_cmds (_ # cs) = nav_cmds cs"

section \<open>The tab\<close>

text \<open>Which log-out buttons have asked the server; the requests are kept with the token they carry.\<close>

datatype logout_from = FromSide | FromPage

text \<open>
  \<open>tb_lost\<close> is a navigation whose redirects never ended. Each login page that is made has a number; its form is kept
  as it was left when another page is shown, since the callbacks of a request read the form of the page that sent it.
\<close>

record tab =
  tb_page :: page
  tb_nav :: nav
  tb_shown :: route
  tb_query :: "(string \<times> string) list"
  tb_lost :: bool
  tb_forms :: "nat \<Rightarrow> login_view"
  tb_entry :: nat
  tb_logins :: "nat list"
  tb_logouts :: "(logout_from \<times> string) list"

text \<open>The tab when the application starts, and the form of the login page made last.\<close>

definition tab_opened :: "string \<Rightarrow> web_storage \<Rightarrow> web_storage \<Rightarrow> tab" where
  "tab_opened host ss ls =
     \<lparr>tb_page = store_init ss ls, tb_nav = idle_nav, tb_shown = blank_route, tb_query = [], tb_lost = False,
      tb_forms = (\<lambda>_. login_view_init host), tb_entry = 0, tb_logins = [], tb_logouts = []\<rparr>"

definition login_form :: "tab \<Rightarrow> login_view" where
  "login_form t = tb_forms t (tb_entry t)"

text \<open>The component of the record is shown; a login page is made anew unless it is on display already.\<close>

definition displays :: "string \<Rightarrow> tab \<Rightarrow> bool" where
  "displays component t \<longleftrightarrow> rt_component (tb_shown t) = Some component"

definition arrive :: "string \<Rightarrow> route \<Rightarrow> (string \<times> string) list \<Rightarrow> nav \<Rightarrow> tab \<Rightarrow> tab" where
  "arrive host r qs n t =
     (let fresh = (rt_component r = Some ''login'' \<and> \<not> displays ''login'' t)
      in t\<lparr>tb_nav := n, tb_shown := r, tb_query := qs,
           tb_forms := (if fresh then (tb_forms t)(Suc (tb_entry t) := login_view_init host) else tb_forms t),
           tb_entry := (if fresh then Suc (tb_entry t) else tb_entry t)\<rparr>)"

definition visit :: "(string \<Rightarrow> route option) \<Rightarrow> string \<Rightarrow> string \<Rightarrow> tab \<Rightarrow> tab" where
  "visit resolve host path t =
     (case navigate resolve (tb_page t) 4 path [] (tb_nav t) of
        None \<Rightarrow> t\<lparr>tb_lost := True\<rparr>
      | Some (r, qs, n) \<Rightarrow> arrive host r qs n t)"

fun steer :: "(string \<Rightarrow> route option) \<Rightarrow> string \<Rightarrow> nav_cmd list \<Rightarrow> tab \<Rightarrow> tab" where
  "steer resolve host [] t = t"
| "steer resolve host (GoTo target # cs) t =
     steer resolve host cs (case target_path target of None \<Rightarrow> t | Some path \<Rightarrow> visit resolve host path t)"
| "steer resolve host (LogOut # cs) t = steer resolve host cs (t\<lparr>tb_page := fst (FedLogOut (tb_page t))\<rparr>)"

section \<open>The login page, and logging out\<close>

definition login_step :: "(string \<Rightarrow> route option) \<Rightarrow> string \<Rightarrow> string \<Rightarrow> string \<Rightarrow> login_event \<Rightarrow> tab \<Rightarrow> tab" where
  "login_step resolve host api typed ev t =
     (case login_handle api typed ev \<lparr>lg_view = login_form t, lg_page = tb_page t\<rparr> of
        (s, cs) \<Rightarrow> steer resolve host (nav_cmds cs)
          (t\<lparr>tb_forms := (tb_forms t)(tb_entry t := lg_view s), tb_page := lg_page s,
             tb_logins := tb_logins t @ map (\<lambda>_. tb_entry t) (requests cs)\<rparr>))"

text \<open>
  An answer works on the form of the page that asked, as it is then, on the page's storages and store, and on the
  router, also when the login page is no longer on display.
\<close>

definition login_back ::
  "(string \<Rightarrow> route option) \<Rightarrow> string \<Rightarrow> (string \<Rightarrow> bool) \<Rightarrow> (int option + login_answer) \<Rightarrow> nat \<Rightarrow> tab \<Rightarrow> tab" where
  "login_back resolve host version_ok a q t =
     (let m = login_reply version_ok a \<lparr>lg_view = tb_forms t q, lg_page = tb_page t\<rparr>
      in steer resolve host (nav_cmds (out_cmds m))
           (t\<lparr>tb_forms := (tb_forms t)(q := lg_view (out_state m)),
              tb_page := lg_page (out_state m), tb_logins := remove1 q (tb_logins t)\<rparr>))"

fun logout_answer :: "logout_from \<Rightarrow> unit rpc_reply \<Rightarrow> page \<Rightarrow> page \<times> nav_cmd list" where
  "logout_answer FromSide r p = map_prod id nav_cmds (discovery_reply r p)"
| "logout_answer FromPage r p = map_prod id nav_cmds (bv_logout_reply r p)"

definition logout_back :: "(string \<Rightarrow> route option) \<Rightarrow> string \<Rightarrow> logout_from \<times> string \<Rightarrow> unit rpc_reply \<Rightarrow> tab \<Rightarrow> tab" where
  "logout_back resolve host q r t =
     (case logout_answer (fst q) r (tb_page t) of
        (p, cs) \<Rightarrow> steer resolve host cs (t\<lparr>tb_page := p, tb_logouts := remove1 q (tb_logouts t)\<rparr>))"

section \<open>Clicks in the frame\<close>

text \<open>Every page but the login page is shown inside the frame.\<close>

definition in_frame :: "route \<Rightarrow> bool" where
  "in_frame r \<longleftrightarrow> rt_component r \<noteq> None \<and> rt_component r \<noteq> Some ''login''"

text \<open>What a control of the frame's children asks of the router, itself and through the frame's listeners.\<close>

definition side_navs :: "string \<Rightarrow> string \<Rightarrow> string \<Rightarrow> side_event \<Rightarrow> slide \<Rightarrow> home \<Rightarrow> nav_cmd list" where
  "side_navs api token typed ev s h =
     (let cs = out_cmds (side_handle api token typed ev s)
      in nav_cmds cs @ nav_cmds (snd (run_events (slide_listener api token) cs h)))"

definition side_asks :: "string \<Rightarrow> string \<Rightarrow> string \<Rightarrow> side_event \<Rightarrow> slide \<Rightarrow> (logout_from \<times> string) list" where
  "side_asks api token typed ev s =
     map (\<lambda>_. (FromSide, token)) (filter (\<lambda>q. fst q = DiscoveryReply) (requests (out_cmds (side_handle api token typed ev s))))"

definition file_navs :: "string \<Rightarrow> string \<Rightarrow> page_env \<Rightarrow> file_event \<Rightarrow> browser_view \<Rightarrow> home \<Rightarrow> nav_cmd list" where
  "file_navs api token env ev v h =
     (let cs = snd (file_click env ev v)
      in nav_cmds cs @ nav_cmds (snd (run_events (page_listener api token None) cs h)))"

definition file_asks :: "page_env \<Rightarrow> file_event \<Rightarrow> browser_view \<Rightarrow> (logout_from \<times> string) list" where
  "file_asks env ev v = map (\<lambda>_. (FromPage, pe_token env)) (filter (\<lambda>q. fst q = LogoutReply) (requests (snd (file_click env ev v))))"

text \<open>
  A control on display is used, with what it asks of the router and which request for a log-out it makes.
  The token of every request is the one in the store.
\<close>

inductive clicked :: "page \<Rightarrow> route \<Rightarrow> nav_cmd list \<Rightarrow> (logout_from \<times> string) list \<Rightarrow> bool" for p :: page and r :: route where
  in_side: "in_frame r \<Longrightarrow> ev \<in> set (operable (slide_page location s)) \<Longrightarrow> token = user_accessToken (user p) \<Longrightarrow>
    clicked p r (side_navs api token typed ev s h) (side_asks api token typed ev s)"
| in_file: "rt_component r = Some ''minio'' \<Longrightarrow> ev \<in> set (operable (file_page front math_log userd about form_visible screen v)) \<Longrightarrow>
    pe_token env = user_accessToken (user p) \<Longrightarrow>
    clicked p r (file_navs api (pe_token env) env ev v h) (file_asks env ev v)"
| new_bucket: "in_frame r \<Longrightarrow> clicked p r (nav_cmds (snd (createHomeBuck path h))) []"
| in_dashboard: "rt_component r = Some ''my_account_dashboard'' \<Longrightarrow> OpenCard index \<in> set (operable (dashboard_page d)) \<Longrightarrow>
    clicked p r (nav_cmds (dashboard_link index)) []"
| in_details: "rt_component r = Some ''my_account_dashboard_detail'' \<Longrightarrow> ev \<in> set (operable (details_page param jd)) \<Longrightarrow>
    clicked p r (nav_cmds (snd (details_handle copied api (user_accessToken (user p)) ev jd))) []"
| in_jobs: "rt_component r = Some ''myJobs'' \<Longrightarrow> ev \<in> set (operable (my_jobs_page mj)) \<Longrightarrow>
    clicked p r (nav_cmds (snd (my_jobs_handle copied api (user_accessToken (user p)) ev mj))) []"
| in_plans: "rt_component r = Some ''myPlans'' \<Longrightarrow> my_plans_page mp = Some pl \<Longrightarrow> ev \<in> set (operable pl) \<Longrightarrow>
    clicked p r (nav_cmds (snd (plans_handle api (user_accessToken (user p)) ev mp))) []"
| in_form: "rt_component r = Some ''backupPlans'' \<Longrightarrow> ev \<in> set (operable (backup_form_page bf)) \<Longrightarrow>
    clicked p r (nav_cmds (snd (form_handle typed api (user_accessToken (user p)) ev bf))) []"

section \<open>The tab in use\<close>

text \<open>
  The application is started with storages, an address is entered or the history used, the page is
  reloaded, the controls of the login page and of the others are used, and the server answers: logins with a token
  that is not empty, log-outs, and the frame's list of buckets, whose refusal ends the session.
\<close>

inductive tab_use :: "(string \<Rightarrow> route option) \<Rightarrow> string \<Rightarrow> tab \<Rightarrow> bool" for resolve :: "string \<Rightarrow> route option" and host :: string where
  tab_starts: "session_consistent (store_init ss ls) \<Longrightarrow> tab_use resolve host (visit resolve host path (tab_opened host ss ls))"
| tab_visits: "tab_use resolve host t \<Longrightarrow> tab_use resolve host (visit resolve host path t)"
| tab_reloads: "tab_use resolve host t \<Longrightarrow>
    tab_use resolve host (visit resolve host path (tab_opened host (session (tb_page t)) (local (tb_page t))))"
| tab_logs_in: "tab_use resolve host t \<Longrightarrow> displays ''login'' t \<Longrightarrow> ev \<in> set (operable (login_page (login_form t))) \<Longrightarrow>
    tab_use resolve host (login_step resolve host api typed ev t)"
| tab_logged_in: "tab_use resolve host t \<Longrightarrow> q \<in> set (tb_logins t) \<Longrightarrow> (\<forall>res. accepted_login a = Some res \<longrightarrow> res_token res \<noteq> []) \<Longrightarrow>
    tab_use resolve host (login_back resolve host version_ok a q t)"
| tab_clicks: "tab_use resolve host t \<Longrightarrow> clicked (tb_page t) (tb_shown t) cs ls \<Longrightarrow>
    tab_use resolve host (steer resolve host cs (t\<lparr>tb_logouts := tb_logouts t @ ls\<rparr>))"
| tab_logged_out: "tab_use resolve host t \<Longrightarrow> q \<in> set (tb_logouts t) \<Longrightarrow> tab_use resolve host (logout_back resolve host q r t)"
| tab_buckets: "tab_use resolve host t \<Longrightarrow>
    tab_use resolve host (steer resolve host (nav_cmds (out_cmds (buckets_reply api token name a h))) t)"

section \<open>Only answers log out\<close>

lemma nav_cmds_append [simp]: "nav_cmds (cs @ ds) = nav_cmds cs @ nav_cmds ds"
  by (induction cs rule: nav_cmds.induct) simp_all

lemma nav_cmds_dom [simp]: "nav_cmds (map DomCall xs) = []"
  by (induction xs) simp_all

lemma nav_cmds_toasts [simp]: "nav_cmds (replicate n (Toast t m)) = []"
  by (induction n) simp_all

lemma nav_cmds_set: "LogOut \<in> set (nav_cmds cs) \<longleftrightarrow> DispatchFedLogOut \<in> set cs"
  by (induction cs rule: nav_cmds.induct) simp_all

lemma run_events_stays:
  assumes "\<And>e args h m. listen e args h = Some m \<Longrightarrow> DispatchFedLogOut \<notin> set (out_cmds m)"
  shows "DispatchFedLogOut \<notin> set (snd (run_events listen cs h))"
  using assms
proof (induction listen cs h rule: run_events.induct)
  case (2 listen e args cs h)
  show ?case
  proof (cases "listen e args h")
    case None
    with 2 show ?thesis by simp
  next
    case (Some m)
    with 2 show ?thesis by (auto simp: Let_def case_prod_unfold)
  qed
qed simp_all

lemma list_objects_stays: "DispatchFedLogOut \<notin> set (out_cmds (getListObjects api token name pre h))"
  by (auto simp: getListObjects_def home_post_def Let_def split: option.split)

lemma bucket_stays: "DispatchFedLogOut \<notin> set (out_cmds (getminioListBucket api token name d sl p h))"
  using list_objects_stays [of api token name "[]" h]
  by (cases "getListObjects api token name [] h") (auto simp: getminioListBucket_def Let_def)

lemma listeners_stay:
  "slide_listener api token e args h = Some m \<Longrightarrow> DispatchFedLogOut \<notin> set (out_cmds m)"
  "page_listener api token data e args h = Some m \<Longrightarrow> DispatchFedLogOut \<notin> set (out_cmds m)"
  by (auto simp: slide_listener_def page_listener_def bucket_stays list_objects_stays getListBuckets_def getMakeBucket_def home_post_def
      split: if_splits prod.splits)

lemma side_stays_in: "DispatchFedLogOut \<notin> set (out_cmds (side_handle api token typed ev s))"
proof (cases ev)
  case (EditPolicy name i)
  then show ?thesis
    by (auto simp: side_handle_def Let_def dialogFun_def getListAllBucketPolicies_def slide_post_def split: option.split)
next
  case AddPolicy
  obtain cs where "addPolicies api token s = (s, cs)" "(\<exists>n t m. cs = replicate n (Toast t m)) \<or> (\<exists>t q. cs = [Request t q])"
    using addPolicies_state by blast
  then show ?thesis by (auto simp: AddPolicy side_handle_def Let_def caozuoFun_def)
qed (simp_all add: side_handle_def Let_def caozuoFun_def menuToggleStreth_def getListBucket_def backupFun_def retrievalFun_def
    dialogDeleteFun_def slide_logout_def slide_post_def removePolicies_def)

lemma file_handle_stays_in: "DispatchFedLogOut \<notin> set (out_cmds (file_handle env ev v))"
proof (cases ev)
  case FullScreen
  have "\<exists>xs. snd (handleFullScreen (pe_available env) v) = map DomCall xs" unfolding handleFullScreen_def Let_def snd_conv by blast
  then obtain xs where "snd (handleFullScreen (pe_available env) v) = map DomCall xs" by blast
  then show ?thesis by (cases "handleFullScreen (pe_available env) v") (auto simp: FullScreen)
next
  case (RowMenu i)
  then show ?thesis using subsetD [OF actClient_frame(3) [of i True v], of DispatchFedLogOut] by auto
next
  case (MarkRow i now)
  then show ?thesis by (simp add: drawPlay_def Let_def case_prod_unfold)
next
  case (ShareObject i)
  then show ?thesis by (simp add: shareBtn_def getPresignedGet_def bv_post_def split: option.split)
next
  case ChangeExpiry
  then show ?thesis by (simp add: getPresignedGet_def bv_post_def split: option.split)
next
  case ConfirmDelete
  then show ?thesis by (auto simp: deleteListFun_def getRemoveObject_def bv_post_def)
next
  case (CopyCid cid)
  then show ?thesis by (simp add: copyLink_def)
qed (simp_all add: buckerAdress_def emit_list_def editFun_def exChange_def tableJson_def bv_post_def bv_logout_def Let_def curListFolder_def
    downloadFun_def bv_getDialogClose_def)

lemma file_stays_in: "DispatchFedLogOut \<notin> set (snd (file_click env ev v))"
  using file_handle_stays_in [of env ev v] subsetD [OF actClient_frame(3) [of 0 False "out_state (file_handle env ev v)"], of DispatchFedLogOut]
  by (auto simp: file_click_def Let_def)

lemma clicked_stays_in:
  assumes "clicked p r cs ls"
  shows "LogOut \<notin> set cs"
  using assms
proof cases
  case (in_side ev location s token api typed h)
  then show ?thesis
    using side_stays_in run_events_stays [of "slide_listener api token", OF listeners_stay(1)]
    by (simp add: side_navs_def Let_def nav_cmds_set)
next
  case (in_file ev front math_log userd about form_visible screen v env api h)
  then show ?thesis
    using file_stays_in run_events_stays [of "page_listener api (pe_token env) None", OF listeners_stay(2)]
    by (simp add: file_navs_def Let_def nav_cmds_set)
next
  case (in_details ev param jd copied api)
  then show ?thesis
    by (cases ev) (simp_all add: nav_cmds_set rebuild_confirm_def copyTextToClipboard_def details_backupChange_def
        details_rebuildChange_def details_getData_def volume_request_def rebuild_request_def)
next
  case (in_jobs ev mj copied api)
  then show ?thesis
    by (cases ev) (simp_all add: nav_cmds_set my_jobs_confirm_def my_jobs_copy_def Let_def jobs_backupChange_def
        jobs_rebuildChange_def jobs_getData_def volume_request_def rebuild_request_def split: option.split bool.split)
next
  case (in_plans mp pl ev api)
  then show ?thesis
    by (cases ev) (simp_all add: nav_cmds_set plans_handleCurrentChange_def plans_getData_def planStatus_def split: option.split)
next
  case (in_form ev bf typed api)
  then show ?thesis by (cases ev) (simp_all add: nav_cmds_set plan_submitForm_def)
qed (simp_all add: createHomeBuck_def dashboard_link_def nav_cmds_set)

section \<open>What every use keeps\<close>

definition holds_token :: "page \<Rightarrow> bool" where
  "holds_token p \<longleftrightarrow> truthy_item (session p) ''fs3MinioLoginAccessToken''"

text \<open>
  The storages agree with the store, navigations have ended; and, once the router calls of an event are done, the
  file page is on display only with a token.
\<close>

definition settled :: "tab \<Rightarrow> bool" where
  "settled t \<longleftrightarrow> session_consistent (tb_page t) \<and> user_synced (tb_page t) \<and> \<not> tb_lost t \<and> \<not> nav_progress (tb_nav t)"

definition guarded :: "tab \<Rightarrow> bool" where
  "guarded t \<longleftrightarrow> (displays ''minio'' t \<longrightarrow> holds_token (tb_page t))"

lemma minio_is_fs3: "r \<in> set (blank_route # flat_routes) \<Longrightarrow> rt_component r = Some ''minio'' \<Longrightarrow> rt_name r = Some ''fs3''"
  by (auto simp: flat_routes_def routes_def blank_route_def)

lemma visit_keeps:
  assumes "documented_matching resolve" "settled t"
  shows "settled (visit resolve host path t) \<and> guarded (visit resolve host path t) \<and> tb_page (visit resolve host path t) = tb_page t"
proof -
  have "session_consistent (tb_page t)" using assms(2) by (simp add: settled_def)
  from navigate_settles [OF assms(1) this, of 0 path "[]" "tb_nav t"]
  obtain r qs n where nav: "navigate resolve (tb_page t) 4 path [] (tb_nav t) = Some (r, qs, n)"
    by (auto simp: numeral_eq_Suc simp del: navigate.simps)
  then have "r \<in> set (blank_route # flat_routes)" using navigate_arrival [OF assms(1)] by blast
  then show ?thesis
    using navigate_guarded [OF assms(1) nav] minio_is_fs3 [of r] assms(2)
    by (auto simp: visit_def nav arrive_def Let_def settled_def guarded_def displays_def holds_token_def simp del: truthy_item_eq)
qed

lemma steer_keeps:
  assumes "documented_matching resolve"
  shows "settled t \<Longrightarrow> guarded t \<Longrightarrow> LogOut \<notin> set cs \<Longrightarrow>
    settled (steer resolve host cs t) \<and> guarded (steer resolve host cs t)"
proof (induction cs arbitrary: t)
  case (Cons c cs)
  then show ?case
    by (cases c) (auto simp: visit_keeps [OF assms] split: option.split)
qed simp

lemma logged_out_page:
  "session_consistent (fst (FedLogOut p))" "user_synced (fst (FedLogOut p))" "\<not> holds_token (fst (FedLogOut p))"
  "\<not> truthy_item (session (fst (FedLogOut p))) ''oaxLoginUserId''"
proof -
  have out: "\<not> truthy_item (session (fst (FedLogOut p))) k" if "k \<in> set fed_logout_keys" for k
    using that fed_logout_session [of p k] by (simp add: truthy_item_def del: truthy_item_eq)
  then show "\<not> truthy_item (session (fst (FedLogOut p))) ''oaxLoginUserId''" "\<not> holds_token (fst (FedLogOut p))"
    by (simp_all add: fed_logout_keys_def holds_token_def del: truthy_item_eq)
  then show "session_consistent (fst (FedLogOut p))" by (simp add: session_consistent_def del: truthy_item_eq)
  show "user_synced (fst (FedLogOut p))" by (rule fed_logout_synced)
qed

lemma log_out_keeps:
  assumes "documented_matching resolve" "settled t" "target_path target = Some path"
  shows "settled (steer resolve host [LogOut, GoTo target] t) \<and> guarded (steer resolve host [LogOut, GoTo target] t)"
proof -
  have "settled (t\<lparr>tb_page := fst (FedLogOut (tb_page t))\<rparr>)" using assms(2) by (simp add: settled_def logged_out_page)
  from visit_keeps [OF assms(1) this] assms(3) show ?thesis by simp
qed

lemma login_target: "target_path (ByName ''login'') = Some ''/fs3/login''" "target_path (ByName ''fs3'') = Some ''/fs3''"
  by (simp_all add: target_path_def flat_routes_def routes_def)

lemma login_handle_facts:
  "lg_page (fst (login_handle api typed ev s)) = lg_page s" "LogOut \<notin> set (nav_cmds (snd (login_handle api typed ev s)))"
  by (cases ev; simp add: login_submitForm_def)+

text \<open>An answer to a login: nothing but the form changes, or the token is stored and the router called.\<close>

lemma login_reply_cases:
  obtains (none) "lg_page (out_state (login_reply version_ok a s)) = lg_page s"
      "nav_cmds (out_cmds (login_reply version_ok a s)) = []" "accepted_login a = None"
  | (some) res where "accepted_login a = Some res" "lg_page (out_state (login_reply version_ok a s)) = store_login (lg_view s) (res_token res) (lg_page s)"
      "nav_cmds (out_cmds (login_reply version_ok a s)) = [GoTo (ByName ''fs3'')]"
proof (cases "accepted_login a")
  case None
  then show thesis
    by (intro none) (auto simp: accepted_login_def login_reply_def login_answered_def login_failed_def currentUiVersion_def
      split: sum.splits if_splits option.splits)
next
  case (Some res)
  then show thesis
    by (intro some [of res]) (auto simp: accepted_login_def login_reply_def login_answered_def currentUiVersion_def
      split: sum.splits if_splits)
qed

lemma stored_login:
  assumes "token \<noteq> []" "session_consistent p"
  shows "session_consistent (store_login v token p)" "user_synced (store_login v token p)" "holds_token (store_login v token p)"
  using assms by (simp_all add: store_login_def session_consistent_def user_synced_def stored_or_id setItem_def getItem_def holds_token_def)

lemma logout_answer_cases:
  "logout_answer src r p = (fst (FedLogOut p), [LogOut, GoTo (ByName ''login'')]) \<and> rpc_ok r \<or> logout_answer src r p = (p, []) \<and> \<not> rpc_ok r"
  by (cases src; cases r) simp_all

lemma buckets_navs:
  "nav_cmds (out_cmds (buckets_reply api token name a h)) \<in> {[], [LogOut, GoTo (ByPath ''/fs3/login'')]}"
proof -
  have lists: "\<exists>m. out_cmds (getListObjects api token n pre h) = [] \<or> (\<exists>t q. out_cmds (getListObjects api token n pre h) = [Request t q])" for n pre h
    by (auto simp: getListObjects_def home_post_def Let_def split: option.split)
  have none: "nav_cmds (out_cmds (getListObjects api token n pre h)) = []" for n pre h
    using lists [of n pre h] by auto
  show ?thesis
  proof (cases a)
    case (Inl status)
    then show ?thesis by (simp add: buckets_reply_def buckets_failed_def)
  next
    case (Inr ans)
    have "nav_cmds (out_cmds (buckets_answered api token name ans h)) = []"
      by (auto simp: buckets_answered_def Let_def none split: sum.split option.split list.split)
    moreover have "nav_cmds (out_cmds (settle f g (Inr ans) h)) = nav_cmds (out_cmds (f ans h))"
      if "\<And>e s. out_cmds (g (Threw e) s) = []" for f and g :: "rejection \<Rightarrow> home \<Rightarrow> (home, home_cmd) outcome"
    proof (cases "f ans h")
      case (Throws e s' cs)
      then show ?thesis using that [of e s'] by (cases "g (Threw e) s'") simp_all
    qed simp
    ultimately show ?thesis by (simp add: Inr buckets_reply_def buckets_failed_def)
  qed
qed

lemma opened_settled: "session_consistent (store_init ss ls) \<Longrightarrow> settled (tab_opened host ss ls)"
  by (simp add: settled_def tab_opened_def store_init_synced idle_nav_def)

lemma reopened_settled: "settled t \<Longrightarrow> settled (tab_opened host (session (tb_page t)) (local (tb_page t)))"
  by (rule opened_settled) (simp add: settled_def session_consistent_def store_init_def)

lemma login_step_keeps:
  assumes "documented_matching resolve" "settled t" "guarded t"
  shows "settled (login_step resolve host api typed ev t) \<and> guarded (login_step resolve host api typed ev t)"
proof -
  let ?r = "login_handle api typed ev \<lparr>lg_view = login_form t, lg_page = tb_page t\<rparr>"
  let ?t = "t\<lparr>tb_forms := (tb_forms t)(tb_entry t := lg_view (fst ?r)), tb_page := lg_page (fst ?r),
    tb_logins := tb_logins t @ map (\<lambda>_. tb_entry t) (requests (snd ?r))\<rparr>"
  have "settled ?t" "guarded ?t" using assms(2,3) by (simp_all add: login_handle_facts settled_def guarded_def displays_def)
  then show ?thesis unfolding login_step_def case_prod_unfold by (rule steer_keeps [OF assms(1)]) (rule login_handle_facts)
qed

lemma login_back_keeps:
  assumes "documented_matching resolve" "settled t" "guarded t" "\<And>res. accepted_login a = Some res \<Longrightarrow> res_token res \<noteq> []"
  shows "settled (login_back resolve host version_ok a q t) \<and> guarded (login_back resolve host version_ok a q t)"
proof -
  let ?s = "\<lparr>lg_view = tb_forms t q, lg_page = tb_page t\<rparr>"
  let ?m = "login_reply version_ok a ?s"
  let ?t = "t\<lparr>tb_forms := (tb_forms t)(q := lg_view (out_state ?m)),
              tb_page := lg_page (out_state ?m), tb_logins := remove1 q (tb_logins t)\<rparr>"
  have "settled ?t \<and> guarded ?t \<and> LogOut \<notin> set (nav_cmds (out_cmds ?m))"
  proof (cases rule: login_reply_cases [of version_ok a ?s])
    case none
    with assms(2,3) show ?thesis by (simp add: settled_def guarded_def displays_def)
  next
    case (some res)
    with assms(2) stored_login [OF assms(4), of res "tb_page t"] show ?thesis by (simp add: settled_def guarded_def)
  qed
  then show ?thesis unfolding login_back_def Let_def by (intro steer_keeps [OF assms(1)]) simp_all
qed

lemma logout_back_keeps:
  assumes "documented_matching resolve" "settled t" "guarded t"
  shows "settled (logout_back resolve host q r t) \<and> guarded (logout_back resolve host q r t)"
proof -
  let ?t = "t\<lparr>tb_logouts := remove1 q (tb_logouts t)\<rparr>"
  have t: "settled ?t" "guarded ?t" using assms(2,3) by (simp_all add: settled_def guarded_def displays_def)
  from logout_answer_cases [of "fst q" r "tb_page t"] show ?thesis
  proof (elim disjE conjE)
    assume eq: "logout_answer (fst q) r (tb_page t) = (fst (FedLogOut (tb_page t)), [LogOut, GoTo (ByName ''login'')])"
    let ?u = "t\<lparr>tb_page := fst (FedLogOut (tb_page t)), tb_logouts := remove1 q (tb_logouts t)\<rparr>"
    have "settled ?u" using assms(2) by (simp add: settled_def logged_out_page)
    from log_out_keeps [OF assms(1) this login_target(1)] show ?thesis by (simp add: logout_back_def eq del: steer.simps)
  next
    assume "logout_answer (fst q) r (tb_page t) = (tb_page t, [])"
    with t show ?thesis by (simp add: logout_back_def)
  qed
qed

lemma tab_use_keeps:
  assumes "documented_matching resolve" "tab_use resolve host t"
  shows "settled t \<and> guarded t"
  using assms(2)
proof (induction rule: tab_use.induct)
  case (tab_starts ss ls path)
  then show ?case using visit_keeps [OF assms(1) opened_settled] by blast
next
  case (tab_visits t path)
  then show ?case using visit_keeps [OF assms(1)] by blast
next
  case (tab_reloads t path)
  then show ?case using visit_keeps [OF assms(1) reopened_settled] by blast
next
  case (tab_logs_in t ev api typed)
  then show ?case using login_step_keeps [OF assms(1)] by blast
next
  case (tab_logged_in t q a version_ok)
  then show ?case using login_back_keeps [OF assms(1)] by blast
next
  case (tab_clicks t cs ls)
  then show ?case
    by (intro steer_keeps [OF assms(1) _ _ clicked_stays_in]) (auto simp: settled_def guarded_def displays_def)
next
  case (tab_logged_out t q r)
  then show ?case using logout_back_keeps [OF assms(1)] by blast
next
  case (tab_buckets t api token name a h)
  have "settled (steer resolve host [] t) \<and> guarded (steer resolve host [] t)" using tab_buckets.IH by simp
  moreover have "settled (steer resolve host [LogOut, GoTo (ByPath ''/fs3/login'')] t) \<and>
      guarded (steer resolve host [LogOut, GoTo (ByPath ''/fs3/login'')] t)"
    using tab_buckets.IH by (intro log_out_keeps [OF assms(1)]) (simp_all add: target_path_def)
  ultimately show ?case using buckets_navs [of api token name a h] by (auto simp del: steer.simps)
qed

text \<open>
  C1: In every use of the application that starts with a consistent session (whoever has a user id has a token) and in
  which no accepted login brings an empty token - addresses entered, pages reloaded, every
  control of every page on display, and all the answers in any order - no navigation gets lost in redirects, the
  progress bar is finished, and whenever the file page is on display there is a token, which is not empty, and the one
  in the store, which every request carries, is the one in session storage.
\<close>

theorem file_page_has_session:
  assumes "documented_matching resolve" "tab_use resolve host t"
  shows "\<not> tb_lost t \<and> \<not> nav_progress (tb_nav t) \<and>
    (displays ''minio'' t \<longrightarrow>
      (\<exists>token. token \<noteq> [] \<and> getItem (session (tb_page t)) ''fs3MinioLoginAccessToken'' = Some token \<and> user_accessToken (user (tb_page t)) = token))"
  using tab_use_keeps [OF assms]
  by (auto simp: settled_def guarded_def holds_token_def user_synced_def stored_or_id getItem_def)

text \<open>Where a visit ends, by what the session holds.\<close>

lemma visit_login:
  assumes "documented_matching resolve" "\<not> truthy_item (session (tb_page t)) ''oaxLoginUserId''"
  shows "displays ''login'' (visit resolve host ''/fs3/login'' t)" "tb_page (visit resolve host ''/fs3/login'' t) = tb_page t"
    "tb_logouts (visit resolve host ''/fs3/login'' t) = tb_logouts t" "tb_logins (visit resolve host ''/fs3/login'' t) = tb_logins t"
    "\<not> displays ''login'' t \<Longrightarrow> login_form (visit resolve host ''/fs3/login'' t) = login_view_init host"
proof -
  obtain n where "navigate resolve (tb_page t) 4 ''/fs3/login'' [] (tb_nav t) = Some (login_record, [], n)"
    using navigate_login [OF assms, of 3 "[]" "tb_nav t"] by (auto simp: numeral_eq_Suc simp del: navigate.simps)
  then show "displays ''login'' (visit resolve host ''/fs3/login'' t)" "tb_page (visit resolve host ''/fs3/login'' t) = tb_page t"
    "tb_logouts (visit resolve host ''/fs3/login'' t) = tb_logouts t" "tb_logins (visit resolve host ''/fs3/login'' t) = tb_logins t"
    "\<not> displays ''login'' t \<Longrightarrow> login_form (visit resolve host ''/fs3/login'' t) = login_view_init host"
    by (simp_all add: visit_def arrive_def Let_def displays_def login_form_def login_record_def)
qed

lemma visit_fs3:
  assumes "documented_matching resolve" "session_consistent (tb_page t)" "holds_token (tb_page t)"
  shows "displays ''minio'' (visit resolve host ''/fs3'' t)" "tb_page (visit resolve host ''/fs3'' t) = tb_page t"
    "tb_logouts (visit resolve host ''/fs3'' t) = tb_logouts t"
proof -
  obtain n where "navigate resolve (tb_page t) 4 ''/fs3'' [] (tb_nav t) = Some (fs3_record, [], n)"
    using navigate_fs3 [OF assms(1,2), of 2 "[]" "tb_nav t"] assms(3)
    by (auto simp: numeral_eq_Suc holds_token_def simp del: navigate.simps truthy_item_eq)
  then show "displays ''minio'' (visit resolve host ''/fs3'' t)" "tb_page (visit resolve host ''/fs3'' t) = tb_page t"
    "tb_logouts (visit resolve host ''/fs3'' t) = tb_logouts t"
    by (simp_all add: visit_def arrive_def Let_def displays_def fs3_record_def)
qed

section \<open>Logging out\<close>

text \<open>The icon of the log-out in the side bar: a link to the login page inside the element that asks the server.\<close>

definition side_logout :: "(string \<Rightarrow> route option) \<Rightarrow> string \<Rightarrow> string \<Rightarrow> slide \<Rightarrow> home \<Rightarrow> tab \<Rightarrow> tab" where
  "side_logout resolve host api s h t =
     (let token = user_accessToken (user (tb_page t))
      in steer resolve host (side_navs api token [] (SideLogout True) s h)
           (t\<lparr>tb_logouts := tb_logouts t @ side_asks api token [] (SideLogout True) s\<rparr>))"

lemma side_logout_eq:
  "side_logout resolve host api s h t = visit resolve host ''/fs3/login'' (t\<lparr>tb_logouts := tb_logouts t @ [(FromSide, user_accessToken (user (tb_page t)))]\<rparr>)"
  by (simp add: side_logout_def side_navs_def side_asks_def side_handle_def Let_def slide_logout_def slide_post_def caozuoFun_def target_path_def)

lemma side_logout_use:
  assumes "tab_use resolve host t" "in_frame (tb_shown t)" "SideLogout True \<in> set (reachable (slide_page location s))"
  shows "tab_use resolve host (side_logout resolve host api s h t)"
  unfolding side_logout_def Let_def
  by (intro tab_clicks [OF assms(1)] in_side [OF assms(2) subsetD [OF reachable_operable assms(3)] refl])

text \<open>
  C28: The login page is no proof of a log-out. A click on the log-out icon of the side bar shows the login page at once, with
  the session untouched; when the server then refuses the request, or it fails, the login page stays and
  nothing else changes: the address of the file page opens it, with the old token, without a login.
\<close>

theorem refused_logout_shows_login:
  assumes "documented_matching resolve" "tab_use resolve host t" "in_frame (tb_shown t)" "holds_token (tb_page t)"
    and "\<not> truthy_item (session (tb_page t)) ''oaxLoginUserId''" "\<not> rpc_ok r"
    and "t1 = side_logout resolve host api s h t" "t2 = logout_back resolve host (FromSide, token) r t1"
  shows "displays ''login'' t1 \<and> displays ''login'' t2 \<and> tb_page t2 = tb_page t \<and>
    displays ''minio'' (visit resolve host ''/fs3'' t2) \<and>
    user_accessToken (user (tb_page (visit resolve host ''/fs3'' t2))) = user_accessToken (user (tb_page t))"
proof -
  let ?t = "t\<lparr>tb_logouts := tb_logouts t @ [(FromSide, user_accessToken (user (tb_page t)))]\<rparr>"
  have t1: "displays ''login'' t1" "tb_page t1 = tb_page t"
    using visit_login [OF assms(1), of ?t] assms(5) by (simp_all add: assms(7) side_logout_eq del: truthy_item_eq)
  have "logout_answer FromSide r (tb_page t1) = (tb_page t1, [])" using logout_answer_cases [of FromSide r "tb_page t1"] assms(6) by auto
  then have t2: "displays ''login'' t2" "tb_page t2 = tb_page t"
    using t1 by (simp_all add: assms(8) logout_back_def displays_def)
  moreover have "session_consistent (tb_page t2)" "holds_token (tb_page t2)"
    using tab_use_keeps [OF assms(1,2)] assms(4) by (simp_all add: t2 settled_def)
  ultimately show ?thesis using t1 visit_fs3 [OF assms(1), of t2 host] by simp
qed

text \<open>A tab opened with a token, on the file page.\<close>

definition open_tab :: tab where
  "open_tab = visit table_resolve ''host'' ''/fs3'' (tab_opened ''host'' [''fs3MinioLoginAccessToken'' \<mapsto> ''t''] Map.empty)"

lemma open_tab_facts:
  "tab_use table_resolve ''host'' open_tab" "displays ''minio'' open_tab"
  "tb_page open_tab = store_init [''fs3MinioLoginAccessToken'' \<mapsto> ''t''] Map.empty" "tb_logins open_tab = []" "tb_logouts open_tab = []"
proof -
  let ?t = "tab_opened ''host'' [''fs3MinioLoginAccessToken'' \<mapsto> ''t''] Map.empty"
  have ok: "session_consistent (tb_page ?t)" "holds_token (tb_page ?t)"
    by (simp_all add: tab_opened_def store_init_def session_consistent_def holds_token_def)
  then show "tab_use table_resolve ''host'' open_tab" unfolding open_tab_def by (intro tab_starts) (simp add: tab_opened_def)
  show "displays ''minio'' open_tab" "tb_page open_tab = store_init [''fs3MinioLoginAccessToken'' \<mapsto> ''t''] Map.empty"
    "tb_logouts open_tab = []"
    using visit_fs3 [OF table_resolve_documented ok] by (simp_all add: open_tab_def tab_opened_def)
  show "tb_logins open_tab = []"
    by (simp add: open_tab_def visit_def tab_opened_def arrive_def Let_def split: option.split prod.split del: navigate.simps)
qed

theorem file_page_has_session_witness:
  "\<not> tb_lost open_tab \<and>
    (\<exists>token. token \<noteq> [] \<and> getItem (session (tb_page open_tab)) ''fs3MinioLoginAccessToken'' = Some token \<and> user_accessToken (user (tb_page open_tab)) = token)"
  using file_page_has_session [OF table_resolve_documented open_tab_facts(1)] open_tab_facts(2) by blast

lemma open_tab_session:
  "in_frame (tb_shown open_tab)" "holds_token (tb_page open_tab)" "\<not> truthy_item (session (tb_page open_tab)) ''oaxLoginUserId''"
  using open_tab_facts(2) by (simp_all add: in_frame_def displays_def holds_token_def open_tab_facts(3) store_init_def)

theorem refused_logout_shows_login_witness:
  "displays ''login'' (logout_back table_resolve ''host'' (FromSide, ''t'') (RpcFailure None) (side_logout table_resolve ''host'' [] slide_init home_init open_tab)) \<and>
   displays ''minio'' (visit table_resolve ''host'' ''/fs3''
     (logout_back table_resolve ''host'' (FromSide, ''t'') (RpcFailure None) (side_logout table_resolve ''host'' [] slide_init home_init open_tab)))"
  using refused_logout_shows_login [OF table_resolve_documented open_tab_facts(1) open_tab_session, of "RpcFailure None" _ "[]" slide_init home_init] by simp

text \<open>
  C29: A late log-out ends the next session. The login page is in reach while the log-out icon's request is under way; who
  logs in there gets the file page with the new token, and when the answer to the request of the old session
  arrives, the new token is thrown away and the login page is shown again.
\<close>

theorem late_logout_ends_new_session:
  "\<exists>t. tab_use table_resolve ''host'' t \<and> displays ''minio'' t \<and> user_accessToken (user (tb_page t)) = ''new'' \<and>
    (FromSide, ''t'') \<in> set (tb_logouts t) \<and>
    (let t' = logout_back table_resolve ''host'' (FromSide, ''t'') (RpcResult ()) t
     in tab_use table_resolve ''host'' t' \<and> displays ''login'' t' \<and> \<not> holds_token (tb_page t'))"
proof -
  let ?R = "table_resolve" and ?H = "''host''"
  define t1 where "t1 = side_logout ?R ?H [] slide_init home_init open_tab"
  define t2 where "t2 = login_step ?R ?H [] ''admin'' TypeAccess t1"
  define t3 where "t3 = login_step ?R ?H [] ''password'' TypeSecret t2"
  define t4 where "t4 = login_step ?R ?H [] [] SubmitLogin t3"
  define q where "q = tb_entry t3"
  define a where "a = (Inr \<lparr>ans_error = None, ans_result = Some \<lparr>res_token = ''new'', res_uiVersion = ''1''\<rparr>\<rparr> :: int option + login_answer)"
  define t5 where "t5 = login_back ?R ?H (\<lambda>_. True) a q t4"
  have old: "tb_page open_tab = store_init [''fs3MinioLoginAccessToken'' \<mapsto> ''t''] Map.empty" by (fact open_tab_facts)
  then have tok: "user_accessToken (user (tb_page open_tab)) = ''t''" by (simp add: store_init_def user_init_def stored_or_id getItem_def)
  have "\<not> displays ''login'' open_tab" using open_tab_facts(2) by (simp add: displays_def)
  with visit_login [OF table_resolve_documented, of "open_tab\<lparr>tb_logouts := tb_logouts open_tab @ [(FromSide, ''t'')]\<rparr>" ?H] open_tab_session(3)
  have v1: "displays ''login'' t1" "tb_page t1 = tb_page open_tab" "tb_logouts t1 = [(FromSide, ''t'')]" "tb_logins t1 = []" "login_form t1 = login_view_init ?H"
    by (simp_all add: t1_def side_logout_eq tok open_tab_facts(4,5) displays_def)
  have u1: "tab_use ?R ?H t1"
    unfolding t1_def by (rule side_logout_use [OF open_tab_facts(1) open_tab_session(1), where location = "[]"])
      (simp add: slide_page_def reachable_under slide_init_def policy_dialog_def side_foot_def)
  have v2: "displays ''login'' t2" "tb_page t2 = tb_page open_tab" "tb_logouts t2 = [(FromSide, ''t'')]" "tb_logins t2 = []"
    "login_form t2 = (login_view_init ?H)\<lparr>Accesskey := ''admin''\<rparr>"
    using v1 by (simp_all add: t2_def login_step_def displays_def login_form_def)
  have v3: "displays ''login'' t3" "tb_page t3 = tb_page open_tab" "tb_logouts t3 = [(FromSide, ''t'')]" "tb_logins t3 = []"
    "login_form t3 = (login_view_init ?H)\<lparr>Accesskey := ''admin'', Secretkey := ''password''\<rparr>"
    using v2 by (simp_all add: t3_def login_step_def displays_def login_form_def)
  have v4: "tb_page t4 = tb_page open_tab" "tb_logouts t4 = [(FromSide, ''t'')]" "tb_logins t4 = [q]"
    using v3 by (simp_all add: t4_def login_step_def login_submitForm_def login_form_valid_def validateAccesskey_def validateSecretkey_def
        login_view_init_def q_def)
  have "tab_use ?R ?H t2" unfolding t2_def by (rule tab_logs_in [OF u1 v1(1)]) (simp add: login_operable)
  then have "tab_use ?R ?H t3" unfolding t3_def by (rule tab_logs_in [OF _ v2(1)]) (simp add: login_operable)
  then have "tab_use ?R ?H t4" unfolding t4_def by (rule tab_logs_in [OF _ v3(1)]) (simp add: login_operable)
  then have u5: "tab_use ?R ?H t5" unfolding t5_def by (rule tab_logged_in) (simp_all add: v4 a_def accepted_login_def)
  let ?p = "store_login (tb_forms t4 q) ''new'' (tb_page open_tab)"
  let ?t4 = "t4\<lparr>tb_forms := (tb_forms t4)(q := (tb_forms t4 q)\<lparr>loginLoad := False\<rparr>), tb_page := ?p, tb_logins := []\<rparr>"
  have "t5 = visit ?R ?H ''/fs3'' ?t4"
    by (simp add: t5_def login_back_def Let_def a_def login_reply_def login_answered_def currentUiVersion_def v4 login_target)
  moreover have "session_consistent ?p" "holds_token ?p" "user_accessToken (user ?p) = ''new''"
    using stored_login [of "''new''" "tb_page open_tab" "tb_forms t4 q"] by (simp_all add: old store_login_def store_init_def session_consistent_def setItem_def)
  ultimately have v5: "displays ''minio'' t5" "tb_page t5 = ?p" "tb_logouts t5 = [(FromSide, ''t'')]"
    using visit_fs3 [OF table_resolve_documented, of ?t4 ?H] v4 by simp_all
  let ?u = "t5\<lparr>tb_logouts := [], tb_page := fst (FedLogOut ?p)\<rparr>"
  have "fst (FedLogOut (fst (FedLogOut ?p))) = fst (FedLogOut ?p)" by (simp add: FedLogOut_def user_mutation_defs fed_logout_keys_def removeItem_def)
  then have t6: "logout_back ?R ?H (FromSide, ''t'') (RpcResult ()) t5 = visit ?R ?H ''/fs3/login'' ?u"
    by (simp add: logout_back_def v5 login_target)
  have "displays ''login'' (visit ?R ?H ''/fs3/login'' ?u)" "\<not> holds_token (tb_page (visit ?R ?H ''/fs3/login'' ?u))"
    using visit_login [OF table_resolve_documented, of ?u ?H] logged_out_page [of ?p] by (simp_all del: truthy_item_eq)
  moreover have "tab_use ?R ?H (logout_back ?R ?H (FromSide, ''t'') (RpcResult ()) t5)"
    by (rule tab_logged_out [OF u5]) (simp add: v5)
  ultimately show ?thesis
    using u5 v5 \<open>user_accessToken (user ?p) = ''new''\<close> by (intro exI [of _ t5]) (simp add: t6)
qed

end
