(* ===== verification/Earlier_Page.thy ===== *)
theory Earlier_Page
  imports File_View
begin

text \<open>
  The earlier file page, \<open>views/minio/index.1.vue\<close>, which nothing imports any more. Its script is that of
  \<open>views/minio/index.vue\<close>, but for a picture, so its data and handlers are those of theory Browser_View; its template
  has a second layout, for the deals of all objects, with a search that was never wired. The lemmas show
  what its controls offer in both layouts, and that its use refines the use of the page that replaced it.
\<close>

section \<open>The template\<close>

datatype earlier_event =
    OnPage file_event
  | TypeDealSearch

record earlier =
  ep_view :: browser_view
  ep_search :: string \<comment> \<open>the only datum that the page of theory Browser_View never reads\<close>

definition earlier_init :: "string \<Rightarrow> earlier" where
  "earlier_init currentBucket = \<lparr>ep_view = bv_init currentBucket, ep_search = []\<rparr>"

text \<open>The search of the deals: the buttons are enabled by a text, and no handler is attached to them.\<close>

definition deal_search :: "string \<Rightarrow> earlier_event elem" where
  "deal_search txt =
     (let inert = (\<lambda>label. Node ''el-button'' (if txt = [] then [(''disabled'', ''true'')] else []) [] [Text label])
      in box [Node ''el-input'' [(''placeholder'', ''Search for Deal ID/W3SS ID/Data CID''), (''value'', txt)]
                [(''input'', TypeDealSearch)] [],
              inert ''Search'', inert ''Clear All''])"

definition earlier_header :: "(jsnum \<Rightarrow> jsnum) \<Rightarrow> json \<Rightarrow> bool \<Rightarrow> earlier \<Rightarrow> earlier_event elem" where
  "earlier_header math_log userd allDealShow e =
     Node ''header'' [] []
       (v_if (\<not> allDealShow) [deal_search (ep_search e)] @
        v_if allDealShow
          [relabel OnPage (Node ''h2'' [] [] (path_view (ep_view e))),
           box [Text ''Used: '', Text (formatbytes math_log (used_bytes userd))]] @
        [relabel OnPage (user_menu (ep_view e))])"

text \<open>The menu of a row had no download.\<close>

definition earlier_menu :: "browser_view \<Rightarrow> nat \<times> row \<Rightarrow> file_event elem list" where
  "earlier_menu v ir =
     v_if (bv_drawIndex v < 1) [Node ''span'' [] [(''click'', RowMenu (fst ir))] []] @
     v_if (rw_dropShow (bv_tableData v ! fst ir))
       [Node ''a'' [(''title'', ''Delete Object'')] [(''click'', DeleteObject (fst ir))] [],
        Node ''a'' [(''title'', ''Share Object'')] [(''click'', ShareObject (fst ir))] [],
        Node ''a'' [(''title'', ''Backup to Filecoin'')] [(''click'', BackupObject (fst ir))] []]"

definition earlier_columns :: "(jsnum \<Rightarrow> jsnum) \<Rightarrow> browser_view \<Rightarrow> (nat \<times> row, file_event) column list" where
  "earlier_columns math_log v =
     [([], expand_cell v),
      (''Name'', name_cell v),
      (''Size'', \<lambda>ir. [Text (formatbytes math_log (rw_size (snd ir)))]),
      (''Last Modified'', \<lambda>ir. [Text (formatter (snd ir))]),
      ([], earlier_menu v)]"

definition earlier_table :: "(jsnum \<Rightarrow> jsnum) \<Rightarrow> row list \<Rightarrow> browser_view \<Rightarrow> file_event elem" where
  "earlier_table math_log screen v = el_table ''No Data'' (earlier_columns math_log v) (enumerate 0 screen)"

text \<open>
  The other layout: a table of its own over the same list of deals, with an arrow that unfolds an empty
  panel and that no handler listens to.
\<close>

definition all_deals :: "browser_view \<Rightarrow> file_event elem" where
  "all_deals v =
     el_table ''No Data'' (([], \<lambda>d. []) # deal_columns)
       (if None \<in> set (bv_exChangeList v) then [] else map the (bv_exChangeList v))"

text \<open>The page: header, one of the tables, the drawer of the marked objects and the dialogs.\<close>

definition earlier_page ::
  "nat \<Rightarrow> (jsnum \<Rightarrow> jsnum) \<Rightarrow> json \<Rightarrow> json \<Rightarrow> bool \<Rightarrow> row list \<Rightarrow> bool \<Rightarrow> earlier \<Rightarrow> earlier_event elem" where
  "earlier_page front math_log userd about form_visible screen allDealShow e =
     under_dialogs
       (Node ''div'' [] [(''click'', OnPage ClickPage)]
          ([earlier_header math_log userd allDealShow e,
            relabel OnPage (if allDealShow then earlier_table math_log screen (ep_view e) else all_deals (ep_view e))] @
           map (relabel OnPage) (marked_drawer (ep_view e))))
       (map (relabel OnPage) (bring_front front (file_dialogs about form_visible (ep_view e))))"

fun earlier_click :: "page_env \<Rightarrow> earlier_event \<Rightarrow> earlier \<Rightarrow> earlier \<times> bv_cmd list" where
  "earlier_click env (OnPage ev) e = (case file_click env ev (ep_view e) of (v, cs) \<Rightarrow> (e\<lparr>ep_view := v\<rparr>, cs))"
| "earlier_click env TypeDealSearch e = (e\<lparr>ep_search := pe_typed env\<rparr>, [])"

section \<open>What the layouts offer\<close>

lemma earlier_under:
  "set (reachable (earlier_page front math_log userd about form_visible screen allDealShow e)) =
     (if file_dialogs about form_visible (ep_view e) = []
      then {OnPage ClickPage} \<union> set (reachable (earlier_header math_log userd allDealShow e)) \<union>
        OnPage ` set (reachable (if allDealShow then earlier_table math_log screen (ep_view e) else all_deals (ep_view e))) \<union>
        OnPage ` set (concat (map reachable (marked_drawer (ep_view e))))
      else OnPage ` set (reachable (last (bring_front front (file_dialogs about form_visible (ep_view e))))))"
  by (auto simp: earlier_page_def reachable_under last_map)

lemma deal_search_offers [simp]: "reachable (deal_search txt) = [TypeDealSearch]"
  by (simp add: deal_search_def Let_def)

lemma earlier_header_offers:
  "set (reachable (earlier_header math_log userd allDealShow e)) =
     (if allDealShow then OnPage ` set (reachable (file_header math_log userd (ep_view e)))
      else insert TypeDealSearch (OnPage ` set (reachable (user_menu (ep_view e)))))"
proof -
  have "reachable (relabel OnPage (Node ''h2'' [] [] es)) = map OnPage (concat (map reachable es))" for es
    by (simp only: reachable_relabel reachable.simps list.map append_Nil)
  then have "set (reachable (relabel OnPage (Node ''h2'' [] [] es))) = OnPage ` set (concat (map reachable es))" for es by simp
  then show ?thesis
    by (simp add: earlier_header_def file_header_def v_if_def image_Un Collect_disj_eq del: relabel.simps)
qed

lemma table_mono:
  assumes "\<And>r c. r \<in> set rows \<Longrightarrow> c \<in> set cols \<Longrightarrow>
    \<exists>c' \<in> set cols'. set (concat (map reachable (snd c r))) \<subseteq> set (concat (map reachable (snd c' r)))"
  shows "set (reachable (el_table t cols rows)) \<subseteq> set (reachable (el_table t cols' rows))"
proof
  fix e assume "e \<in> set (reachable (el_table t cols rows))"
  then obtain r c where rc: "r \<in> set rows" "c \<in> set cols" "e \<in> set (concat (map reachable (snd c r)))"
    unfolding reachable_table by auto
  with assms [OF rc(1,2)] obtain c' where "c' \<in> set cols'" "e \<in> set (concat (map reachable (snd c' r)))" by blast
  with rc(1) show "e \<in> set (reachable (el_table t cols' rows))" unfolding reachable_table by auto
qed

lemma earlier_menu_offers:
  "set (concat (map reachable (earlier_menu v ir))) \<subseteq> set (concat (map reachable (row_menu v ir)))"
  by (auto simp: earlier_menu_def row_menu_def)

lemma earlier_table_offers: "set (reachable (earlier_table math_log screen v)) \<subseteq> set (reachable (file_table math_log screen v))"
  unfolding earlier_table_def file_table_def
proof (rule table_mono)
  fix r c assume "c \<in> set (earlier_columns math_log v)"
  then consider "c \<in> set (butlast (earlier_columns math_log v))" | "c = ([], earlier_menu v)"
    by (auto simp: earlier_columns_def)
  then show "\<exists>c' \<in> set (file_columns math_log v). set (concat (map reachable (snd c r))) \<subseteq> set (concat (map reachable (snd c' r)))"
  proof cases
    case 1
    then have "c \<in> set (file_columns math_log v)" by (auto simp: earlier_columns_def file_columns_def)
    then show ?thesis by blast
  next
    case 2
    then show ?thesis
      using earlier_menu_offers [of v r] by (intro bexI [of _ "([], row_menu v)"]) (simp_all add: file_columns_def)
  qed
qed

text \<open>The deals of all objects offer the identifiers of the deals of the expanded row.\<close>

lemma all_deals_offers: "set (reachable (all_deals v)) \<subseteq> set (reachable (deals_table v))"
  unfolding all_deals_def deals_table_def
proof (rule table_mono)
  fix d :: shown_deal and c :: "(shown_deal, file_event) column"
  assume "c \<in> set (([], \<lambda>d. []) # deal_columns)"
  then show "\<exists>c' \<in> set deal_columns. set (concat (map reachable (snd c d))) \<subseteq> set (concat (map reachable (snd c' d)))"
    by (auto simp: deal_columns_def)
qed

lemma all_deals_offer: "ev \<in> set (reachable (all_deals v)) \<Longrightarrow> \<exists>t. ev = CopyCid t"
  using all_deals_offers deals_offer by blast

lemma file_page_under:
  "set (reachable (file_page front math_log userd about form_visible screen v)) =
     (if file_dialogs about form_visible v = []
      then {ClickPage} \<union> set (reachable (file_header math_log userd v)) \<union> set (reachable (file_table math_log screen v)) \<union>
        set (concat (map reachable (marked_drawer v)))
      else set (reachable (last (bring_front front (file_dialogs about form_visible v)))))"
  by (auto simp: file_page_def reachable_under)

text \<open>
  Whatever the earlier page offers in either layout, the page that replaced it offers in the same state, but
  for the typing in the search and the copying of an identifier in the layout of the deals.
\<close>

lemma earlier_offers:
  assumes "OnPage ev \<in> set (reachable (earlier_page front math_log userd about form_visible screen allDealShow e))"
  shows "ev \<in> set (reachable (file_page front math_log userd about form_visible screen (ep_view e))) \<or>
    \<not> allDealShow \<and> file_dialogs about form_visible (ep_view e) = [] \<and> (\<exists>t. ev = CopyCid t)"
proof (cases "file_dialogs about form_visible (ep_view e) = []")
  case True
  moreover have "set (reachable (user_menu v)) \<subseteq> set (reachable (file_header math_log userd v))" for v
    by (simp add: file_header_def)
  ultimately show ?thesis
    using assms earlier_table_offers [of math_log screen "ep_view e"] all_deals_offer [of ev "ep_view e"]
    unfolding earlier_under file_page_under earlier_header_offers by (auto split: if_splits)
next
  case False
  with assms show ?thesis unfolding earlier_under file_page_under by auto
qed

text \<open>The layout of the deals shows no rows to act on; the drawer over it still acts on the marked rows.\<close>

lemma deals_layout_offers:
  assumes "OnPage ev \<in> set (reachable (earlier_page front math_log userd about form_visible screen False e))"
  shows "ev \<in> insert ClickPage (header_events \<union> dialog_events \<union> range CopyCid) - {EditPath, TypePath, LeavePath} \<or>
    bv_drawer (ep_view e) \<and> ev \<in> {AskDeleteMarked, DownloadMarked, CloseMarked, DismissDrawer}"
proof (cases "file_dialogs about form_visible (ep_view e) = []")
  case True
  then show ?thesis
    using assms all_deals_offer [of ev "ep_view e"] unfolding earlier_under earlier_header_offers
    by (auto simp: user_menu_def marked_drawer_def v_if_def header_events_def split: if_splits)
next
  case False
  then have "last (bring_front front (file_dialogs about form_visible (ep_view e))) \<in> set (file_dialogs about form_visible (ep_view e))"
    using last_in_set [of "bring_front front (file_dialogs about form_visible (ep_view e))"] by (simp add: set_bring_front)
  with False assms have "ev \<in> dialog_events"
    using dialogs_offer unfolding earlier_under by auto
  then show ?thesis by (auto simp: dialog_events_def)
qed

lemma deals_layout_drawer:
  assumes "file_dialogs about form_visible (ep_view e) = []" "bv_drawer (ep_view e)"
  shows "OnPage AskDeleteMarked \<in> set (reachable (earlier_page front math_log userd about form_visible screen False e))"
  using assms unfolding earlier_under by (simp add: marked_drawer_def v_if_def)

section \<open>Its use refines the use of the page that replaced it\<close>

text \<open>
  The earlier page in use: the frame switches between the layouts at will; everything else is as for the
  file page.
\<close>

fun earlier_asked :: "earlier \<Rightarrow> earlier_event \<Rightarrow> string list \<Rightarrow> string list" where
  "earlier_asked e (OnPage ev) c = asked_on (bv_tableData (ep_view e)) (ep_view e) ev c"
| "earlier_asked e TypeDealSearch c = c"

inductive earlier_use :: "earlier \<Rightarrow> string list \<Rightarrow> bool" where
  earlier_opens: "earlier_use ((earlier_init b)\<lparr>ep_view := bv_mounted fmt l (ep_view (earlier_init b))\<rparr>) []"
| earlier_clicks: "earlier_use e c \<Longrightarrow>
    ev \<in> set (reachable (earlier_page front math_log userd about form_visible (bv_tableData (ep_view e)) allDealShow e)) \<Longrightarrow>
    earlier_use (fst (earlier_click env ev e)) (earlier_asked e ev c)"
| earlier_keeps: "earlier_use e c \<Longrightarrow> page_keeps (ep_view e) w \<Longrightarrow> earlier_use (e\<lparr>ep_view := w\<rparr>) c"
| earlier_drops: "earlier_use e c \<Longrightarrow> page_drops (ep_view e) w \<Longrightarrow> earlier_use (e\<lparr>ep_view := w\<rparr>) []"

text \<open>A click on an identifier changes the page as a click beside every control does.\<close>

lemma copy_is_click: "fst (file_click env (CopyCid t) v) = fst (file_click env ClickPage v)"
  by (simp add: file_click_def Let_def)

lemma page_click_offered:
  "file_dialogs about form_visible v = [] \<Longrightarrow> ClickPage \<in> set (reachable (file_page front math_log userd about form_visible screen v))"
  by (simp add: file_page_under)

lemma earlier_refines: "earlier_use e c \<Longrightarrow> file_use (ep_view e) c"
proof (induction rule: earlier_use.induct)
  case (earlier_opens b fmt l)
  show ?case by (simp add: earlier_init_def file_opens)
next
  case (earlier_clicks e c ev front math_log userd about form_visible allDealShow env)
  let ?v = "ep_view e"
  show ?case
  proof (cases ev)
    case (OnPage pev)
    have view: "ep_view (fst (earlier_click env ev e)) = fst (file_click env pev ?v)"
      by (simp add: OnPage case_prod_unfold)
    from earlier_offers [OF earlier_clicks.hyps(2) [unfolded OnPage]] show ?thesis
    proof (elim disjE conjE exE)
      assume "pev \<in> set (reachable (file_page front math_log userd about form_visible (bv_tableData ?v) ?v))"
      from file_clicks [OF earlier_clicks.IH this] show ?thesis by (simp only: view) (simp add: OnPage)
    next
      fix t assume copy: "pev = CopyCid t" "file_dialogs about form_visible ?v = []"
      from file_clicks [OF earlier_clicks.IH page_click_offered [OF copy(2)], of env]
      show ?thesis by (simp only: view) (simp add: OnPage copy(1) copy_is_click)
    qed
  qed (use earlier_clicks.IH in simp)
next
  case (earlier_keeps e c w)
  then show ?case by (simp add: file_keeps)
next
  case (earlier_drops e c w)
  then show ?case by (simp add: file_drops)
qed

text \<open>So a deletion confirmed on it, in either layout, removes what the screen showed when it was asked for.\<close>

lemma earlier_deletes_what_was_asked:
  assumes "earlier_use e c" "bv_deleteDialogVisible (ep_view e)"
  shows "snd (earlier_click env (OnPage ConfirmDelete) e)
    = map (\<lambda>name. getRemoveObject (pe_api env) (pe_token env) name (ep_view e)) c"
  using confirm_sends [OF earlier_refines [OF assms(1)] assms(2)] by (simp add: case_prod_unfold)

text \<open>In the frame it keeps agreeing on the folder, as its replacement does.\<close>

lemma earlier_keeps_agreement:
  assumes "same_folder f" "same_names f" "ep_view e = fr_view f"
    and "OnPage ev \<in> set (reachable (earlier_page front math_log userd about form_visible screen allDealShow e))"
    and "\<And>name. ev = OpenFolder name \<Longrightarrow> \<exists>x. name = folder_key (bv_prefixName (fr_view f)) x \<and> x \<noteq> [] \<and> CHR ''/'' \<notin> set x"
  shows "same_folder (file_in_frame api token fmt env ev f) \<and> same_names (file_in_frame api token fmt env ev f)"
proof (rule click_keeps_agreement [OF assms(1,2)])
  show "i < length (bv_currentBucketAll (fr_view f))" if "ev = Crumb i" for i
    using earlier_offers [OF assms(4)] file_offers [of ev front math_log userd about form_visible screen "fr_view f"] that
    by (auto simp: assms(3) dialog_events_def header_events_def)
qed (rule assms(5))

end
