(* ===== verification/Spec2Isabelle.thy ===== *)
theory Spec2Isabelle
  imports Routing Filters Main_App Build_Tools Json_Text Login_Page Change_Password Slide Home
    Browser_View View_Helpers Share_Dialog Account_Common My_Plans Backup_Form Job_Tables Dashboard
    App_Frame Frame_Folders App_View Entry_Views Account_Views Jobs_View Plan_Views App_Session Earlier_Page
begin

text \<open>
  A model of the browser application of FS3 (\<open>browser/\<close> in the repository), the web client of a MinIO object
  server with a backup service on Filecoin: a Vue 2 application with a Vuex store, a router with guards, a
  frame (\<open>components/Home.vue\<close>) with a side bar, and the pages the frame shows.

  \<^bold>\<open>How the program works.\<close> \<open>main.js\<close> installs the store, the router, the filters and the guards. The login
  page stores a token in session storage and in the store; the guard of the file page looks for it. The
  frame loads the buckets and a bucket's objects and hands them to the side bar and to the page the router
  shows; both send events back (\<open>$emit\<close>) and react to changed properties by watchers. The file page
  lists, marks, deletes, downloads and shares objects; the share dialog makes Filecoin deals for an object
  and pages through storage providers; the account pages create backup plans, list them, and list the
  backup and rebuild jobs.

  \<^bold>\<open>How code becomes definitions.\<close> A component is a record with the fields of its \<open>data\<close> and \<open>props\<close>; a
  method is a definition of the same name (with a prefix where two components share it) from that record to
  the new one and the commands it issues, in order (theory Js_Effects): requests with their tags, messages,
  events to the parent, router calls, timers. The callback of a request is a definition of its own that is
  applied to the reply. An exception is a value (\<open>Throws\<close>) with the state reached, and \<open>settle\<close> is
  \<open>.then(f).catch(g)\<close>. A template is a definition from the state to a tree of elements (theory Page_Elements)
  whose controls carry events; a handler table says what each event calls, and clicks go outwards through
  the elements around a control as far as the template lets them. What a user can do in a state is what the
  tree of the state offers, so that statements about uses of a page quantify over the controls on the screen and not
  over calls of methods. \<open>reachable\<close> are the controls the pointer reaches: an overlay - a loading mask, or a dialog over
  the page - takes the clicks. It leaves the keyboard focus where it is, so \<open>operable\<close> has the controls under
  overlays too. The login page and the tab are used with either; the other uses are uses with the pointer.

  \<^bold>\<open>Theories.\<close>
  \<^item> Fs3_Prelude: strings and arrays of the language (\<open>slice\<close>, \<open>splice\<close>, \<open>split\<close>, \<open>join\<close>, \<open>replace\<close>, \<open>indexOf\<close>).
  \<^item> Js_Number, Js_Date: numbers as IEEE doubles, their texts, and the proleptic calendar. Every arithmetic
    operation rounds to 53 bits; statements about numbers carry the bounds (\<open>2 ^ 53\<close> and smaller) below
    which the rounding cannot be seen.
  \<^item> Js_Effects: commands, replies, exceptions; the locales below.
  \<^item> Store (\<open>src/store\<close>), Http_Service (\<open>src/utils/request.js\<close>, \<open>src/api\<close>, \<open>src/lang\<close>, \<open>src/utils\<close>), Routing
    (\<open>src/router\<close>, \<open>src/permission.js\<close>, the guard of \<open>main.js\<close>), Main_App (the rest of \<open>main.js\<close>), Filters
    (\<open>src/filters/index.js\<close>), Json_Text (\<open>JSON\<close> on the saved account).
  \<^item> Login_Page, Change_Password, Slide, Home: \<open>components/login.vue\<close>, \<open>changePassword.vue\<close>, \<open>Slide.vue\<close>, \<open>Home.vue\<close>.
  \<^item> Browser_View, View_Helpers: \<open>views/minio/index.vue\<close>. App_Frame: the template of \<open>Home.vue\<close> with its listeners,
    properties and the watchers of its children, hence the three components running together. Frame_Folders:
    the folder on display in such runs, and archives.
  \<^item> Share_Dialog: \<open>components/shareDialog.vue\<close>, \<open>retrievalDialog.vue\<close>.
  \<^item> Account_Common, My_Plans, Backup_Form, Job_Tables, Dashboard: \<open>views/myAccount\<close> and \<open>components/fs3Backup.vue\<close>.
  \<^item> Page_Elements: trees of elements and the widgets of element-ui the templates use. The templates: Account_Views,
    Jobs_View and Plan_Views (\<open>views/myAccount\<close>), File_View (\<open>views/minio/index.vue\<close>), Slide_View (\<open>Slide.vue\<close>), Share_View
    (\<open>shareDialog.vue\<close>), Entry_Views (\<open>login.vue\<close>, \<open>changePassword.vue\<close>, \<open>fs3Backup.vue\<close>), App_View (\<open>Home.vue\<close> and
    \<open>retrievalDialog.vue\<close>, around the side bar, the file page and the share dialog).
  \<^item> Earlier_Page: \<open>views/minio/index.1.vue\<close>, an earlier copy of the file page that nothing imports: the same script
    under a template with a second layout, whose use refines that of File_View.
  \<^item> App_Session: the application in a browser tab (\<open>App.vue\<close>, \<open>views/myAccount/index.vue\<close>): the page the router shows, the storages and the
    store, and the requests for logging in and out, under the router calls of every rendered page.
  \<^item> Build_Tools: \<open>browser/build.js\<close>, \<open>browser/build\<close>, \<open>browser/config\<close>.
  \<^item> This theory: properties that span several of them.

  \<^bold>\<open>Interfaces.\<close> \<open>storage\<close> (what a web storage returns after a write) is interpreted on the storage model and
  carries the lemmas of the store. \<open>rpc_callback\<close> (an error is shown, a failure is silent, neither changes
  the state) is interpreted on every JSON-RPC callback that meets it, in the theory of its component.
  \<open>spinner\<close> and its extensions \<open>loading_view\<close> and \<open>immediate_view\<close> (what ends a loading display) are interpreted
  on the plans page, the form and the job tables. \<open>job_page\<close> (what a page of jobs offers under its dialogs and
  its spinner, and what its own events leave alone) is interpreted on the details page and on the jobs page. \<open>listener\<close> (the events a child may send and what the
  frame's listeners keep when they hear one, hence what a handler keeps) is interpreted on the listeners of the file
  page, the side bar and the share dialog.

  \<^bold>\<open>What the lemmas show.\<close> Session: in every use of the tab - logins, log-outs, reloads, refusals and late answers - the
  file page is on display only with the token that store and session storage agree on, every navigation of a
  consistent session settles, and an inconsistent one never does; the login page may hide an open session, a
  late log-out ends the next one, and a key retyped under the overlay of a login is the one that is kept. File page: folders and breadcrumbs, the
  selection and its drawer, deletion, archives; with the frame, that an upload goes to the folder on
  display, that the names on display are those the frame knows, and that with answers in order they are the
  server's under the path of the breadcrumbs - for every run of events in which no list of buckets and no creation of a
  bucket is answered inside a folder and no path of another bucket is submitted; what happens in those cases, and
  when the page is opened again inside a folder, are theorems of their own.
  For the whole rendered application (App_View) the same holds for clicks on any control, and Backup in the
  menu of a bucket opens an empty deal form for that bucket. Rendered pages in use: a confirmed deletion
  removes what had a check, the policy dialog changes the bucket in its title, a row offered under a location
  is one of its providers, the dialogs of the plan and job pages aim at the row chosen last, a login
  stores the keys it sent; each under the conditions its text names, with the uses that break it, where the code has them (a menu left open in a
  hidden bucket, crossed answers, a dialog over a late answer). Side bar: menus through shared objects, policies.
  Listings: answers in order show the current folder, crossed answers need not. Share dialog: the provider
  table implements the list of providers page by page, tags keep their invariant. Account pages: pages
  partition the server's table, a status exchange shows the updated table, a typed plan is listed as typed.
  Filters: each against an arithmetic or textual reference. Build: the output directories are cleaned, a file
  gets at most one style loader. Where the code does not do what it means to, the theorem states what it does.

  \<^bold>\<open>Bounds and fuel.\<close> \<open>navigate\<close> spends one unit of fuel on each redirect and answers \<open>None\<close> when it runs out;
  \<open>navigation_resolves\<close> shows that four units are enough for every consistent session, and
  \<open>stale_session_never_settles\<close> that no number is enough for the other kind. The reader of saved objects
  uses the length of the text as fuel, which its round trip shows to be enough. Other loops are structural
  or have a measure.

  \<^bold>\<open>Parameters.\<close> The clock and the time zone; \<open>moment\<close>'s formatting; vue-router's matching
  (\<open>documented_matching\<close> fixes the records of the addresses the application goes to and leaves all others open;
  \<open>table_resolve\<close>, written after the library's rules, instantiates it) and its order of redirects and guards (\<open>navigate\<close>); \<open>semver.satisfies\<close>; the random bytes of a secret;
  \<open>Math.log\<close> and \<open>Math.random\<close>; the wallet; the provider service (\<open>server\<close>, \<open>svc\<close>);
  the server's answers. Of the Go server only what the pages rely on is
  defined: the paging answers and plan updates of \<open>cmd/web-handlers.go\<close>, and the names an archive opens.

  \<^bold>\<open>Not modelled.\<close> Style sections, images, icons, widths and classes that only format; what element-ui's widgets do beyond their documentation,
  web3 and the other packages (\<open>src/utils/web3.1.min.js\<close> is a vendored one); in App_View, that an open dialog of one component also covers the others, and the
  calls of the router; in App_Session, the browser history and what a page looks like inside, which may be any state that offers the control used; the
  generated and static files (\<open>release\<close>, \<open>static\<close>, \<open>src/assets\<close>); the configurations of the React application this
  one replaced (\<open>webpack.config.js\<close>, \<open>webpack.production.config.js\<close>, \<open>karma.conf.js\<close>, \<open>tests.webpack.js\<close>), which
  only name files and loaders; the object server and the scheduler in Go; console output.
\<close>

section \<open>A session from login to logout\<close>

text \<open>
  C2: A session opens and closes the file page. After an accepted login with a token the page the login
  goes to is the file browser; after the logout from the side bar the same address shows the login page,
  which is told where to return to. What the logout leaves behind is the account: the access key and the
  secret key stay readable in local storage.
\<close>

theorem session_lifecycle:
  assumes "documented_matching resolve" "\<not> truthy_item (session (lg_page s)) ''oaxLoginUserId''"
    and "accepted_login a = Some r" "res_token r \<noteq> []" "login_reply version_ok a s = Done s' cs"
  shows "(\<exists>n'. navigate resolve (lg_page s') (Suc (Suc f)) ''/fs3'' [] n = Some (fs3_record, [], n')) \<and>
    (\<exists>n'. navigate resolve (fst (discovery_reply (RpcResult ()) (lg_page s'))) (Suc (Suc f)) ''/fs3'' [] n
       = Some (login_record, [(''redirect'', ''/fs3'')], n')) \<and>
    map_option parse_object (getItem (local (fst (discovery_reply (RpcResult ()) (lg_page s')))) ''MinioAccountNumber'')
      = Some (Some [(''Accesskey'', Accesskey (lg_view s)), (''Secretkey'', Secretkey (lg_view s))])"
proof -
  define p' where "p' = fst (discovery_reply (RpcResult ()) (lg_page s'))"
  have "lg_page s' = store_login (lg_view s) (res_token r) (lg_page s)"
    using assms(3,5) by (cases a) (auto simp: accepted_login_def login_reply_def login_answered_def currentUiVersion_def
        split: if_splits)
  then have s': "session (lg_page s') = setItem ''fs3MinioLoginAccessToken'' (res_token r) (session (lg_page s))"
    "getItem (local (lg_page s')) ''MinioAccountNumber'' = Some (account_text (lg_view s))"
    by (simp_all add: store_login_def setItem_def getItem_def)
  have "session_consistent (lg_page s')" "truthy_item (session (lg_page s')) ''fs3MinioLoginAccessToken''"
    using assms(4) by (simp_all add: session_consistent_def s' setItem_def)
  then have "\<exists>n'. navigate resolve (lg_page s') (Suc (Suc f)) ''/fs3'' [] n = Some (fs3_record, [], n')"
    using navigate_fs3 [OF assms(1), of "lg_page s'" f "[]" n] by auto
  moreover have out: "\<not> truthy_item (session p') k" if "k \<in> set fed_logout_keys" for k
    using that fed_logout_session [of "lg_page s'" k] by (simp add: p'_def truthy_item_def del: truthy_item_eq)
  then have "session_consistent p'" "\<not> truthy_item (session p') ''fs3MinioLoginAccessToken''"
    unfolding session_consistent_def by (simp_all add: fed_logout_keys_def del: truthy_item_eq)
  then have "\<exists>n'. navigate resolve p' (Suc (Suc f)) ''/fs3'' [] n = Some (login_record, [(''redirect'', ''/fs3'')], n')"
    using navigate_fs3 [OF assms(1), of p' f "[]" n] by auto
  moreover have "local p' = local (lg_page s')" by (simp add: p'_def fed_logout_frame)
  ultimately show ?thesis unfolding p'_def [symmetric] by (simp add: s' account_text_parses)
qed

definition sample_login :: login_state where
  "sample_login = \<lparr>lg_view = (login_view_init ''host'')\<lparr>Accesskey := ''admin'', Secretkey := ''password''\<rparr>, lg_page = anonymous\<rparr>"

definition sample_answer :: login_answer where
  "sample_answer = \<lparr>ans_error = None, ans_result = Some \<lparr>res_token = ''t'', res_uiVersion = ''2021-01-01''\<rparr>\<rparr>"

theorem session_lifecycle_witness:
  "\<exists>s' :: login_state. map_option parse_object (getItem (local (fst (discovery_reply (RpcResult ()) (lg_page s')))) ''MinioAccountNumber'')
      = Some (Some [(''Accesskey'', ''admin''), (''Secretkey'', ''password'')]) \<and>
    (\<exists>n'. navigate table_resolve (lg_page s') 2 ''/fs3'' [] idle_nav = Some (fs3_record, [], n'))"
proof -
  have reply: "\<exists>s' cs. login_reply (\<lambda>_. True) (Inr sample_answer) sample_login = Done s' cs"
    by (simp add: login_reply_def login_answered_def sample_answer_def currentUiVersion_def)
  then obtain s' cs where d: "login_reply (\<lambda>_. True) (Inr sample_answer) sample_login = Done s' cs" by blast
  have "\<not> truthy_item (session (lg_page sample_login)) ''oaxLoginUserId''"
    by (simp add: sample_login_def anonymous_def store_init_def)
  moreover have "accepted_login (Inr sample_answer) = Some \<lparr>res_token = ''t'', res_uiVersion = ''2021-01-01''\<rparr>"
    by (simp add: accepted_login_def sample_answer_def)
  ultimately show ?thesis
    using session_lifecycle [OF table_resolve_documented _ _ _ d, of _ 0 idle_nav]
    by (intro exI [of _ s']) (simp add: sample_login_def numeral_eq_Suc del: navigate.simps truthy_item_eq)
qed

section \<open>From the dashboard to the job tables\<close>

text \<open>
  C31: The button of a card of the dashboard leads to the table the card counts: its navigation settles on the
  details page without a login, and the parameter of its path makes the page ask for the backup jobs from the
  first card, for the rebuild jobs from the second, under the matching title, with the first page of ten.
\<close>

theorem dashboard_link_opens_table:
  assumes "documented_matching resolve"
  shows "\<exists>path n'. dashboard_link index
        = [RouterPush (ByNameParams ''my_account_dashboard_detail'' [(''type'', if index \<noteq> 0 then ''rebuild_job'' else ''backup_job'')])] \<and>
    target_path (ByNameParams ''my_account_dashboard_detail'' [(''type'', if index \<noteq> 0 then ''rebuild_job'' else ''backup_job'')]) = Some path \<and>
    navigate resolve p (Suc f) path [] n = Some (detail_record, [], n') \<and>
    (case details_productName api token (type_param path) details_init of (s, cs) \<Rightarrow>
       dt_linkTitle s = (if index \<noteq> 0 then ''All Rebuild Job Details'' else ''All Backup Job Details'') \<and> jb_loading s \<and>
       map (\<lambda>(t, q). (t, req_url q, req_body q)) (requests cs) =
         [(if index \<noteq> 0 then RebuildReply else VolumeReply,
           api @ (if index \<noteq> 0 then ''/minio/rebuild/retrieve/volume'' else ''/minio/backup/retrieve/volume''),
           JObj [(''Offset'', JInt 0), (''Limit'', JInt 10)])])"
proof -
  let ?t = "if index \<noteq> 0 then ''rebuild_job'' else ''backup_job''" and ?nm = "''my_account_dashboard_detail''"
  have "List.find (\<lambda>r. rt_name r = Some ?nm) flat_routes = Some detail_record"
    by (simp add: flat_routes_def routes_def detail_record_def)
  then have path: "target_path (ByNameParams ?nm [(''type'', ?t)]) = Some (detail_prefix @ ?t)"
    by (simp add: target_path_def detail_record_def detail_prefix_def)
  have det: "is_detail (detail_prefix @ ?t)" by (simp add: is_detail_def)
  have "matched_route resolve (detail_prefix @ ?t) = detail_record" by (rule resolve_detail [OF assms]) simp
  moreover have rec: "detail_record \<in> set (blank_route # flat_routes)" "rt_redirect detail_record = None"
    using in_table by (simp_all add: detail_record_def)
  moreover have "detail_prefix @ ?t \<noteq> ''/fs3/login''" by (simp add: detail_prefix_def)
  then have "fst (run_guards p detail_record (detail_prefix @ ?t) n) = Proceed"
    using run_guards_cases [OF rec(1), of p "detail_prefix @ ?t" n] by (simp add: detail_record_def)
  ultimately obtain n' where "navigate resolve p (Suc f) (detail_prefix @ ?t) [] n = Some (detail_record, [], n')"
    using navigate_proceed by blast
  moreover have "type_param (detail_prefix @ ?t) = Some ?t" using det by (simp add: type_param_def)
  ultimately show ?thesis
    using path by (intro exI [of _ "detail_prefix @ ?t"] exI [of _ n'])
      (simp add: dashboard_link_def details_productName_def details_getData_def volume_request_def rebuild_request_def
        axios_post_def page_params_def page_offset_def details_init_def pager_init_def del: navigate.simps)
qed

theorem dashboard_link_opens_table_witness:
  "\<exists>path n'. navigate table_resolve anonymous 1 path [] idle_nav = Some (detail_record, [], n')"
  using dashboard_link_opens_table [OF table_resolve_documented, of 1 anonymous 0 idle_nav "[]" "[]"]
  by (auto simp del: navigate.simps)

section \<open>The path editor and the parent\<close>

text \<open>
  The path editor of the file page and the parent that answers its event: the path is edited, return is
  pressed, the parent asks the server for a new bucket, the server refuses, and the page sees the parent's
  bucket change.
\<close>

definition refused_path :: "string \<Rightarrow> string \<Rightarrow> string \<Rightarrow> string \<Rightarrow> browser_view \<Rightarrow> home \<Rightarrow> browser_view \<times> home" where
  "refused_path api token typed message s h =
     (let (s1, cs) = onkeydown 13 ((fst (editFun s))\<lparr>bv_name_file := typed\<rparr>)
      in case filter (\<lambda>c. case c of Emit e _ \<Rightarrow> e = ''getaboutServer'' | _ \<Rightarrow> False) cs of
           Emit e [JStr name, JBool shown, JStr pre, JStr old] # _ \<Rightarrow>
             (let h1 = fst (getMakeBucket api token name shown pre old h);
                  h2 = out_state (makeBucket_reply api token name pre old (RpcError message) h1)
              in (if hm_currentBucket h2 \<noteq> bv_currentBucket s1 then watch_currentBucket (hm_currentBucket h2) s1 else s1, h2))
         | _ \<Rightarrow> (s1, h))"

text \<open>
  C30: A path typed for a bucket that cannot be created takes the file page out of its bucket. From a folder of the
  bucket \<open>b\<close> the parent's fall-back selects the whole old path as if it were a bucket; the breadcrumbs look as
  before, but a click on the bucket's own crumb asks for the objects of a bucket named by that path.
\<close>

theorem refused_path_loses_bucket:
  assumes "bv_currentBucketAll s = b # c # cs" "bv_currentBucket s = b" "bv_form_name s = []"
    and "list_all (\<lambda>x. CHR ''/'' \<notin> set x) (b # c # cs)" "path_pieces typed = n # ns" "n \<noteq> b"
  shows "(case refused_path api token typed message s h of (s', h') \<Rightarrow>
      hm_currentBucket h' = join ''/'' (b # c # cs) \<and> bv_currentBucketAll s' = b # c # cs \<and>
      snd (buckerAdress 0 s') = [Emit ''getListObjects'' [JStr (join ''/'' (b # c # cs)), JStr []]])"
proof -
  have typed: "typed \<noteq> []" using assms(5) by (auto simp: path_pieces_def)
  have split: "split_on CHR ''/'' (join ''/'' (b # c # cs)) = b # c # cs"
    using assms(4) by (intro split_on_join) (auto simp: list_all_iff)
  have "CHR ''/'' \<in> set (join ''/'' (b # c # cs))" by simp
  then have old: "join ''/'' (b # c # cs) \<noteq> b" "join ''/'' (b # c # cs) \<noteq> []" using assms(4) by auto
  show ?thesis
    using assms typed split old
    by (simp add: refused_path_def onkeydown_def editFun_def submit_path_def getMakeBucket_def makeBucket_reply_def
        watch_currentBucket_def buckerAdress_def emit_list_def Let_def del: join.simps)
qed

theorem refused_path_loses_bucket_witness:
  "hm_currentBucket (snd (refused_path [] [] ''new/dir'' ''refused''
     ((bv_init ''photos'')\<lparr>bv_currentBucketAll := [''photos'', ''2021''], bv_prefixName := ''2021''\<rparr>) home_init))
   = join ''/'' [''photos'', ''2021'']"
  using refused_path_loses_bucket [of "(bv_init ''photos'')\<lparr>bv_currentBucketAll := [''photos'', ''2021''], bv_prefixName := ''2021''\<rparr>"
      "''photos''" "''2021''" "[]" "''new/dir''" "''new''" "[''dir'']" "[]" "[]" "''refused''" home_init]
  by (simp add: bv_init_def path_pieces_def split: prod.splits)

end
